(* ===== verification/EyeD_Prelude.thy ===== *)
theory EyeD_Prelude
  imports Complex_Main "HOL-Library.Word" "HOL-Library.Char_ord" "HOL-Library.List_Lexorder"
begin

text \<open>
  What every component of the EyeD model shares: the names of the machine types of the C++
  sources, the value types of results and errors, bytes and characters, decimal printing,
  little-endian words, and the generic run of a state machine.

  A \<^verbatim>\<open>std::string\<close> is a \<open>string\<close> (its characters are bytes), a
  \<^verbatim>\<open>std::vector<uint8_t>\<close> is a list of \<open>8 word\<close>, a \<^verbatim>\<open>uint32_t\<close> is a \<open>32 word\<close>, and so
  on. A \<^verbatim>\<open>double\<close> is a rational number: every finite double is one; where the sources
  compute with doubles the component says what the exact value stands for.
\<close>

unbundle bit_operations_syntax

section \<open>Names of the machine types\<close>

type_synonym byte = "8 word"
type_synonym bytes = "byte list"
type_synonym u8 = "8 word"
type_synonym u16 = "16 word"
type_synonym u32 = "32 word"
type_synonym u64 = "64 word"
type_synonym double = rat

named_theorems codec_intros \<open>reading back what a writer wrote\<close>
named_theorems inv_intros \<open>preservation of the components' invariants\<close>

section \<open>Characters and bytes\<close>

definition byte_of_char :: "char \<Rightarrow> byte" where
  "byte_of_char c = of_nat (of_char c)"

definition char_of_byte :: "byte \<Rightarrow> char" where
  "char_of_byte b = char_of (unat b)"

definition bytes_of_string :: "string \<Rightarrow> bytes" where
  "bytes_of_string s = map byte_of_char s"

definition string_of_bytes :: "bytes \<Rightarrow> string" where
  "string_of_bytes bs = map char_of_byte bs"

lemma of_char_less_256 [simp]: "(of_char c :: nat) < 256"
  by simp

lemma char_of_byte_of_char [simp]: "char_of_byte (byte_of_char c) = c"
  by (simp add: char_of_byte_def byte_of_char_def unat_of_nat)

lemma byte_of_char_of_byte [simp]: "byte_of_char (char_of_byte b) = b"
  using unsigned_less [of b, where ?'a = nat] by (simp add: char_of_byte_def byte_of_char_def)

lemma string_of_bytes_of_string [simp]: "string_of_bytes (bytes_of_string s) = s"
  by (simp add: string_of_bytes_def bytes_of_string_def comp_def)

lemma bytes_of_string_of_bytes [simp]: "bytes_of_string (string_of_bytes bs) = bs"
  by (simp add: string_of_bytes_def bytes_of_string_def comp_def)

lemma length_bytes_of_string [simp]: "length (bytes_of_string s) = length s"
  by (simp add: bytes_of_string_def)

lemma length_string_of_bytes [simp]: "length (string_of_bytes bs) = length bs"
  by (simp add: string_of_bytes_def)

section \<open>Results and errors\<close>

text \<open>
  \<^verbatim>\<open>iris::Result<T>\<close> is a \<^verbatim>\<open>std::expected\<close>: \<open>Inr\<close> carries the value, \<open>Inl\<close> the error,
  which has a code and a message. The sources construct the three codes named here; the
  libraries may return others.
\<close>

datatype ErrorCode = ValidationFailed | ConfigInvalid | IoFailed | LibraryError nat

record iris_error =
  err_code :: ErrorCode
  err_message :: string

type_synonym 'a Result = "iris_error + 'a"

definition make_error :: "ErrorCode \<Rightarrow> string \<Rightarrow> 'a Result" where
  "make_error c m = Inl \<lparr>err_code = c, err_message = m\<rparr>"

definition has_value :: "'e + 'a \<Rightarrow> bool" where
  "has_value r = (case r of Inl _ \<Rightarrow> False | Inr _ \<Rightarrow> True)"

lemma has_value_simps [simp]: "has_value (Inl e) = False" "has_value (Inr x) = True"
  by (simp_all add: has_value_def)

lemma make_error_neq_Inr [simp]: "make_error c m \<noteq> Inr x" "Inr x \<noteq> make_error c m"
  by (simp_all add: make_error_def)

section \<open>Decimal printing\<close>

text \<open>\<^verbatim>\<open>std::to_string\<close> of an unsigned integer: its decimal digits, most significant first.\<close>

fun to_string :: "nat \<Rightarrow> string" where
  "to_string n =
     (if n < 10 then [char_of (48 + n)] else to_string (n div 10) @ [char_of (48 + n mod 10)])"

declare to_string.simps [simp del]

definition digit_val :: "char \<Rightarrow> nat" where
  "digit_val c = of_char c - 48"

definition is_digit :: "char \<Rightarrow> bool" where
  "is_digit c = (48 \<le> (of_char c :: nat) \<and> (of_char c :: nat) \<le> 57)"

definition decimal_value :: "string \<Rightarrow> nat" where
  "decimal_value s = fold (\<lambda>c n. 10 * n + digit_val c) s 0"

lemma of_char_digit [simp]: "n < 10 \<Longrightarrow> (of_char (char_of (48 + n :: nat)) :: nat) = 48 + n"
  by simp

lemma digit_val_char [simp]: "n < 10 \<Longrightarrow> digit_val (char_of (48 + n)) = n"
  by (simp add: digit_val_def)

lemma is_digit_char [simp]: "(n::nat) < 10 \<Longrightarrow> is_digit (char_of (48 + n))"
  by (simp add: is_digit_def)

lemma decimal_value_append [simp]:
  "decimal_value (s @ [c]) = 10 * decimal_value s + digit_val c"
  by (simp add: decimal_value_def)

lemma decimal_value_to_string [simp]: "decimal_value (to_string n) = n"
proof (induction n rule: to_string.induct)
  case (1 n)
  show ?case
  proof (cases "n < 10")
    case True
    then show ?thesis by (subst to_string.simps) (simp add: decimal_value_def)
  next
    case False
    with 1 show ?thesis by (subst to_string.simps) simp
  qed
qed

lemma to_string_inj: "to_string m = to_string n \<longleftrightarrow> m = n"
  by (metis decimal_value_to_string)

lemma to_string_not_Nil [simp]: "to_string n \<noteq> []"
  by (subst to_string.simps) simp

lemma to_string_digits: "\<forall>c \<in> set (to_string n). is_digit c"
proof (induction n rule: to_string.induct)
  case (1 n)
  show ?case
  proof (cases "n < 10")
    case True
    then show ?thesis by (subst to_string.simps) simp
  next
    case False
    with 1 show ?thesis by (subst to_string.simps) auto
  qed
qed

section \<open>Little-endian words\<close>

text \<open>
  \<open>le_bytes n v\<close> is the loop that pushes the \<open>n\<close> low bytes of \<open>v\<close>, least significant
  first; \<open>le_word\<close> is the loop that ors the bytes back at their positions.
\<close>

definition le_bytes :: "nat \<Rightarrow> 'a::len word \<Rightarrow> bytes" where
  "le_bytes n v = map (\<lambda>i. ucast (drop_bit (8 * i) v AND 0xFF)) [0..<n]"

definition le_word :: "bytes \<Rightarrow> 'a::len word" where
  "le_word bs = fold (\<lambda>i v. v OR push_bit (8 * i) (ucast (bs ! i))) [0..<length bs] 0"

lemma length_le_bytes [simp]: "length (le_bytes n v) = n"
  by (simp add: le_bytes_def)

lemma and_0xFF: "(w :: 'a::len word) AND 0xFF = take_bit 8 w"
  by (simp only: take_bit_eq_mask) (simp add: mask_eq_exp_minus_1)

lemma nth_le_bytes: "i < n \<Longrightarrow> le_bytes n v ! i = ucast (take_bit 8 (drop_bit (8 * i) v))"
  by (simp add: le_bytes_def and_0xFF)

lemma le_word_snoc:
  "le_word (bs @ [b]) = le_word bs OR push_bit (8 * length bs) (ucast b)"
proof -
  have "fold (\<lambda>i v. v OR push_bit (8 * i) (ucast ((bs @ [b]) ! i))) [0..<length bs] w =
      fold (\<lambda>i v. v OR push_bit (8 * i) (ucast (bs ! i))) [0..<length bs] w" for w :: "'a word"
    by (rule fold_cong) (auto simp: nth_append)
  then show ?thesis by (simp add: le_word_def)
qed

lemma le_word_Nil [simp]: "le_word [] = 0"
  by (simp add: le_word_def)

lemma bit_le_word:
  "bit (le_word bs :: 'a::len word) k \<longleftrightarrow> k < LENGTH('a) \<and> k div 8 < length bs \<and> bit (bs ! (k div 8)) (k mod 8)"
proof (induction bs rule: rev_induct)
  case Nil
  then show ?case by simp
next
  case (snoc b bs)
  consider "k div 8 < length bs" | "k div 8 = length bs" | "k div 8 > length bs" by linarith
  then show ?case
  proof cases
    case 1
    then have "k < 8 * length bs" by simp
    with 1 show ?thesis by (simp add: le_word_snoc bit_simps snoc.IH nth_append)
  next
    case 2
    then have "8 * length bs \<le> k" "k mod 8 = k - 8 * length bs" by presburger+
    with 2 show ?thesis
      by (auto simp add: le_word_snoc bit_simps snoc.IH nth_append dest: bit_imp_le_length)
  next
    case 3
    then have "8 * length bs + 8 \<le> k" by simp
    then have "\<not> bit b (k - 8 * length bs)" using bit_imp_le_length [of b "k - 8 * length bs"] by auto
    with 3 show ?thesis by (simp add: le_word_snoc bit_simps snoc.IH)
  qed
qed

lemma le_bytes_le_word:
  assumes "8 * length bs \<le> LENGTH('a::len)"
  shows "le_bytes (length bs) (le_word bs :: 'a word) = bs"
proof (rule nth_equalityI)
  show "length (le_bytes (length bs) (le_word bs :: 'a word)) = length bs" by simp
  fix i assume "i < length (le_bytes (length bs) (le_word bs :: 'a word))"
  then have i: "i < length bs" by simp
  show "le_bytes (length bs) (le_word bs :: 'a word) ! i = bs ! i"
  proof (rule bit_word_eqI)
    fix k assume k: "k < LENGTH(8)"
    with i assms have "8 * i + k < LENGTH('a)" by simp
    with i k show "bit (le_bytes (length bs) (le_word bs :: 'a word) ! i) k = bit (bs ! i) k"
      by (simp add: nth_le_bytes bit_simps bit_le_word)
  qed
qed

lemma le_word_le_bytes:
  assumes "LENGTH('a::len) = 8 * n"
  shows "le_word (le_bytes n v) = (v :: 'a word)"
proof (rule bit_word_eqI)
  fix k assume k: "k < LENGTH('a)"
  then have "k div 8 < n" using assms by simp
  moreover have "8 * (k div 8) + k mod 8 = k" by simp
  ultimately show "bit (le_word (le_bytes n v) :: 'a word) k = bit v k"
    using k by (simp add: bit_le_word nth_le_bytes bit_simps)
qed
section \<open>JSON values\<close>

text \<open>
  The values the services exchange as JSON text. \<^verbatim>\<open>nlohmann::json\<close> itself (its parser and its
  printer) is a parameter of the definitions that use it. An object is its list of members;
  \<open>jget\<close> finds a member by its key. \<open>jvalue_str\<close> is the accessor \<^verbatim>\<open>j.value(key, "default")\<close>:
  the default where the key is absent, the string where it holds one, and an exception
  where the member has another type or \<open>j\<close> is not an object.
\<close>

datatype json =
    JNull
  | JBool bool
  | JInt int
  | JNum double
  | JStr string
  | JArr "json list"
  | JObj "(string \<times> json) list"

datatype exn = TypeError | StdException string

text \<open>How a program ends: with a code, by an exception that nobody catches, or by undefined behaviour.\<close>

datatype ending = ExitCode int | Terminated exn | Crash

fun is_object :: "json \<Rightarrow> bool" where
  "is_object (JObj _) = True"
| "is_object _ = False"

fun is_string :: "json \<Rightarrow> bool" where
  "is_string (JStr _) = True"
| "is_string _ = False"

fun jget :: "json \<Rightarrow> string \<Rightarrow> json option" where
  "jget (JObj ms) k = map_of ms k"
| "jget _ k = None"

definition jvalue_str :: "json \<Rightarrow> string \<Rightarrow> string \<Rightarrow> exn + string" where
  "jvalue_str j k d =
     (if \<not> is_object j then Inl TypeError
      else case jget j k of
             None \<Rightarrow> Inr d
           | Some v \<Rightarrow> (case v of JStr s \<Rightarrow> Inr s | _ \<Rightarrow> Inl TypeError))"

fun jerase :: "string \<Rightarrow> json \<Rightarrow> json" where
  "jerase k (JObj ms) = JObj (filter (\<lambda>(k', _). k' \<noteq> k) ms)"
| "jerase k j = j"

lemma jget_jerase [simp]: "jget (jerase k j) k' = (if k' = k then None else jget j k')"
proof (cases j)
  case (JObj ms)
  have "map_of (filter (\<lambda>(k', _). k' \<noteq> k) ms) k' = (if k' = k then None else map_of ms k')"
    by (induction ms) auto
  with JObj show ?thesis by simp
qed simp_all

text \<open>Sequencing of steps that may throw.\<close>

definition ebind :: "'e + 'a \<Rightarrow> ('a \<Rightarrow> 'e + 'b) \<Rightarrow> 'e + 'b" where
  "ebind r f = (case r of Inl e \<Rightarrow> Inl e | Inr x \<Rightarrow> f x)"

lemma ebind_simps [simp]: "ebind (Inl e) f = Inl e" "ebind (Inr x) f = f x"
  by (simp_all add: ebind_def)

lemma ebind_Inr: "ebind r f = Inr y \<longleftrightarrow> (\<exists>x. r = Inr x \<and> f x = Inr y)"
  by (cases r) simp_all

text \<open>The same step for each element of a list.\<close>

fun emap :: "('a \<Rightarrow> 'e + 'b) \<Rightarrow> 'a list \<Rightarrow> 'e + 'b list" where
  "emap f [] = Inr []"
| "emap f (x # xs) = ebind (f x) (\<lambda>y. ebind (emap f xs) (\<lambda>ys. Inr (y # ys)))"

lemma emap_cong_Inr: "(\<And>x. x \<in> set xs \<Longrightarrow> f x = Inr (g x)) \<Longrightarrow> emap f xs = Inr (map g xs)"
  by (induction xs) auto

lemma emap_fails:
  "(\<And>x. x \<in> set xs \<Longrightarrow> f x = (if P x then Inr (g x) else Inl e)) \<Longrightarrow>
    emap f xs = (if list_all P xs then Inr (map g xs) else Inl e)"
  by (induction xs) auto

section \<open>Runs of a state machine\<close>

text \<open>
  A component whose operations are a function of an event and a state. What every
  operation keeps in the circumstances \<open>ok\<close> allows, a run within these circumstances keeps;
  components interpret the locales with their own step function and invariant.
\<close>

primrec guarded_run :: "('e \<Rightarrow> 's \<Rightarrow> bool) \<Rightarrow> ('e \<Rightarrow> 's \<Rightarrow> 's) \<Rightarrow> 'e list \<Rightarrow> 's \<Rightarrow> bool" where
  "guarded_run ok step [] s = True"
| "guarded_run ok step (e # es) s = (ok e s \<and> guarded_run ok step es (step e s))"

lemma guarded_run_append:
  "guarded_run ok step (es @ fs) s \<longleftrightarrow> guarded_run ok step es s \<and> guarded_run ok step fs (fold step es s)"
  by (induction es arbitrary: s) auto

lemma guarded_run_True [simp]: "guarded_run (\<lambda>e s. True) step es s"
  by (induction es arbitrary: s) auto

locale guarded_machine =
  fixes step :: "'e \<Rightarrow> 's \<Rightarrow> 's"
    and ok :: "'e \<Rightarrow> 's \<Rightarrow> bool"
    and inv :: "'s \<Rightarrow> bool"
  assumes guarded_step: "inv s \<Longrightarrow> ok e s \<Longrightarrow> inv (step e s)"
begin

lemma guarded_keeps: "inv s \<Longrightarrow> guarded_run ok step es s \<Longrightarrow> inv (fold step es s)"
  by (induction es arbitrary: s) (simp_all add: guarded_step)

end

locale step_machine =
  fixes step :: "'e \<Rightarrow> 's \<Rightarrow> 's"
    and inv :: "'s \<Rightarrow> bool"
  assumes step_keeps: "inv s \<Longrightarrow> inv (step e s)"

sublocale step_machine < guarded_machine step "\<lambda>e s. True" inv
  by unfold_locales (rule step_keeps)

context step_machine
begin

lemma run_keeps: "inv s \<Longrightarrow> inv (fold step es s)"
  by (rule guarded_keeps) simp_all

end

end
