(* ===== verification/Smpc2_Codec.thy ===== *)
theory Smpc2_Codec
  imports EyeD_Prelude
begin

text \<open>
  The binary codec of the Shamir (SMPC2) messages,
  \<^verbatim>\<open>iris-engine2/src/smpc2_nats_codec.cpp\<close>. \<open>ByteWriter2\<close> is the growing buffer,
  \<open>ByteReader2\<close> the payload with its read position; a read either fails with
  \<open>ValidationFailed\<close> or returns the value and the advanced reader. The message structs
  are those of the wire format documented in \<^verbatim>\<open>smpc2_nats_codec.h\<close>.

  The locale \<open>byte_codec\<close> is the contract of one field: what was written at a position is
  read back from it and nothing else is consumed, a truncated field is an error, and only a
  written field is accepted. It is proved for each field of the wire format; messages are
  sequences of fields, so their properties come from the sequence lemmas of the locale.
\<close>

section \<open>Messages\<close>

record ShamirShare =
  party_id :: u8
  x_coord :: u64
  code_share :: "u64 list"
  mask_share :: "u64 list"

record ShamirShareSyncJob =
  ssj_subject_id :: string
  ssj_participant_id :: u8
  ssj_share :: ShamirShare

record ShamirMatchJob =
  smj_participant_id :: u8
  smj_probe_share :: ShamirShare

record ShamirMatchRow =
  row_subject_id :: string
  row_xor_share :: ShamirShare

record ShamirMatchResponse =
  smr_participant_id :: u8
  smr_rows :: "ShamirMatchRow list"

text \<open>The share arrays of the wire format hold 128 words each.\<close>

abbreviation share_words :: nat where
  "share_words \<equiv> 128"

definition wf_share :: "ShamirShare \<Rightarrow> bool" where
  "wf_share sh = (length (code_share sh) = share_words \<and> length (mask_share sh) = share_words)"

definition wf_string :: "string \<Rightarrow> bool" where
  "wf_string s = (length s < 2 ^ 32)"

section \<open>ByteWriter2\<close>

definition write_u8 :: "u8 \<Rightarrow> bytes \<Rightarrow> bytes" where
  "write_u8 v buf = buf @ [v]"

definition write_u32 :: "u32 \<Rightarrow> bytes \<Rightarrow> bytes" where
  "write_u32 v buf = buf @
     [ucast (drop_bit 0 v AND 0xFF), ucast (drop_bit 8 v AND 0xFF),
      ucast (drop_bit 16 v AND 0xFF), ucast (drop_bit 24 v AND 0xFF)]"

definition write_u64 :: "u64 \<Rightarrow> bytes \<Rightarrow> bytes" where
  "write_u64 v buf =
     fold (\<lambda>i b. b @ [ucast (drop_bit (8 * i) v AND 0xFF)]) [0..<8] buf"

definition write_string :: "string \<Rightarrow> bytes \<Rightarrow> bytes" where
  "write_string s buf = write_u32 (of_nat (length s)) buf @ bytes_of_string s"

definition write_share :: "ShamirShare \<Rightarrow> bytes \<Rightarrow> bytes" where
  "write_share sh buf =
     fold write_u64 (mask_share sh)
       (fold write_u64 (code_share sh)
         (write_u64 (x_coord sh) (write_u8 (party_id sh) buf)))"

section \<open>ByteReader2\<close>

record ByteReader2 =
  rd_b :: bytes
  rd_pos :: nat

definition reader :: "bytes \<Rightarrow> ByteReader2" where
  "reader b = \<lparr>rd_b = b, rd_pos = 0\<rparr>"

definition read_u8 :: "ByteReader2 \<Rightarrow> (u8 \<times> ByteReader2) Result" where
  "read_u8 r =
     (if rd_pos r + 1 > length (rd_b r)
      then make_error ValidationFailed ''smpc2 codec: underflow (u8)''
      else Inr (rd_b r ! rd_pos r, r\<lparr>rd_pos := rd_pos r + 1\<rparr>))"

definition read_u32 :: "ByteReader2 \<Rightarrow> (u32 \<times> ByteReader2) Result" where
  "read_u32 r =
     (if rd_pos r + 4 > length (rd_b r)
      then make_error ValidationFailed ''smpc2 codec: underflow (u32)''
      else Inr (fold (\<lambda>i v. v OR push_bit (8 * i) (ucast (rd_b r ! (rd_pos r + i)))) [0..<4] 0,
                r\<lparr>rd_pos := rd_pos r + 4\<rparr>))"

definition read_u64 :: "ByteReader2 \<Rightarrow> (u64 \<times> ByteReader2) Result" where
  "read_u64 r =
     (if rd_pos r + 8 > length (rd_b r)
      then make_error ValidationFailed ''smpc2 codec: underflow (u64)''
      else Inr (fold (\<lambda>i v. v OR push_bit (8 * i) (ucast (rd_b r ! (rd_pos r + i)))) [0..<8] 0,
                r\<lparr>rd_pos := rd_pos r + 8\<rparr>))"

definition read_string :: "ByteReader2 \<Rightarrow> (string \<times> ByteReader2) Result" where
  "read_string r =
     (case read_u32 r of
        Inl e \<Rightarrow> Inl e
      | Inr (len, r1) \<Rightarrow>
          if rd_pos r1 + unat len > length (rd_b r1)
          then make_error ValidationFailed ''smpc2 codec: string underflow''
          else Inr (string_of_bytes (take (unat len) (drop (rd_pos r1) (rd_b r1))),
                    r1\<lparr>rd_pos := rd_pos r1 + unat len\<rparr>))"

text \<open>The loop over the words of a share array.\<close>

fun read_words :: "nat \<Rightarrow> ByteReader2 \<Rightarrow> (u64 list \<times> ByteReader2) Result" where
  "read_words 0 r = Inr ([], r)"
| "read_words (Suc n) r =
     (case read_u64 r of
        Inl e \<Rightarrow> Inl e
      | Inr (w, r1) \<Rightarrow>
          (case read_words n r1 of
             Inl e \<Rightarrow> Inl e
           | Inr (ws, r2) \<Rightarrow> Inr (w # ws, r2)))"

definition read_share :: "ByteReader2 \<Rightarrow> (ShamirShare \<times> ByteReader2) Result" where
  "read_share r =
     (case read_u8 r of
        Inl e \<Rightarrow> Inl e
      | Inr (i, r1) \<Rightarrow>
     (case read_u64 r1 of
        Inl e \<Rightarrow> Inl e
      | Inr (x, r2) \<Rightarrow>
     (case read_words share_words r2 of
        Inl e \<Rightarrow> Inl e
      | Inr (cs, r3) \<Rightarrow>
     (case read_words share_words r3 of
        Inl e \<Rightarrow> Inl e
      | Inr (ms, r4) \<Rightarrow>
          Inr (\<lparr>party_id = i, x_coord = x, code_share = cs, mask_share = ms\<rparr>, r4)))))"

section \<open>The message codecs\<close>

definition encode_shamir_share_sync_job :: "ShamirShareSyncJob \<Rightarrow> bytes Result" where
  "encode_shamir_share_sync_job job =
     Inr (write_share (ssj_share job)
           (write_u8 (ssj_participant_id job) (write_string (ssj_subject_id job) [])))"

definition decode_shamir_share_sync_job :: "bytes \<Rightarrow> ShamirShareSyncJob Result" where
  "decode_shamir_share_sync_job payload =
     (case read_string (reader payload) of
        Inl e \<Rightarrow> Inl e
      | Inr (sid, r1) \<Rightarrow>
     (case read_u8 r1 of
        Inl e \<Rightarrow> Inl e
      | Inr (pid, r2) \<Rightarrow>
     (case read_share r2 of
        Inl e \<Rightarrow> Inl e
      | Inr (sh, r3) \<Rightarrow>
          Inr \<lparr>ssj_subject_id = sid, ssj_participant_id = pid, ssj_share = sh\<rparr>)))"

definition encode_shamir_match_job :: "ShamirMatchJob \<Rightarrow> bytes Result" where
  "encode_shamir_match_job job =
     Inr (write_share (smj_probe_share job) (write_u8 (smj_participant_id job) []))"

definition decode_shamir_match_job :: "bytes \<Rightarrow> ShamirMatchJob Result" where
  "decode_shamir_match_job payload =
     (case read_u8 (reader payload) of
        Inl e \<Rightarrow> Inl e
      | Inr (pid, r1) \<Rightarrow>
     (case read_share r1 of
        Inl e \<Rightarrow> Inl e
      | Inr (sh, r2) \<Rightarrow> Inr \<lparr>smj_participant_id = pid, smj_probe_share = sh\<rparr>))"

definition write_row :: "ShamirMatchRow \<Rightarrow> bytes \<Rightarrow> bytes" where
  "write_row row buf = write_share (row_xor_share row) (write_string (row_subject_id row) buf)"

definition encode_shamir_match_response :: "ShamirMatchResponse \<Rightarrow> bytes Result" where
  "encode_shamir_match_response resp =
     Inr (fold write_row (smr_rows resp)
           (write_u32 (of_nat (length (smr_rows resp)))
             (write_u8 (smr_participant_id resp) [])))"

definition read_row :: "ByteReader2 \<Rightarrow> (ShamirMatchRow \<times> ByteReader2) Result" where
  "read_row r =
     (case read_string r of
        Inl e \<Rightarrow> Inl e
      | Inr (sid, r1) \<Rightarrow>
     (case read_share r1 of
        Inl e \<Rightarrow> Inl e
      | Inr (sh, r2) \<Rightarrow> Inr (\<lparr>row_subject_id = sid, row_xor_share = sh\<rparr>, r2)))"

text \<open>The loop \<^verbatim>\<open>for (uint32_t i = 0; i < count; ++i)\<close>.\<close>

fun read_rows :: "nat \<Rightarrow> ByteReader2 \<Rightarrow> (ShamirMatchRow list \<times> ByteReader2) Result" where
  "read_rows 0 r = Inr ([], r)"
| "read_rows (Suc n) r =
     (case read_row r of
        Inl e \<Rightarrow> Inl e
      | Inr (row, r1) \<Rightarrow>
          (case read_rows n r1 of
             Inl e \<Rightarrow> Inl e
           | Inr (rows, r2) \<Rightarrow> Inr (row # rows, r2)))"

definition decode_shamir_match_response :: "bytes \<Rightarrow> ShamirMatchResponse Result" where
  "decode_shamir_match_response payload =
     (case read_u8 (reader payload) of
        Inl e \<Rightarrow> Inl e
      | Inr (pid, r1) \<Rightarrow>
     (case read_u32 r1 of
        Inl e \<Rightarrow> Inl e
      | Inr (cnt, r2) \<Rightarrow>
     (case read_rows (unat cnt) r2 of
        Inl e \<Rightarrow> Inl e
      | Inr (rows, r3) \<Rightarrow> Inr \<lparr>smr_participant_id = pid, smr_rows = rows\<rparr>)))"

section \<open>Readers and the bytes in front of them\<close>

definition wf_reader :: "ByteReader2 \<Rightarrow> bool" where
  "wf_reader r = (rd_pos r \<le> length (rd_b r))"

definition adv :: "nat \<Rightarrow> ByteReader2 \<Rightarrow> ByteReader2" where
  "adv n r = r\<lparr>rd_pos := rd_pos r + n\<rparr>"

text \<open>\<open>has r bs\<close>: the next bytes in front of the reader are \<open>bs\<close>.\<close>

definition has :: "ByteReader2 \<Rightarrow> bytes \<Rightarrow> bool" where
  "has r bs = (\<exists>rest. drop (rd_pos r) (rd_b r) = bs @ rest)"

lemma has_Nil [simp]: "has r []"
  by (simp add: has_def)

lemma adv_0 [simp]: "adv 0 r = r"
  by (simp add: adv_def)

lemma adv_add: "adv (n + m) r = adv m (adv n r)"
  by (simp add: adv_def add.assoc)

lemma rd_b_adv [simp]: "rd_b (adv n r) = rd_b r"
  by (simp add: adv_def)

lemma rd_pos_adv [simp]: "rd_pos (adv n r) = rd_pos r + n"
  by (simp add: adv_def)

lemma has_append: "has r (as @ bs) \<longleftrightarrow> has r as \<and> has (adv (length as) r) bs"
proof
  assume "has r (as @ bs)"
  then obtain rest where *: "drop (rd_pos r) (rd_b r) = as @ bs @ rest"
    by (auto simp: has_def)
  then have "drop (rd_pos r + length as) (rd_b r) = bs @ rest"
    by (metis append_eq_conv_conj drop_drop add.commute)
  with * show "has r as \<and> has (adv (length as) r) bs" by (auto simp: has_def)
next
  assume "has r as \<and> has (adv (length as) r) bs"
  then obtain r1 r2 where 1: "drop (rd_pos r) (rd_b r) = as @ r1"
    and 2: "drop (rd_pos r + length as) (rd_b r) = bs @ r2"
    by (auto simp: has_def)
  from 1 have "drop (rd_pos r + length as) (rd_b r) = r1"
    by (metis append_eq_conv_conj drop_drop add.commute)
  with 1 2 show "has r (as @ bs)" by (auto simp: has_def)
qed

lemma has_length: "has r bs \<Longrightarrow> wf_reader r \<Longrightarrow> rd_pos r + length bs \<le> length (rd_b r)"
  by (auto simp: has_def wf_reader_def dest: arg_cong [where f = length])

lemma wf_reader_adv: "has r bs \<Longrightarrow> wf_reader r \<Longrightarrow> wf_reader (adv (length bs) r)"
  using has_length [of r bs] by (simp add: wf_reader_def)

lemma has_iff_take:
  "rd_pos r + n \<le> length (rd_b r) \<Longrightarrow> length bs = n \<Longrightarrow>
     has r bs \<longleftrightarrow> take n (drop (rd_pos r) (rd_b r)) = bs"
  by (auto simp: has_def) (metis append_take_drop_id)

lemma reader_facts [simp]:
  "wf_reader (reader b)" "has (reader (bs @ rest)) bs" "has (reader bs) bs"
  by (auto simp: wf_reader_def reader_def has_def)

lemma has_reader_iff: "has (reader b) bs \<longleftrightarrow> (\<exists>rest. b = bs @ rest)"
  by (simp add: has_def reader_def)

text \<open>A decoder is a chain of reads that stops at the first error.\<close>

lemma chain_Inr_iff:
  "(case m of Inl e \<Rightarrow> Inl e | Inr (x, r) \<Rightarrow> f x r) = Inr y \<longleftrightarrow>
     (\<exists>x r. m = Inr (x, r) \<and> f x r = Inr y)"
  by (auto split: sum.splits)

lemma chain_Inl_iff:
  "(case m of Inl e \<Rightarrow> Inl e | Inr (x, r) \<Rightarrow> f x r) = Inl e \<longleftrightarrow>
     m = Inl e \<or> (\<exists>x r. m = Inr (x, r) \<and> f x r = Inl e)"
  by (auto split: sum.splits)

section \<open>The contract of a field\<close>

locale byte_codec =
  fixes wr :: "'a \<Rightarrow> bytes \<Rightarrow> bytes"
    and rd :: "ByteReader2 \<Rightarrow> ('a \<times> ByteReader2) Result"
    and ok :: "'a \<Rightarrow> bool"
  assumes wr_append: "wr x buf = buf @ wr x []"
    and rd_iff: "wf_reader r \<Longrightarrow>
      rd r = Inr (x, r') \<longleftrightarrow> ok x \<and> has r (wr x []) \<and> r' = adv (length (wr x [])) r"
    and rd_error: "rd r = Inl e \<Longrightarrow> err_code e = ValidationFailed"
begin

lemma rd_wr:
  assumes "ok x" and "wf_reader r" and "has r (wr x [])"
  shows "rd r = Inr (x, adv (length (wr x [])) r)"
  using assms by (simp add: rd_iff)

lemma rd_wf: "rd r = Inr (x, r') \<Longrightarrow> wf_reader r \<Longrightarrow> wf_reader r'"
  by (simp add: rd_iff wf_reader_adv)

text \<open>A chain that starts with this field returns exactly when the field is in front of the
  reader and the rest of the chain returns behind it.\<close>

lemma chain_rd:
  assumes "wf_reader r"
  shows "(case rd r of Inl e \<Rightarrow> Inl e | Inr (x, r1) \<Rightarrow> f x r1) = Inr y \<longleftrightarrow>
    (\<exists>x. ok x \<and> has r (wr x []) \<and> wf_reader (adv (length (wr x [])) r) \<and>
      f x (adv (length (wr x [])) r) = Inr y)"
  using assms by (auto simp: chain_Inr_iff rd_iff wf_reader_adv)

lemma fold_wr: "fold wr xs buf = buf @ concat (map (\<lambda>x. wr x []) xs)"
proof (induction xs arbitrary: buf)
  case Nil
  then show ?case by simp
next
  case (Cons x xs)
  have "fold wr (x # xs) buf = fold wr xs (buf @ wr x [])" by (simp flip: wr_append)
  also have "\<dots> = (buf @ wr x []) @ concat (map (\<lambda>x. wr x []) xs)" by (rule Cons.IH)
  finally show ?case by simp
qed

end

text \<open>A counted sequence of fields, read by a loop that stops at the first error.\<close>

locale byte_codec_seq = byte_codec +
  fixes rds :: "nat \<Rightarrow> ByteReader2 \<Rightarrow> ('a list \<times> ByteReader2) Result"
  assumes rds_0: "rds 0 r = Inr ([], r)"
    and rds_Suc: "rds (Suc n) r =
      (case rd r of
         Inl e \<Rightarrow> Inl e
       | Inr (x, r1) \<Rightarrow> (case rds n r1 of Inl e \<Rightarrow> Inl e | Inr (xs, r2) \<Rightarrow> Inr (x # xs, r2)))"
begin

lemma rds_iff:
  assumes "wf_reader r"
  shows "rds n r = Inr (xs, r') \<longleftrightarrow>
    length xs = n \<and> list_all ok xs \<and> has r (fold wr xs []) \<and> r' = adv (length (fold wr xs [])) r"
  using assms
proof (induction n arbitrary: r xs)
  case 0
  then show ?case by (auto simp: rds_0)
next
  case (Suc n)
  show ?case
  proof (cases xs)
    case Nil
    then show ?thesis by (auto simp: rds_Suc chain_Inr_iff)
  next
    case (Cons y ys)
    have step: "rds (Suc n) r = Inr (y # ys, r') \<longleftrightarrow>
        ok y \<and> has r (wr y []) \<and> rds n (adv (length (wr y [])) r) = Inr (ys, r')"
      using Suc.prems by (simp add: rds_Suc chain_Inr_iff rd_iff)
    show ?thesis
    proof (cases "has r (wr y [])")
      case True
      with Suc.prems have "wf_reader (adv (length (wr y [])) r)" by (simp add: wf_reader_adv)
      from Suc.IH [OF this, of ys] True show ?thesis
        by (auto simp: Cons step fold_wr has_append adv_add)
    next
      case False
      then show ?thesis by (simp add: Cons step fold_wr has_append)
    qed
  qed
qed

lemma chain_rds:
  assumes "wf_reader r"
  shows "(case rds n r of Inl e \<Rightarrow> Inl e | Inr (xs, r1) \<Rightarrow> f xs r1) = Inr y \<longleftrightarrow>
    (\<exists>xs. length xs = n \<and> list_all ok xs \<and> has r (fold wr xs []) \<and>
      wf_reader (adv (length (fold wr xs [])) r) \<and> f xs (adv (length (fold wr xs [])) r) = Inr y)"
  using assms by (auto simp: chain_Inr_iff rds_iff wf_reader_adv)

lemma rds_error: "rds n r = Inl e \<Longrightarrow> err_code e = ValidationFailed"
  by (induction n arbitrary: r) (auto simp: rds_0 rds_Suc chain_Inl_iff dest: rd_error)

end

section \<open>The fields of the wire format\<close>

lemma write_u32_le: "write_u32 v [] = le_bytes 4 v"
  by (simp add: write_u32_def le_bytes_def upt_rec)

lemma write_u64_le: "write_u64 v buf = buf @ le_bytes 8 v"
  by (simp add: write_u64_def le_bytes_def upt_rec)

lemma le_loop:
  assumes "rd_pos r + n \<le> length (rd_b r)"
  shows "fold (\<lambda>i v. v OR push_bit (8 * i) (ucast (rd_b r ! (rd_pos r + i)))) [0..<n] 0
    = le_word (take n (drop (rd_pos r) (rd_b r)))"
proof -
  let ?bs = "take n (drop (rd_pos r) (rd_b r))"
  have "length ?bs = n" using assms by simp
  then show ?thesis
    unfolding le_word_def by (intro fold_cong) (use assms in auto)
qed

lemma le_read_iff:
  assumes "rd_pos r + n \<le> length (rd_b r)" and "LENGTH('a::len) = 8 * n"
  shows "le_word (take n (drop (rd_pos r) (rd_b r))) = (v :: 'a word) \<longleftrightarrow> has r (le_bytes n v)"
proof -
  let ?bs = "take n (drop (rd_pos r) (rd_b r))"
  have len: "length ?bs = n" using assms by simp
  have "le_word ?bs = v \<longleftrightarrow> ?bs = le_bytes n v"
    using le_bytes_le_word [of ?bs, where 'a = 'a] le_word_le_bytes [of n v] len assms by auto
  then show ?thesis using assms by (auto simp: has_iff_take)
qed

lemma has_short: "wf_reader r \<Longrightarrow> length (rd_b r) < rd_pos r + length bs \<Longrightarrow> \<not> has r bs"
  using has_length [of r bs] by auto

interpretation u8_codec: byte_codec write_u8 read_u8 "\<lambda>_. True"
proof
  fix r x r' assume "wf_reader r"
  then show "read_u8 r = Inr (x, r') \<longleftrightarrow>
      True \<and> has r (write_u8 x []) \<and> r' = adv (length (write_u8 x [])) r"
    using has_iff_take [of r 1 "[x]"] has_short [of r "[x]"]
    by (auto simp: read_u8_def write_u8_def adv_def take_Suc_conv_app_nth)
qed (auto simp: write_u8_def read_u8_def make_error_def split: if_splits)

interpretation u32_codec: byte_codec write_u32 read_u32 "\<lambda>_. True"
proof
  fix r x r' assume wf: "wf_reader r"
  show "read_u32 r = Inr (x, r') \<longleftrightarrow>
      True \<and> has r (write_u32 x []) \<and> r' = adv (length (write_u32 x [])) r"
  proof (cases "rd_pos r + 4 \<le> length (rd_b r)")
    case True
    then show ?thesis using le_read_iff [of r 4 x]
      by (auto simp: read_u32_def write_u32_le adv_def le_loop)
  next
    case False
    with wf show ?thesis by (simp add: read_u32_def write_u32_le has_short)
  qed
qed (auto simp: write_u32_def read_u32_def make_error_def split: if_splits)

interpretation u64_codec: byte_codec_seq write_u64 read_u64 "\<lambda>_. True" read_words
proof
  fix r x r' assume wf: "wf_reader r"
  show "read_u64 r = Inr (x, r') \<longleftrightarrow>
      True \<and> has r (write_u64 x []) \<and> r' = adv (length (write_u64 x [])) r"
  proof (cases "rd_pos r + 8 \<le> length (rd_b r)")
    case True
    then show ?thesis using le_read_iff [of r 8 x]
      by (auto simp: read_u64_def write_u64_le adv_def le_loop)
  next
    case False
    with wf show ?thesis by (simp add: read_u64_def write_u64_le has_short)
  qed
qed (auto simp: write_u64_le read_u64_def make_error_def split: if_splits)

lemma read_string_iff:
  assumes wf: "wf_reader r"
  shows "read_string r = Inr (s, r') \<longleftrightarrow>
    wf_string s \<and> has r (write_string s []) \<and> r' = adv (length (write_string s [])) r"
proof -
  have field: "(rd_pos r1 + unat len \<le> length (rd_b r1) \<and>
        s = string_of_bytes (take (unat len) (drop (rd_pos r1) (rd_b r1)))) \<longleftrightarrow>
      unat len = length s \<and> has r1 (bytes_of_string s)"
    if "wf_reader r1" for r1 and len :: u32
    using that has_iff_take [of r1 "length s" "bytes_of_string s"] has_length [of r1 "bytes_of_string s"]
    by (auto simp flip: bytes_of_string_of_bytes)
  have len: "(len = (of_nat (length s) :: u32) \<and> wf_string s) \<longleftrightarrow> unat len = length s" for len :: u32
    using unsigned_less [of len, where ?'a = nat]
    by (auto simp: wf_string_def unat_of_nat word_unat_eq_iff)
  have "read_string r = Inr (s, r') \<longleftrightarrow>
      (\<exists>len. has r (write_u32 len []) \<and> wf_reader (adv 4 r) \<and>
        (rd_pos (adv 4 r) + unat len \<le> length (rd_b (adv 4 r)) \<and>
         s = string_of_bytes (take (unat len) (drop (rd_pos (adv 4 r)) (rd_b (adv 4 r))))) \<and>
        r' = adv (unat len) (adv 4 r))"
    unfolding read_string_def u32_codec.chain_rd [OF wf]
    by (auto simp: write_u32_le not_less adv_def make_error_def split: if_splits)
  also have "\<dots> \<longleftrightarrow> (\<exists>len. has r (write_u32 len []) \<and> wf_reader (adv 4 r) \<and>
        (unat len = length s \<and> has (adv 4 r) (bytes_of_string s)) \<and> r' = adv (unat len) (adv 4 r))"
    by (intro ex_cong1 conj_cong refl field)
  also have "\<dots> \<longleftrightarrow> wf_string s \<and> has r (write_string s []) \<and> r' = adv (length (write_string s [])) r"
    using wf_reader_adv [OF _ wf, of "write_u32 (of_nat (length s)) []"]
    by (auto simp: write_string_def has_append len [symmetric] write_u32_le adv_add wf_string_def
        unat_of_nat)
  finally show ?thesis .
qed

interpretation string_codec: byte_codec write_string read_string wf_string
proof
  show "write_string x buf = buf @ write_string x []" for x buf
    by (simp add: write_string_def write_u32_def)
  show "err_code e = ValidationFailed" if "read_string r = Inl e" for r e
    using that by (auto simp: read_string_def chain_Inl_iff make_error_def
        dest: u32_codec.rd_error split: if_splits)
qed (rule read_string_iff)

lemma read_share_iff:
  assumes wf: "wf_reader r"
  shows "read_share r = Inr (sh, r') \<longleftrightarrow>
    wf_share sh \<and> has r (write_share sh []) \<and> r' = adv (length (write_share sh [])) r"
proof -
  let ?a = "write_u8 (party_id sh) []" and ?b = "write_u64 (x_coord sh) []"
  let ?c = "fold write_u64 (code_share sh) []" and ?d = "fold write_u64 (mask_share sh) []"
  have enc: "write_share sh [] = ?a @ ?b @ ?c @ ?d"
    by (simp add: write_share_def u64_codec.fold_wr write_u64_le)
  show ?thesis
    unfolding read_share_def enc has_append
    by (cases sh)
      (auto simp: u8_codec.chain_rd u64_codec.chain_rd u64_codec.chain_rds wf wf_share_def list_all_iff
        wf_reader_adv adv_add cong: conj_cong)
qed

interpretation share_codec: byte_codec write_share read_share wf_share
proof
  show "write_share x buf = buf @ write_share x []" for x buf
    by (simp add: write_share_def u64_codec.fold_wr write_u64_le write_u8_def)
  show "err_code e = ValidationFailed" if "read_share r = Inl e" for r e
    using that by (auto simp: read_share_def chain_Inl_iff
        dest: u8_codec.rd_error u64_codec.rd_error u64_codec.rds_error)
qed (rule read_share_iff)

definition wf_row :: "ShamirMatchRow \<Rightarrow> bool" where
  "wf_row row = (wf_string (row_subject_id row) \<and> wf_share (row_xor_share row))"

lemma write_row_Nil:
  "write_row row [] = write_string (row_subject_id row) [] @ write_share (row_xor_share row) []"
  unfolding write_row_def by (rule share_codec.wr_append)

interpretation row_codec: byte_codec_seq write_row read_row wf_row read_rows
proof
  show "write_row x buf = buf @ write_row x []" for x buf
    by (metis append_assoc share_codec.wr_append string_codec.wr_append write_row_Nil write_row_def)
  show "read_row r = Inr (x, r') \<longleftrightarrow>
      wf_row x \<and> has r (write_row x []) \<and> r' = adv (length (write_row x [])) r"
    if "wf_reader r" for r x r'
    using that by (cases x)
      (auto simp: read_row_def string_codec.chain_rd share_codec.chain_rd wf_row_def
        write_row_Nil has_append wf_reader_adv adv_add cong: conj_cong)
  show "err_code e = ValidationFailed" if "read_row r = Inl e" for r e
    using that by (auto simp: read_row_def chain_Inl_iff
        dest: string_codec.rd_error share_codec.rd_error)
qed simp_all

section \<open>The messages\<close>

definition wf_sync_job :: "ShamirShareSyncJob \<Rightarrow> bool" where
  "wf_sync_job job = (wf_string (ssj_subject_id job) \<and> wf_share (ssj_share job))"

definition wf_match_job :: "ShamirMatchJob \<Rightarrow> bool" where
  "wf_match_job job = wf_share (smj_probe_share job)"

definition wf_match_response :: "ShamirMatchResponse \<Rightarrow> bool" where
  "wf_match_response resp = (length (smr_rows resp) < 2 ^ 32 \<and> list_all wf_row (smr_rows resp))"

text \<open>Each decoder accepts exactly the payloads that begin with an encoding, and returns what
  was encoded.\<close>

lemma decode_sync_job_iff:
  "decode_shamir_share_sync_job p = Inr job \<longleftrightarrow>
     wf_sync_job job \<and> (\<exists>q rest. encode_shamir_share_sync_job job = Inr q \<and> p = q @ rest)"
proof -
  have enc: "write_share sh (write_u8 i (write_string s [])) =
      write_string s [] @ write_u8 i [] @ write_share sh []" for sh i s
    by (metis append_assoc share_codec.wr_append u8_codec.wr_append)
  show ?thesis
    unfolding decode_shamir_share_sync_job_def encode_shamir_share_sync_job_def enc
    by (cases job)
      (auto simp: string_codec.chain_rd u8_codec.chain_rd share_codec.chain_rd wf_sync_job_def
        wf_reader_adv has_append simp flip: has_reader_iff cong: conj_cong)
qed

lemma decode_match_job_iff:
  "decode_shamir_match_job p = Inr job \<longleftrightarrow>
     wf_match_job job \<and> (\<exists>q rest. encode_shamir_match_job job = Inr q \<and> p = q @ rest)"
proof -
  have enc: "write_share sh (write_u8 i []) = write_u8 i [] @ write_share sh []" for sh i
    by (rule share_codec.wr_append)
  show ?thesis
    unfolding decode_shamir_match_job_def encode_shamir_match_job_def enc
    by (cases job)
      (auto simp: u8_codec.chain_rd share_codec.chain_rd wf_match_job_def
        wf_reader_adv has_append simp flip: has_reader_iff cong: conj_cong)
qed

lemma decode_match_response_iff:
  "decode_shamir_match_response p = Inr resp \<longleftrightarrow>
     wf_match_response resp \<and> (\<exists>q rest. encode_shamir_match_response resp = Inr q \<and> p = q @ rest)"
proof -
  have enc: "fold write_row rows (write_u32 n (write_u8 i [])) =
      write_u8 i [] @ write_u32 n [] @ fold write_row rows []" for rows n i
    by (metis append_assoc append_Nil row_codec.fold_wr u32_codec.wr_append)
  have cnt: "length rows = unat n \<longleftrightarrow> length rows < 2 ^ 32 \<and> n = (of_nat (length rows) :: u32)"
    for n and rows :: "ShamirMatchRow list"
    using unsigned_less [of n, where ?'a = nat] by (auto simp: unat_of_nat word_unat_eq_iff)
  show ?thesis
    unfolding decode_shamir_match_response_def encode_shamir_match_response_def enc
    by (cases resp)
      (auto simp: u8_codec.chain_rd u32_codec.chain_rd row_codec.chain_rds wf_match_response_def
        wf_reader_adv has_append cnt simp flip: has_reader_iff cong: conj_cong)
qed

lemma decode_errors:
  "decode_shamir_share_sync_job p = Inl e \<Longrightarrow> err_code e = ValidationFailed"
  "decode_shamir_match_job p = Inl e \<Longrightarrow> err_code e = ValidationFailed"
  "decode_shamir_match_response p = Inl e \<Longrightarrow> err_code e = ValidationFailed"
  by (auto simp: decode_shamir_share_sync_job_def decode_shamir_match_job_def
      decode_shamir_match_response_def chain_Inl_iff
      dest: string_codec.rd_error u8_codec.rd_error u32_codec.rd_error share_codec.rd_error
        row_codec.rds_error)

text \<open>A decoder that accepts exactly the payloads that begin with an encoding rejects every
  proper prefix of an encoding: a shorter accepted message would be a second reading of the
  whole one.\<close>

lemma exact_decoder_rejects_prefix:
  assumes exact: "\<And>p x. dec p = Inr x \<longleftrightarrow> ok x \<and> (\<exists>rest. p = enc x @ rest)"
    and "ok x" and "k < length (enc x)"
  shows "\<exists>e. dec (take k (enc x)) = Inl e"
proof (cases "dec (take k (enc x))")
  case (Inr y)
  then obtain rest where y: "ok y" "take k (enc x) = enc y @ rest"
    using exact [of "take k (enc x)" y] by auto
  then have "enc x = enc y @ rest @ drop k (enc x)"
    by (metis append_assoc append_take_drop_id)
  then have "dec (enc x) = Inr y" using y exact by metis
  moreover have "dec (enc x) = Inr x" using exact \<open>ok x\<close> by (metis append_Nil2)
  ultimately have "length (enc y) = length (enc x)" by simp
  moreover have "length (enc y) \<le> k" using y(2) by (metis length_append length_take le_add1 min.boundedE)
  ultimately show ?thesis using \<open>k < length (enc x)\<close> by simp
qed simp

lemma length_write_share:
  "length (write_share sh buf) =
     length buf + 9 + 8 * length (code_share sh) + 8 * length (mask_share sh)"
proof -
  have words: "length (concat (map (\<lambda>w. write_u64 w []) ws)) = 8 * length ws" for ws
    by (induction ws) (simp_all add: write_u64_le)
  show ?thesis
    by (simp add: write_share_def u64_codec.fold_wr write_u64_le [of "x_coord sh"] write_u8_def words)
qed

lemma write_share_not_Nil [simp]: "write_share sh buf \<noteq> []"
  using length_write_share [of sh buf] by auto

section \<open>Properties of the codec\<close>

text \<open>
  C12. Decoding an encoded message returns the message, for each of the three message kinds,
  whatever bytes follow it in the payload: share synchronisation, match request and match
  response with any number of rows.
\<close>

theorem shamir_codec_roundtrip:
  assumes "wf_sync_job job" and "wf_match_job req" and "wf_match_response resp"
  shows "(\<exists>q. encode_shamir_share_sync_job job = Inr q \<and>
            decode_shamir_share_sync_job (q @ rest) = Inr job) \<and>
         (\<exists>q. encode_shamir_match_job req = Inr q \<and>
            decode_shamir_match_job (q @ rest) = Inr req) \<and>
         (\<exists>q. encode_shamir_match_response resp = Inr q \<and>
            decode_shamir_match_response (q @ rest) = Inr resp)"
  using assms
  by (auto simp: decode_sync_job_iff decode_match_job_iff decode_match_response_iff
      encode_shamir_share_sync_job_def encode_shamir_match_job_def encode_shamir_match_response_def)

definition sample_share :: "u8 \<Rightarrow> ShamirShare" where
  "sample_share i = \<lparr>party_id = i, x_coord = ucast i, code_share = replicate 128 0xAB,
     mask_share = replicate 128 0xFFFFFFFFFFFFFFFF\<rparr>"

theorem shamir_codec_roundtrip_witness:
  "(\<exists>q. encode_shamir_match_response
       \<lparr>smr_participant_id = 3, smr_rows =
          [\<lparr>row_subject_id = ''alice'', row_xor_share = sample_share 3\<rparr>]\<rparr> = Inr q \<and>
     decode_shamir_match_response (q @ [0]) = Inr
       \<lparr>smr_participant_id = 3, smr_rows =
          [\<lparr>row_subject_id = ''alice'', row_xor_share = sample_share 3\<rparr>]\<rparr>)"
proof -
  let ?job = "\<lparr>ssj_subject_id = ''alice'', ssj_participant_id = 3, ssj_share = sample_share 3\<rparr>"
  let ?req = "\<lparr>smj_participant_id = 3, smj_probe_share = sample_share 3\<rparr>"
  let ?resp = "\<lparr>smr_participant_id = 3, smr_rows =
    [\<lparr>row_subject_id = ''alice'', row_xor_share = sample_share 3\<rparr>]\<rparr>"
  have "wf_sync_job ?job" "wf_match_job ?req" "wf_match_response ?resp"
    by (simp_all add: wf_sync_job_def wf_match_job_def wf_match_response_def wf_row_def
        wf_string_def wf_share_def sample_share_def)
  from shamir_codec_roundtrip [OF this, of "[0]"] show ?thesis by blast
qed



text \<open>
  A truncated payload is rejected: every proper prefix of an encoded message of any of
  the three kinds makes its decoder return \<open>ValidationFailed\<close>, so no reader runs past the
  end of the payload and no shorter message is returned.
\<close>

theorem shamir_codec_truncated:
  assumes "wf_sync_job job" and "wf_match_job req" and "wf_match_response resp"
    and "encode_shamir_share_sync_job job = Inr p" and "i < length p"
    and "encode_shamir_match_job req = Inr q" and "j < length q"
    and "encode_shamir_match_response resp = Inr r" and "k < length r"
  shows "(\<exists>e. decode_shamir_share_sync_job (take i p) = Inl e \<and> err_code e = ValidationFailed) \<and>
         (\<exists>e. decode_shamir_match_job (take j q) = Inl e \<and> err_code e = ValidationFailed) \<and>
         (\<exists>e. decode_shamir_match_response (take k r) = Inl e \<and> err_code e = ValidationFailed)"
proof -
  note enc = encode_shamir_share_sync_job_def encode_shamir_match_job_def
    encode_shamir_match_response_def
  note iffs = decode_sync_job_iff decode_match_job_iff decode_match_response_iff
  have "\<exists>e. decode_shamir_share_sync_job (take i p) = Inl e"
    using exact_decoder_rejects_prefix [of decode_shamir_share_sync_job wf_sync_job
        "\<lambda>j. projr (encode_shamir_share_sync_job j)" job i] assms by (simp add: iffs enc)
  moreover have "\<exists>e. decode_shamir_match_job (take j q) = Inl e"
    using exact_decoder_rejects_prefix [of decode_shamir_match_job wf_match_job
        "\<lambda>j. projr (encode_shamir_match_job j)" req j] assms by (simp add: iffs enc)
  moreover have "\<exists>e. decode_shamir_match_response (take k r) = Inl e"
    using exact_decoder_rejects_prefix [of decode_shamir_match_response wf_match_response
        "\<lambda>j. projr (encode_shamir_match_response j)" resp k] assms by (simp add: iffs enc)
  ultimately show ?thesis using decode_errors by blast
qed

theorem shamir_codec_truncated_witness:
  "\<exists>q. encode_shamir_match_job \<lparr>smj_participant_id = 3, smj_probe_share = sample_share 3\<rparr> = Inr q \<and>
     length q = 2058 \<and>
     (\<exists>e. decode_shamir_match_job (take 2057 q) = Inl e \<and> err_code e = ValidationFailed)"
proof -
  let ?job = "\<lparr>ssj_subject_id = [], ssj_participant_id = 3, ssj_share = sample_share 3\<rparr>"
  let ?req = "\<lparr>smj_participant_id = 3, smj_probe_share = sample_share 3\<rparr>"
  let ?resp = "\<lparr>smr_participant_id = 3, smr_rows = []\<rparr>"
  obtain p q r where pqr: "encode_shamir_share_sync_job ?job = Inr p"
    "encode_shamir_match_job ?req = Inr q" "encode_shamir_match_response ?resp = Inr r"
    by (simp add: encode_shamir_share_sync_job_def encode_shamir_match_job_def
        encode_shamir_match_response_def)
  then have len: "0 < length p" "length q = 2058" "0 < length r"
    by (auto simp: encode_shamir_share_sync_job_def encode_shamir_match_job_def
        encode_shamir_match_response_def length_write_share write_u8_def
        write_u32_def sample_share_def)
  have "wf_sync_job ?job" "wf_match_job ?req" "wf_match_response ?resp"
    by (simp_all add: wf_sync_job_def wf_match_job_def wf_match_response_def
        wf_string_def wf_share_def sample_share_def)
  from shamir_codec_truncated [OF this pqr(1) len(1) pqr(2) _ pqr(3) len(3), of 2057] pqr len
  show ?thesis by auto
qed

end
