(* ===== verification/Base64.thy ===== *)
theory Base64
  imports EyeD_Prelude
begin

text \<open>
  The three base64 routines of the services: the encoder of the gateway
  (\<^verbatim>\<open>gateway/src/grpc_server.cpp\<close>), the decoder of the storage service
  (\<^verbatim>\<open>storage/src/archive_handler.cpp\<close>) and the encoder and decoder of the key service
  (\<^verbatim>\<open>key-service/src/handlers.cpp\<close>). A frame or ciphertext crosses service boundaries
  through them, so they are proved inverse to each other across the services.
\<close>

section \<open>The gateway's encoder\<close>

definition base64_chars :: string where
  "base64_chars = ''ABCDEFGHIJKLMNOPQRSTUVWXYZabcdefghijklmnopqrstuvwxyz0123456789+/''"

text \<open>\<open>base64_chars[k]\<close> for the byte-sized index \<open>k\<close>.\<close>

definition b64char :: "byte \<Rightarrow> char" where
  "b64char k = base64_chars ! unat k"

text \<open>The four sextets the encoder computes from \<^verbatim>\<open>char_array_3\<close>.\<close>

definition char_array_4 :: "bytes \<Rightarrow> bytes" where
  "char_array_4 a =
     [drop_bit 2 (a ! 0 AND 0xfc),
      push_bit 4 (a ! 0 AND 0x03) + drop_bit 4 (a ! 1 AND 0xf0),
      push_bit 2 (a ! 1 AND 0x0f) + drop_bit 6 (a ! 2 AND 0xc0),
      a ! 2 AND 0x3f]"

text \<open>
  The main loop: \<open>i\<close> bytes are pending in the array; the third one flushes four characters.
\<close>

fun encode_loop :: "bytes \<Rightarrow> nat \<Rightarrow> bytes \<Rightarrow> string \<Rightarrow> nat \<times> bytes \<times> string" where
  "encode_loop [] i a3 ret = (i, a3, ret)"
| "encode_loop (b # bs) i a3 ret =
     (let a3 = a3[i := b]; i = i + 1
      in if i = 3 then encode_loop bs 0 a3 (ret @ map b64char (char_array_4 a3))
         else encode_loop bs i a3 ret)"

text \<open>
  After the loop the pending bytes are padded with zeros, \<open>i + 1\<close> characters are written and
  \<open>3 - i\<close> signs \<open>=\<close> follow. The array is uninitialised in the source: its entries are
  written before they are read, and the encoder's value does not depend on them.
\<close>

definition base64_encode_from :: "bytes \<Rightarrow> string \<Rightarrow> string" where
  "base64_encode_from uninit input =
     (let (i, a3, ret) = encode_loop (bytes_of_string input) 0 uninit []
      in if i = 0 then ret
         else let a3 = fold (\<lambda>j a. a[j := 0]) [i..<3] a3
              in ret @ map b64char (take (i + 1) (char_array_4 a3)) @ replicate (3 - i) CHR ''='')"

definition base64_encode :: "string \<Rightarrow> string" where
  "base64_encode input = base64_encode_from [0, 0, 0] input"

section \<open>The storage service's decoder\<close>

definition kBase64Table :: "nat \<Rightarrow> int" where
  "kBase64Table =
     (fold (\<lambda>i t. t(48 + i := 52 + int i)) [0..<10]
       (fold (\<lambda>i t. t(65 + i := int i, 97 + i := 26 + int i)) [0..<26] (\<lambda>_. - 1)))
     (43 := 62, 47 := 63)"

text \<open>
  \<open>decode_loop\<close> carries \<^verbatim>\<open>buf\<close>, \<^verbatim>\<open>bits\<close> and the output; an invalid character makes the whole
  function return the empty vector, the padding character ends the loop.
\<close>

fun decode_loop :: "string \<Rightarrow> u32 \<Rightarrow> nat \<Rightarrow> bytes \<Rightarrow> bytes" where
  "decode_loop [] buf bits out = out"
| "decode_loop (c # cs) buf bits out =
     (if c = CHR 0x0D \<or> c = CHR 0x0A \<or> c = CHR '' '' then decode_loop cs buf bits out
      else if c = CHR ''='' then out
      else let val = kBase64Table (of_char c)
           in if val < 0 then []
              else let buf = push_bit 6 buf OR of_int val; bits = bits + 6
                   in if bits \<ge> 8
                      then decode_loop cs buf (bits - 8) (out @ [ucast (drop_bit (bits - 8) buf AND 0xFF)])
                      else decode_loop cs buf bits out)"

definition base64_decode :: "string \<Rightarrow> bytes" where
  "base64_decode encoded = (if encoded = [] then [] else decode_loop encoded 0 0 [])"

section \<open>The key service's routines\<close>

text \<open>
  \<^verbatim>\<open>val\<close> is an \<open>int\<close> whose high bits are shifted out, kept here as a 32-bit word; the signed
  \<^verbatim>\<open>>>\<close> is the arithmetic shift.
\<close>

definition kBase64Chars :: string where
  "kBase64Chars = ''ABCDEFGHIJKLMNOPQRSTUVWXYZabcdefghijklmnopqrstuvwxyz0123456789+/''"

fun find_from :: "nat \<Rightarrow> string \<Rightarrow> char \<Rightarrow> nat option" where
  "find_from n [] c = None"
| "find_from n (x # xs) c = (if x = c then Some n else find_from (Suc n) xs c)"

fun Base64Decode_loop :: "string \<Rightarrow> u32 \<Rightarrow> int \<Rightarrow> bytes \<Rightarrow> bytes" where
  "Base64Decode_loop [] val bits result = result"
| "Base64Decode_loop (c # cs) val bits result =
     (if c = CHR ''='' \<or> c = CHR 0x0A \<or> c = CHR 0x0D then Base64Decode_loop cs val bits result
      else case find_from 0 kBase64Chars c of
             None \<Rightarrow> Base64Decode_loop cs val bits result
           | Some pos \<Rightarrow>
               (let val = push_bit 6 val + of_nat pos; bits = bits + 6
                in if bits \<ge> 0
                   then Base64Decode_loop cs val (bits - 8)
                          (result @ [ucast (signed_drop_bit (nat bits) val AND 0xFF)])
                   else Base64Decode_loop cs val bits result))"

definition Base64Decode :: "string \<Rightarrow> bytes" where
  "Base64Decode encoded = Base64Decode_loop encoded 0 (- 8) []"

function flush_sextets :: "u32 \<Rightarrow> int \<Rightarrow> string \<Rightarrow> int \<times> string" where
  "flush_sextets val bits result =
     (if bits \<ge> 0
      then flush_sextets val (bits - 6)
             (result @ [kBase64Chars ! unat (signed_drop_bit (nat bits) val AND 0x3F)])
      else (bits, result))"
  by auto
termination by (relation "measure (\<lambda>(_, bits, _). nat (bits + 6))") auto

declare flush_sextets.simps [simp del]

fun Base64Encode_loop :: "bytes \<Rightarrow> u32 \<Rightarrow> int \<Rightarrow> string \<Rightarrow> u32 \<times> int \<times> string" where
  "Base64Encode_loop [] val bits result = (val, bits, result)"
| "Base64Encode_loop (c # cs) val bits result =
     (let val = push_bit 8 val + ucast c; (bits, result) = flush_sextets val (bits + 8) result
      in Base64Encode_loop cs val bits result)"

text \<open>The closing loop appends \<open>=\<close> until the length is a multiple of four.\<close>

function pad4 :: "string \<Rightarrow> string" where
  "pad4 s = (if length s mod 4 \<noteq> 0 then pad4 (s @ [CHR ''='']) else s)"
  by auto
termination
proof (relation "measure (\<lambda>s :: string. (4 - length s mod 4) mod 4)")
  fix s :: string assume "length s mod 4 \<noteq> 0"
  then show "(s @ [CHR ''=''], s) \<in> measure (\<lambda>s. (4 - length s mod 4) mod 4)"
    using mod_less_divisor [of 4 "length s"] by (auto simp: mod_Suc)
qed simp

declare pad4.simps [simp del]

definition Base64Encode :: "bytes \<Rightarrow> string" where
  "Base64Encode data =
     (let (val, bits, result) = Base64Encode_loop data 0 (- 6) [];
          result = (if bits > - 6
                    then result @ [kBase64Chars ! unat (push_bit (nat (- bits)) val AND 0x3F)]
                    else result)
      in pad4 result)"

section \<open>Reference encoding\<close>

text \<open>The sextets of one, two or three bytes.\<close>

definition sx0 :: "byte \<Rightarrow> byte" where "sx0 a = drop_bit 2 (a AND 0xfc)"
definition sx1 :: "byte \<Rightarrow> byte \<Rightarrow> byte" where
  "sx1 a b = push_bit 4 (a AND 0x03) + drop_bit 4 (b AND 0xf0)"
definition sx2 :: "byte \<Rightarrow> byte \<Rightarrow> byte" where
  "sx2 b c = push_bit 2 (b AND 0x0f) + drop_bit 6 (c AND 0xc0)"
definition sx3 :: "byte \<Rightarrow> byte" where "sx3 c = c AND 0x3f"

fun b64_ref :: "bytes \<Rightarrow> string" where
  "b64_ref [] = []"
| "b64_ref [a] = [b64char (sx0 a), b64char (sx1 a 0), CHR ''='', CHR ''='']"
| "b64_ref [a, b] = [b64char (sx0 a), b64char (sx1 a b), b64char (sx2 b 0), CHR ''='']"
| "b64_ref (a # b # c # bs) =
     b64char (sx0 a) # b64char (sx1 a b) # b64char (sx2 b c) # b64char (sx3 c) # b64_ref bs"

lemma less_8_cases: "n < 8 \<longleftrightarrow> n = 0 \<or> n = 1 \<or> n = 2 \<or> n = 3 \<or> n = 4 \<or> n = 5 \<or> n = 6 \<or> n = (7::nat)"
  by presburger

lemma add_or_disjoint: "(\<And>n. bit x n \<Longrightarrow> \<not> bit y n) \<Longrightarrow> x + y = x OR (y :: 'a::len word)"
  by (rule disjunctive_add) blast

lemma bit_sx0: "bit (sx0 a) n \<longleftrightarrow> n < 6 \<and> bit a (n + 2)"
  by (cases "n < 8") (auto simp: sx0_def less_8_cases bit_simps add.commute dest: bit_imp_le_length)

lemma sx1_or: "sx1 a b = push_bit 4 (a AND 0x03) OR drop_bit 4 (b AND 0xf0)"
  unfolding sx1_def by (rule add_or_disjoint) (auto simp: bit_simps dest: bit_imp_le_length)

lemma bit_sx1: "bit (sx1 a b) n \<longleftrightarrow> n < 4 \<and> bit b (n + 4) \<or> 4 \<le> n \<and> n < 6 \<and> bit a (n - 4)"
  by (cases "n < 8") (auto simp: sx1_or less_8_cases bit_simps dest: bit_imp_le_length)

lemma bit_sx3: "bit (sx3 c) n \<longleftrightarrow> n < 6 \<and> bit c n"
  by (cases "n < 8") (auto simp: sx3_def less_8_cases bit_simps dest: bit_imp_le_length)

lemma sx2_or: "sx2 a b = push_bit 2 (a AND 0x0f) OR drop_bit 6 (b AND 0xc0)"
  unfolding sx2_def by (rule add_or_disjoint) (auto simp: bit_simps dest: bit_imp_le_length)

lemma bit_sx2: "bit (sx2 b c) n \<longleftrightarrow> n < 2 \<and> bit c (n + 6) \<or> 2 \<le> n \<and> n < 6 \<and> bit b (n - 2)"
  by (cases "n < 8") (auto simp: sx2_or less_8_cases bit_simps dest: bit_imp_le_length)

lemmas bit_sextets = bit_sx0 bit_sx1 bit_sx2 bit_sx3

lemma sextet_bound:
  assumes "\<And>n. bit k n \<Longrightarrow> n < 6"
  shows "unat (k :: byte) < 64"
proof -
  have "take_bit 6 k = k" using assms by (auto intro!: bit_word_eqI simp: bit_simps)
  then have "unat k = unat (take_bit 6 k)" by simp
  also have "\<dots> < 2 ^ 6" by (simp only: unsigned_take_bit_eq take_bit_nat_less_exp)
  finally show ?thesis by simp
qed

lemma sextets_bound [simp]:
  "unat (sx0 a) < 64" "unat (sx1 a b) < 64" "unat (sx2 b c) < 64" "unat (sx3 c) < 64"
  by (rule sextet_bound, auto simp: bit_sextets)+

section \<open>The alphabet\<close>

lemma fold_upd_at:
  "fold (\<lambda>i t. t(a + i := f i)) [0..<n] t k = (if a \<le> k \<and> k < a + n then f (k - a) else t (k :: nat))"
  by (induction n) auto

lemma fold_upd2_at:
  assumes "a + n \<le> b"
  shows "fold (\<lambda>i t. t(a + i := f i, b + i := g i)) [0..<n] t k =
    (if a \<le> k \<and> k < a + n then f (k - a) else if b \<le> k \<and> k < b + n then g (k - b) else t (k :: nat))"
  using assms by (induction n) auto

lemma kBase64Table_eq:
  "kBase64Table k =
     (if k = 47 then 63 else if k = 43 then 62
      else if 48 \<le> k \<and> k < 58 then 4 + int k
      else if 65 \<le> k \<and> k < 91 then int k - 65 else if 97 \<le> k \<and> k < 123 then int k - 71 else - 1)"
  by (simp add: kBase64Table_def fold_upd_at fold_upd2_at)

lemma length_base64_chars: "length base64_chars = 64"
  by (simp add: base64_chars_def)

lemma alphabet_values:
  "map (\<lambda>c. kBase64Table (of_char c)) base64_chars = map int [0..<64]"
  by (simp add: base64_chars_def kBase64Table_eq upt_rec)

lemma alphabet_positions:
  "map (\<lambda>c. find_from 0 kBase64Chars c) base64_chars = map Some [0..<64]"
  by (simp add: base64_chars_def kBase64Chars_def upt_rec)

lemma alphabet_plain: "set base64_chars \<inter> {CHR 0x0D, CHR 0x0A, CHR '' '', CHR ''=''} = {}"
  by (simp add: base64_chars_def)

lemma alphabet_nth:
  assumes "v < 64"
  shows "kBase64Table (of_char (base64_chars ! v)) = int v"
    and "find_from 0 kBase64Chars (base64_chars ! v) = Some v"
    and "base64_chars ! v \<notin> {CHR 0x0D, CHR 0x0A, CHR '' '', CHR ''=''}"
proof -
  show "kBase64Table (of_char (base64_chars ! v)) = int v"
    using arg_cong [OF alphabet_values, of "\<lambda>xs. xs ! v"] assms by (simp add: length_base64_chars)
  show "find_from 0 kBase64Chars (base64_chars ! v) = Some v"
    using arg_cong [OF alphabet_positions, of "\<lambda>xs. xs ! v"] assms by (simp add: length_base64_chars)
  have "base64_chars ! v \<in> set base64_chars" using assms by (simp add: length_base64_chars)
  with alphabet_plain show "base64_chars ! v \<notin> {CHR 0x0D, CHR 0x0A, CHR '' '', CHR ''=''}" by blast
qed

lemma b64char_table [simp]: "unat k < 64 \<Longrightarrow> kBase64Table (of_char (b64char k)) = int (unat k)"
  by (simp add: b64char_def alphabet_nth)

lemma b64char_find [simp]: "unat k < 64 \<Longrightarrow> find_from 0 kBase64Chars (b64char k) = Some (unat k)"
  by (simp add: b64char_def alphabet_nth)

lemma b64char_plain:
  "unat k < 64 \<Longrightarrow> b64char k \<noteq> CHR 0x0D \<and> b64char k \<noteq> CHR 0x0A \<and> b64char k \<noteq> CHR '' '' \<and> b64char k \<noteq> CHR ''=''"
  using alphabet_nth(3) [of "unat k"] by (simp add: b64char_def)

section \<open>Three bytes through four characters\<close>

definition shift6 :: "u32 \<Rightarrow> byte \<Rightarrow> u32" where
  "shift6 buf k = push_bit 6 buf OR ucast k"

lemma bit_shift6:
  "unat k < 64 \<Longrightarrow> bit (shift6 buf k) n \<longleftrightarrow> n < 32 \<and> (if n < 6 then bit k n else bit buf (n - 6))"
proof -
  assume "unat k < 64"
  then have "take_bit 6 k = k"
    by (simp add: word_unat_eq_iff unsigned_take_bit_eq take_bit_nat_eq_self)
  then have "\<not> bit k n" if "6 \<le> n" using that by (metis bit_take_bit_iff leD)
  then show ?thesis by (auto simp: shift6_def bit_simps dest: bit_imp_le_length)
qed

lemma shift6_add:
  assumes "unat k < 64"
  shows "push_bit 6 buf + ucast k = shift6 buf k"
  unfolding shift6_def
proof (rule add_or_disjoint)
  fix n assume "bit (push_bit 6 buf) n"
  then have "6 \<le> n" by (simp add: bit_simps)
  then show "\<not> bit (ucast k :: u32) n"
    using bit_shift6 [OF assms, of 0 n] by (auto simp: shift6_def bit_simps)
qed

lemma decode_loop_char:
  assumes "unat k < 64"
  shows "decode_loop (b64char k # cs) buf bits out =
    (let buf = shift6 buf k; bits = bits + 6
     in if bits \<ge> 8 then decode_loop cs buf (bits - 8) (out @ [ucast (drop_bit (bits - 8) buf AND 0xFF)])
        else decode_loop cs buf bits out)"
  using b64char_plain [OF assms] assms by (simp add: shift6_def Let_def)

lemma Base64Decode_loop_char:
  assumes "unat k < 64"
  shows "Base64Decode_loop (b64char k # cs) buf bits out =
    (let buf = shift6 buf k; bits = bits + 6
     in if bits \<ge> 0
        then Base64Decode_loop cs buf (bits - 8) (out @ [ucast (signed_drop_bit (nat bits) buf AND 0xFF)])
        else Base64Decode_loop cs buf bits out)"
  using b64char_plain [OF assms] assms by (simp add: shift6_add Let_def)

lemma byte_at:
  "(ucast (drop_bit m (w :: u32) AND 0xFF) :: byte) = ucast (drop_bit m w)"
  by (rule bit_word_eqI) (simp add: and_0xFF bit_simps)

lemma low_byte: "(ucast ((w :: u32) AND 0xFF) :: byte) = ucast w"
  using byte_at [of 0 w] by simp

lemma signed_byte_at:
  "m \<le> 24 \<Longrightarrow> (ucast (signed_drop_bit m (w :: u32)) :: byte) = ucast (drop_bit m w)"
  by (rule bit_word_eqI) (auto simp: bit_simps)

lemma Suc_Suc_diff_2: "2 \<le> n \<Longrightarrow> Suc (Suc (n - 2)) = n"
  by simp

lemma three_bytes:
  "(ucast (drop_bit 4 (shift6 (shift6 buf (sx0 a)) (sx1 a b))) :: byte) = a"
  "(ucast (drop_bit 2 (shift6 (shift6 buf (sx1 a b)) (sx2 b c))) :: byte) = b"
  "(ucast (shift6 (shift6 buf (sx2 b c)) (sx3 c)) :: byte) = c"
  by (rule bit_word_eqI, auto simp: bit_simps bit_shift6 bit_sextets not_less Suc_Suc_diff_2)+

lemma decode_loop_ref: "decode_loop (b64_ref bs) buf 0 out = out @ bs"
proof (induction bs arbitrary: buf out rule: b64_ref.induct)
  case (4 a b c bs)
  then show ?case
    by (simp add: decode_loop_char byte_at low_byte three_bytes del: decode_loop.simps)
qed (simp_all add: decode_loop_char byte_at low_byte three_bytes Let_def del: decode_loop.simps(2)
       add: decode_loop.simps(2) [of "CHR ''=''"])

lemma Base64Decode_loop_ref: "Base64Decode_loop (b64_ref bs) buf (- 8) out = out @ bs"
proof (induction bs arbitrary: buf out rule: b64_ref.induct)
  case (4 a b c bs)
  then show ?case
    by (simp add: Base64Decode_loop_char signed_byte_at low_byte three_bytes del: Base64Decode_loop.simps)
qed (simp_all add: Base64Decode_loop_char signed_byte_at low_byte three_bytes Let_def del: Base64Decode_loop.simps(2)
       add: Base64Decode_loop.simps(2) [of "CHR ''=''"])

section \<open>The encoders compute the reference encoding\<close>

lemma char_array_4_sx: "char_array_4 [a, b, c] = [sx0 a, sx1 a b, sx2 b c, sx3 c]"
  by (simp add: char_array_4_def sx0_def sx1_def sx2_def sx3_def)

lemma encode_loop_ref:
  "(let (i, a3, ret) = encode_loop bs 0 [x, y, z] ret
    in if i = 0 then ret
       else let a3 = fold (\<lambda>j a. a[j := 0]) [i..<3] a3
            in ret @ map b64char (take (i + 1) (char_array_4 a3)) @ replicate (3 - i) CHR ''='') =
   ret @ b64_ref bs"
proof (induction bs arbitrary: x y z ret rule: b64_ref.induct)
  case (4 a b c bs)
  from 4 [of a b c "ret @ map b64char (char_array_4 [a, b, c])"]
  show ?case by (simp add: char_array_4_sx)
qed (simp_all add: Let_def char_array_4_sx upt_rec numeral_2_eq_2)

lemma base64_encode_ref: "base64_encode_from [x, y, z] s = b64_ref (bytes_of_string s)"
  using encode_loop_ref [of "bytes_of_string s" x y z "[]"] by (simp add: base64_encode_from_def)

definition shift8 :: "u32 \<Rightarrow> byte \<Rightarrow> u32" where
  "shift8 v c = push_bit 8 v OR ucast c"

lemma bit_shift8: "bit (shift8 v c) n \<longleftrightarrow> n < 32 \<and> (if n < 8 then bit c n else bit v (n - 8))"
  by (auto simp: shift8_def bit_simps dest: bit_imp_le_length)

lemma shift8_add: "push_bit 8 v + ucast c = shift8 v c"
  unfolding shift8_def by (rule add_or_disjoint) (auto simp: bit_simps dest: bit_imp_le_length)

lemma and_0x3F: "(w :: u32) AND 0x3F = take_bit 6 w"
  by (simp only: take_bit_eq_mask) (simp add: mask_eq_exp_minus_1)

lemma four_sextets:
  "signed_drop_bit 2 (shift8 v a) AND 0x3F = ucast (sx0 a)"
  "signed_drop_bit 4 (shift8 (shift8 v a) b) AND 0x3F = ucast (sx1 a b)"
  "signed_drop_bit 6 (shift8 (shift8 v b) c) AND 0x3F = ucast (sx2 b c)"
  "shift8 v c AND 0x3F = ucast (sx3 c)"
  "push_bit 4 (shift8 v a) AND 0x3F = ucast (sx1 a 0)"
  "push_bit 2 (shift8 v b) AND 0x3F = ucast (sx2 b 0)"
  by (rule bit_word_eqI,
      auto simp: and_0x3F bit_simps bit_shift8 bit_sextets not_less Suc_Suc_diff_2 add.commute
        numeral_2_eq_2 [symmetric])+

lemma flush_sextets_unroll:
  "flush_sextets v 2 r = (- 4, r @ [kBase64Chars ! unat (signed_drop_bit 2 v AND 0x3F)])"
  "flush_sextets v 4 r = (- 2, r @ [kBase64Chars ! unat (signed_drop_bit 4 v AND 0x3F)])"
  "flush_sextets v 6 r = (- 6, r @ [kBase64Chars ! unat (signed_drop_bit 6 v AND 0x3F),
     kBase64Chars ! unat (v AND 0x3F)])"
  by (simp_all add: flush_sextets.simps [of v] )

lemma b64char_key: "kBase64Chars ! unat (ucast k :: u32) = b64char k"
  by (simp add: kBase64Chars_def b64char_def base64_chars_def unsigned_ucast_eq take_bit_nat_eq_self unsigned_less [where ?'a = nat, THEN order.strict_trans2])

lemma pad4_lengths:
  assumes "length r mod 4 = 0"
  shows "pad4 r = r"
    and "pad4 (r @ [a, b]) = r @ [a, b, CHR ''='', CHR ''='']"
    and "pad4 (r @ [a, b, c]) = r @ [a, b, c, CHR ''='']"
  using assms by (simp_all add: pad4.simps mod_Suc)

lemma Base64Encode_loop_ref:
  assumes "length result mod 4 = 0"
  shows "(let (val, bits, result) = Base64Encode_loop bs val (- 6) result;
              result = (if bits > - 6
                        then result @ [kBase64Chars ! unat (push_bit (nat (- bits)) val AND 0x3F)]
                        else result)
          in pad4 result) = result @ b64_ref bs"
  using assms
proof (induction bs arbitrary: val result rule: b64_ref.induct)
  case (4 a b c bs)
  have "length (result @ map b64char [sx0 a, sx1 a b, sx2 b c, sx3 c]) mod 4 = 0"
    using "4.prems" by simp
  from "4.IH" [OF this, of "shift8 (shift8 (shift8 val a) b) c"]
  show ?case
    by (simp add: shift8_add flush_sextets_unroll four_sextets b64char_key)
qed (simp_all add: Let_def shift8_add flush_sextets_unroll four_sextets b64char_key pad4_lengths)

lemma Base64Encode_ref: "Base64Encode bs = b64_ref bs"
  using Base64Encode_loop_ref [of "[]" bs 0] by (simp add: Base64Encode_def)

section \<open>Encoders paired with decoders\<close>

text \<open>
  What a service that sends binary data as text and a service that reads it rely on: the
  decoder undoes the encoder, so the encoder loses nothing. Every encoder of the repository
  is paired with every decoder.
\<close>

locale text_encoding =
  fixes enc :: "'a \<Rightarrow> string" and dec :: "string \<Rightarrow> 'a"
  assumes dec_enc: "dec (enc x) = x"
begin

lemma enc_inject: "enc x = enc y \<longleftrightarrow> x = y"
  by (metis dec_enc)

lemma dec_onto: "\<exists>s. dec s = x"
  using dec_enc by blast

end

interpretation gateway_storage: text_encoding base64_encode "\<lambda>s. string_of_bytes (base64_decode s)"
proof
  fix s
  have "b64_ref (bytes_of_string s) \<noteq> [] \<or> s = []"
    by (cases "bytes_of_string s" rule: b64_ref.cases) (auto simp: bytes_of_string_def)
  then show "string_of_bytes (base64_decode (base64_encode s)) = s"
    by (auto simp: base64_decode_def base64_encode_def base64_encode_ref decode_loop_ref string_of_bytes_def [of "[]"])
qed

interpretation key_service: text_encoding Base64Encode Base64Decode
  by unfold_locales (simp add: Base64Decode_def Base64Encode_ref Base64Decode_loop_ref)

lemma Base64Encode_base64_encode: "Base64Encode (bytes_of_string s) = base64_encode s"
  by (simp add: Base64Encode_ref base64_encode_def base64_encode_ref)

lemma decode_encode:
  "base64_decode (base64_encode s) = bytes_of_string s" "Base64Decode (base64_encode s) = bytes_of_string s"
  using arg_cong [OF gateway_storage.dec_enc, of bytes_of_string s]
  by (simp, metis Base64Encode_base64_encode key_service.dec_enc)

section \<open>Properties of the base64 routines\<close>

text \<open>
  C17. The base64 routines of the three services agree: the gateway's encoder and the key
  service's encoder write the same text, both the storage service's and the key service's
  decoder read back exactly the bytes, distinct inputs have distinct encodings, and the
  gateway's encoder never depends on the initial contents of its local array.
\<close>

theorem base64_services_agree:
  "base64_decode (base64_encode s) = bytes_of_string s \<and>
   Base64Decode (base64_encode s) = bytes_of_string s \<and>
   Base64Encode (bytes_of_string s) = base64_encode s \<and>
   base64_decode (Base64Encode bs) = bs \<and> Base64Decode (Base64Encode bs) = bs \<and>
   (base64_encode s = base64_encode s' \<longleftrightarrow> s = s') \<and>
   base64_encode_from [x, y, z] s = base64_encode s"
proof -
  from decode_encode(1) [of "string_of_bytes bs"] have "base64_decode (Base64Encode bs) = bs"
    using Base64Encode_base64_encode [of "string_of_bytes bs"] by simp
  moreover have "base64_encode_from [x, y, z] s = base64_encode s"
    by (simp add: base64_encode_ref base64_encode_def)
  ultimately show ?thesis
    by (simp add: decode_encode gateway_storage.enc_inject key_service.dec_enc Base64Encode_base64_encode)
qed

lemma decode_loop_stops: "decode_loop (s @ CHR ''='' # junk) buf bits out = decode_loop s buf bits out"
  by (induction s buf bits out rule: decode_loop.induct) (simp_all add: Let_def)

text \<open>
  The storage decoder ignores whatever follows the first padding character, and does
  not check the padding itself: text of any length with any tail, including characters
  outside the alphabet, decodes as its part before the first \<open>=\<close> does.
\<close>

theorem base64_decode_ignores_padding_tail:
  "base64_decode (s @ ''='' @ junk) = base64_decode s"
  by (simp add: base64_decode_def decode_loop_stops)

end
