(* ===== verification/Calendar.thy ===== *)
theory Calendar
  imports EyeD_Prelude
begin

text \<open>
  The parts of the C library's calendar that the services use: \<^verbatim>\<open>gmtime_r\<close>, \<^verbatim>\<open>timegm\<close> as a
  normalisation, and \<^verbatim>\<open>strftime\<close> with the date and time formats of the sources. The proleptic
  Gregorian calendar, no leap seconds. The round trip between day numbers and dates and the
  agreement of the text order with the order of days are what the retention policy and the
  archive's date directories rest on.
\<close>

section \<open>Years and months\<close>

definition leap :: "int \<Rightarrow> bool" where
  "leap y = (y mod 4 = 0 \<and> (y mod 100 \<noteq> 0 \<or> y mod 400 = 0))"

definition year_length :: "int \<Rightarrow> int" where
  "year_length y = (if leap y then 366 else 365)"

definition month_length :: "int \<Rightarrow> nat \<Rightarrow> int" where
  "month_length y m =
     (if m = 2 then (if leap y then 29 else 28) else if m \<in> {4, 6, 9, 11} then 30 else 31)"

text \<open>Days from 1970-01-01 to the first of January of a year.\<close>

definition days_before_year :: "int \<Rightarrow> int" where
  "days_before_year y =
     365 * (y - 1970) + ((y - 1) div 4 - (y - 1) div 100 + (y - 1) div 400 - 477)"

definition days_before_month :: "int \<Rightarrow> nat \<Rightarrow> int" where
  "days_before_month y m = (\<Sum>k \<leftarrow> [1..<m]. month_length y k)"

section \<open>tm, gmtime and timegm\<close>

text \<open>The fields of \<^verbatim>\<open>std::tm\<close> in use, with the full year and the month from 1.\<close>

record tm =
  tm_year :: int
  tm_mon :: nat
  tm_mday :: int
  tm_hour :: int
  tm_min :: int
  tm_sec :: int

function civil_year :: "int \<Rightarrow> int \<Rightarrow> int \<times> int" where
  "civil_year y d =
     (if d < 0 then civil_year (y - 1) (d + year_length (y - 1))
      else if d \<ge> year_length y then civil_year (y + 1) (d - year_length y)
      else (y, d))"
  by auto
termination
  by (relation "measure (\<lambda>(y, d). if d < 0 then nat (400 - d) else nat d)")
     (auto simp: year_length_def split: if_splits)

declare civil_year.simps [simp del]

fun civil_month :: "int \<Rightarrow> int \<Rightarrow> nat list \<Rightarrow> nat \<times> int" where
  "civil_month y d [] = (12, d)"
| "civil_month y d (m # ms) =
     (if ms = [] \<or> d < month_length y m then (m, d) else civil_month y (d - month_length y m) ms)"

definition civil_from_days :: "int \<Rightarrow> int \<times> nat \<times> int" where
  "civil_from_days z =
     (let (y, doy) = civil_year 1970 z; (m, d) = civil_month y doy [1..<13] in (y, m, d + 1))"

definition days_from_civil :: "int \<Rightarrow> nat \<Rightarrow> int \<Rightarrow> int" where
  "days_from_civil y m d = days_before_year y + days_before_month y m + d - 1"

definition gmtime :: "int \<Rightarrow> tm" where
  "gmtime t =
     (let (y, m, d) = civil_from_days (t div 86400); s = t mod 86400
      in \<lparr>tm_year = y, tm_mon = m, tm_mday = d,
          tm_hour = s div 3600, tm_min = s mod 3600 div 60, tm_sec = s mod 60\<rparr>)"

text \<open>
  \<^verbatim>\<open>timegm(&tm)\<close> computes the time of the possibly out-of-range fields and rewrites them to the
  normal form of that time.
\<close>

definition timegm :: "tm \<Rightarrow> int" where
  "timegm x =
     86400 * days_from_civil (tm_year x) (tm_mon x) (tm_mday x) +
     3600 * tm_hour x + 60 * tm_min x + tm_sec x"

definition timegm_normalize :: "tm \<Rightarrow> tm" where
  "timegm_normalize x = gmtime (timegm x)"

section \<open>strftime\<close>

definition digit :: "nat \<Rightarrow> char" where
  "digit n = char_of (48 + n)"

definition pad2 :: "nat \<Rightarrow> string" where
  "pad2 n = [digit (n div 10 mod 10), digit (n mod 10)]"

text \<open>\<^verbatim>\<open>%Y-%m-%d\<close> and \<^verbatim>\<open>%H:%M:%S\<close>.\<close>

definition strftime_date :: "tm \<Rightarrow> string" where
  "strftime_date x = to_string (nat (tm_year x)) @ ''-'' @ pad2 (tm_mon x) @ ''-'' @ pad2 (nat (tm_mday x))"

definition strftime_time :: "tm \<Rightarrow> string" where
  "strftime_time x =
     pad2 (nat (tm_hour x)) @ '':'' @ pad2 (nat (tm_min x)) @ '':'' @ pad2 (nat (tm_sec x))"

section \<open>Day numbers and dates\<close>

definition valid_date :: "int \<Rightarrow> nat \<Rightarrow> int \<Rightarrow> bool" where
  "valid_date y m d = (1 \<le> m \<and> m \<le> 12 \<and> 1 \<le> d \<and> d \<le> month_length y m)"

lemma div_pred:
  fixes y n :: int
  assumes "0 < n"
  shows "(y - 1) div n = (if y mod n = 0 then y div n - 1 else y div n)"
proof -
  have y: "y = n * (y div n) + y mod n" by simp
  have r: "0 \<le> y mod n" "y mod n < n" using assms by simp_all
  show ?thesis
  proof (cases "y mod n = 0")
    case True
    with y assms have "(y - 1) div n = y div n - 1"
      by (intro int_div_pos_eq [of _ _ _ "n - 1"]) (simp_all add: algebra_simps)
    with True show ?thesis by simp
  next
    case False
    with y r have "(y - 1) div n = y div n"
      by (intro int_div_pos_eq [of _ _ _ "y mod n - 1"]) simp_all
    with False show ?thesis by simp
  qed
qed

lemma days_before_year_Suc: "days_before_year (y + 1) = days_before_year y + year_length y"
proof -
  have "y mod 400 = 0 \<Longrightarrow> y mod 100 = 0" "y mod 100 = 0 \<Longrightarrow> y mod 4 = 0"
    using dvd_trans [of 100 400 y] dvd_trans [of 4 100 y] by (simp_all add: mod_eq_0_iff_dvd)
  then show ?thesis
    by (auto simp: days_before_year_def year_length_def leap_def div_pred)
qed

lemma year_length_pos: "0 < year_length y"
  by (simp add: year_length_def)

lemma civil_year_spec:
  "civil_year y d = (y', d') \<Longrightarrow>
   days_before_year y' + d' = days_before_year y + d \<and> 0 \<le> d' \<and> d' < year_length y'"
proof (induction y d rule: civil_year.induct)
  case (1 y d)
  have prev: "days_before_year y = days_before_year (y - 1) + year_length (y - 1)"
    using days_before_year_Suc [of "y - 1"] by simp
  consider "d < 0" | "0 \<le> d" "year_length y \<le> d" | "0 \<le> d" "d < year_length y" by linarith
  then show ?case
  proof cases
    case 1
    with "1.prems" have "civil_year (y - 1) (d + year_length (y - 1)) = (y', d')"
      by (simp add: civil_year.simps [of y])
    with "1.IH"(1) [OF 1] prev show ?thesis by simp
  next
    case 2
    with "1.prems" have "civil_year (y + 1) (d - year_length y) = (y', d')"
      by (simp add: civil_year.simps [of y])
    with "1.IH"(2) 2 days_before_year_Suc [of y] show ?thesis by simp
  next
    case 3
    with "1.prems" show ?thesis by (simp add: civil_year.simps [of y])
  qed
qed

lemma month_length_pos: "28 \<le> month_length y m" "month_length y m \<le> 31"
  by (auto simp: month_length_def)

lemma days_before_month_Suc:
  "1 \<le> m \<Longrightarrow> days_before_month y (Suc m) = days_before_month y m + month_length y m"
  by (simp add: days_before_month_def)

lemma days_before_month_1 [simp]: "days_before_month y 1 = 0" "days_before_month y (Suc 0) = 0"
  by (simp_all add: days_before_month_def)

lemma days_before_month_13: "days_before_month y 13 = year_length y"
  by (simp add: days_before_month_def upt_rec month_length_def year_length_def)

lemma civil_month_spec:
  assumes "civil_month y d [k..<13] = (m, d')" "1 \<le> k" "k \<le> 12" "0 \<le> d"
    "d < year_length y - days_before_month y k"
  shows "k \<le> m \<and> m \<le> 12 \<and> days_before_month y m + d' = days_before_month y k + d \<and>
    0 \<le> d' \<and> d' < month_length y m"
  using assms
proof (induction "12 - k" arbitrary: k d)
  case 0
  then have "k = 12" by simp
  with 0 show ?case
    using days_before_month_13 [of y] days_before_month_Suc [of 12 y] by (simp add: upt_rec)
next
  case (Suc n)
  then have k: "k < 12" "[k..<13] = k # [Suc k..<13]" "[Suc k..<13] \<noteq> []" by (simp_all add: upt_rec)
  show ?case
  proof (cases "d < month_length y k")
    case True
    with Suc.prems k show ?thesis by simp
  next
    case False
    with Suc.prems k have "civil_month y (d - month_length y k) [Suc k..<13] = (m, d')" by simp
    moreover have "n = 12 - Suc k" using Suc.hyps(2) by simp
    ultimately have "Suc k \<le> m \<and> m \<le> 12 \<and>
        days_before_month y m + d' = days_before_month y (Suc k) + (d - month_length y k) \<and>
        0 \<le> d' \<and> d' < month_length y m"
      using Suc.prems False k by (intro Suc.hyps(1)) (simp_all add: days_before_month_Suc)
    then show ?thesis using Suc.prems by (simp add: days_before_month_Suc)
  qed
qed

lemma civil_from_days_spec:
  assumes "civil_from_days z = (y, m, d)"
  shows "valid_date y m d" and "days_from_civil y m d = z"
proof -
  obtain doy d0 where y: "civil_year 1970 z = (y, doy)" and m: "civil_month y doy [1..<13] = (m, d0)"
    and d: "d = d0 + 1"
    using assms by (auto simp: civil_from_days_def split: prod.splits)
  from civil_year_spec [OF y] have "days_before_year y + doy = z" "0 \<le> doy" "doy < year_length y"
    by (simp_all add: days_before_year_def)
  with civil_month_spec [OF m] d show "valid_date y m d" "days_from_civil y m d = z"
    by (auto simp: valid_date_def days_from_civil_def)
qed

lemma seconds_split: "3600 * (s div 3600) + 60 * (s mod 3600 div 60) + s mod 60 = (s :: int)"
proof -
  have "s mod 3600 mod 60 = s mod 60" by (rule mod_mod_cancel) simp
  then have "60 * (s mod 3600 div 60) + s mod 60 = s mod 3600"
    by (metis mult_div_mod_eq)
  then show ?thesis by (metis add.assoc mult_div_mod_eq)
qed

lemma gmtime_date:
  "valid_date (tm_year (gmtime t)) (tm_mon (gmtime t)) (tm_mday (gmtime t))"
  "days_from_civil (tm_year (gmtime t)) (tm_mon (gmtime t)) (tm_mday (gmtime t)) = t div 86400"
  using civil_from_days_spec [of "t div 86400"] by (auto simp: gmtime_def Let_def split: prod.splits)

lemma gmtime_time: "3600 * tm_hour (gmtime t) + 60 * tm_min (gmtime t) + tm_sec (gmtime t) = t mod 86400"
proof -
  have "tm_hour (gmtime t) = t mod 86400 div 3600" "tm_min (gmtime t) = t mod 86400 mod 3600 div 60"
    "tm_sec (gmtime t) = t mod 86400 mod 60"
    by (simp_all only: gmtime_def Let_def prod.case_distrib tm.simps split: prod.split) blast+
  then show ?thesis by (simp only: seconds_split)
qed

lemma timegm_gmtime: "timegm (gmtime t) = t"
  unfolding timegm_def gmtime_date(2) add.assoc
  by (simp only: gmtime_time [unfolded add.assoc] mult_div_mod_eq)

section \<open>The order of dates\<close>

text \<open>Dates are ordered by year, month and day.\<close>

datatype civil = Civil int nat int

instantiation civil :: linorder
begin

fun less_civil :: "civil \<Rightarrow> civil \<Rightarrow> bool" where
  "Civil y m d < Civil y' m' d' \<longleftrightarrow> y < y' \<or> y = y' \<and> (m < m' \<or> m = m' \<and> d < d')"

definition less_eq_civil :: "civil \<Rightarrow> civil \<Rightarrow> bool" where
  "a \<le> b \<longleftrightarrow> a < b \<or> a = (b :: civil)"

instance
proof
  fix a b c :: civil
  show "a < b \<longleftrightarrow> a \<le> b \<and> \<not> b \<le> a" "a \<le> b \<Longrightarrow> b \<le> a \<Longrightarrow> a = b" "a \<le> b \<or> b \<le> a"
    by (cases a; cases b; auto simp: less_eq_civil_def)+
  show "a \<le> b \<Longrightarrow> b \<le> c \<Longrightarrow> a \<le> c" by (cases a; cases b; cases c; auto simp: less_eq_civil_def)
qed (simp add: less_eq_civil_def)

end

lemma days_before_year_mono: "y < y' \<Longrightarrow> days_before_year y + year_length y \<le> days_before_year y'"
proof (induction y' rule: int_gr_induct [of y])
  case (step i)
  with days_before_year_Suc [of i] year_length_pos [of i] show ?case by linarith
qed (simp_all add: days_before_year_Suc)

lemma days_before_month_mono:
  "1 \<le> m \<Longrightarrow> m < m' \<Longrightarrow> days_before_month y m + month_length y m \<le> days_before_month y m'"
proof (induction m')
  case (Suc k)
  then show ?case
    using days_before_month_Suc [of k y] month_length_pos(1) [of y k] by (cases "m = k") auto
qed simp

lemma doy_bounds:
  assumes "valid_date y m d"
  shows "1 \<le> days_before_month y m + d" and "days_before_month y m + d \<le> year_length y"
proof -
  from assms have m: "1 \<le> m" "m \<le> 12" "1 \<le> d" "d \<le> month_length y m" by (simp_all add: valid_date_def)
  then have "m < 13" by simp
  from days_before_month_mono [OF m(1) this, of y] m
  show "days_before_month y m + d \<le> year_length y" by (simp add: days_before_month_13)
  have "0 \<le> days_before_month y m"
    using days_before_month_mono [of 1 m y] month_length_pos(1) [of y 1] m by (cases "m = 1") auto
  with m show "1 \<le> days_before_month y m + d" by simp
qed

lemma days_from_civil_less:
  assumes "valid_date y m d" "valid_date y' m' d'" "Civil y m d < Civil y' m' d'"
  shows "days_from_civil y m d < days_from_civil y' m' d'"
proof -
  consider "y < y'" | "y = y'" "m < m'" | "y = y'" "m = m'" "d < d'"
    using assms(3) by auto
  then show ?thesis
  proof cases
    case 1
    from days_before_year_mono [OF this] doy_bounds [OF assms(1)] doy_bounds [OF assms(2)]
    show ?thesis by (simp add: days_from_civil_def)
  next
    case 2
    moreover have "1 \<le> m" "d \<le> month_length y m" "1 \<le> d'" using assms by (auto simp: valid_date_def)
    ultimately show ?thesis
      using days_before_month_mono [of m m' y] by (simp add: days_from_civil_def)
  next
    case 3
    then show ?thesis by (simp add: days_from_civil_def)
  qed
qed

lemma days_from_civil_less_iff:
  assumes "valid_date y m d" "valid_date y' m' d'"
  shows "days_from_civil y m d < days_from_civil y' m' d' \<longleftrightarrow> Civil y m d < Civil y' m' d'"
  using days_from_civil_less [OF assms] days_from_civil_less [OF assms(2,1)]
  by (cases "Civil y m d" "Civil y' m' d'" rule: linorder_cases) (auto dest: less_asym)

section \<open>The text order\<close>

text \<open>\<^verbatim>\<open>operator<\<close> on strings is the lexicographic order of the unsigned characters.\<close>

lemma append_less_iff:
  "length xs = length ys \<Longrightarrow> xs @ us < ys @ vs \<longleftrightarrow> xs < ys \<or> xs = ys \<and> us < (vs :: string)"
  by (induction xs ys rule: list_induct2) (auto simp: Cons_less_Cons)

lemma digit_less: "m < 10 \<Longrightarrow> n < 10 \<Longrightarrow> digit m < digit n \<longleftrightarrow> m < n"
  by (simp add: digit_def less_char_def)

lemma digit_inject: "m < 10 \<Longrightarrow> n < 10 \<Longrightarrow> digit m = digit n \<longleftrightarrow> m = n"
  using of_char_digit [of m] of_char_digit [of n] unfolding digit_def by (metis add_left_cancel)

lemma digit_of_char: "is_digit c \<Longrightarrow> digit (digit_val c) = c"
  by (simp add: is_digit_def digit_def digit_val_def)

definition four_digits :: "nat \<Rightarrow> string" where
  "four_digits n = [digit (n div 1000 mod 10), digit (n div 100 mod 10), digit (n div 10 mod 10), digit (n mod 10)]"

lemma to_string_four_digits:
  assumes "1000 \<le> n" "n \<le> 9999"
  shows "to_string n = four_digits n"
proof -
  have "n div 1000 < 10" using assms by simp
  moreover have "n div 10 div 10 = n div 100" "n div 100 div 10 = n div 1000"
    by (simp_all flip: div_mult2_eq)
  moreover have "\<not> n < 10" "\<not> n div 10 < 10" "\<not> n div 100 < 10" using assms by simp_all
  ultimately show ?thesis
    by (simp add: to_string.simps [of n] to_string.simps [of "n div 10"]
        to_string.simps [of "n div 100"] to_string.simps [of "n div 1000"] four_digits_def digit_def)
qed

lemma less_div_mod: "m < n \<longleftrightarrow> m div b < n div b \<or> m div b = n div b \<and> m mod b < n mod (b :: nat)"
proof (cases "m div b" "n div b" rule: linorder_cases)
  case less
  then have "m < n" by (metis div_le_mono linorder_not_less)
  with less show ?thesis by simp
next
  case equal
  then show ?thesis using mult_div_mod_eq [of b m] mult_div_mod_eq [of b n] by (metis nat_add_left_cancel_less less_irrefl)
next
  case greater
  then have "n < m" by (metis div_le_mono linorder_not_less)
  with greater show ?thesis by simp
qed

lemma pad2_less: "m < 100 \<Longrightarrow> n < 100 \<Longrightarrow> pad2 m < pad2 n \<longleftrightarrow> m < n"
  using less_div_mod [of m n 10] by (simp add: pad2_def Cons_less_Cons digit_less digit_inject)

lemma pad2_inject: "m < 100 \<Longrightarrow> n < 100 \<Longrightarrow> pad2 m = pad2 n \<longleftrightarrow> m = n"
  by (metis pad2_less less_irrefl linorder_neqE_nat)

lemma four_digits_split: "four_digits n = pad2 (n div 100) @ pad2 (n mod 100)"
proof -
  have "n mod 100 mod 10 = n mod 10" by (rule mod_mod_cancel) simp
  moreover have "n mod 100 div 10 mod 10 = n div 10 mod 10"
    using mod_mult2_eq [of n 10 10] by simp
  ultimately show ?thesis by (simp add: four_digits_def pad2_def flip: div_mult2_eq)
qed

lemma four_digits_less: "m < 10000 \<Longrightarrow> n < 10000 \<Longrightarrow> four_digits m < four_digits n \<longleftrightarrow> m < n"
proof -
  assume "m < 10000" "n < 10000"
  then have "m div 100 < 100" "n div 100 < 100" by simp_all
  moreover have "length (pad2 a) = length (pad2 b)" for a b by (simp add: pad2_def)
  ultimately show ?thesis
    using less_div_mod [of m n 100] by (simp add: four_digits_split append_less_iff pad2_less pad2_inject)
qed

lemma four_digits_inject: "m < 10000 \<Longrightarrow> n < 10000 \<Longrightarrow> four_digits m = four_digits n \<longleftrightarrow> m = n"
  by (metis four_digits_less less_irrefl linorder_neqE_nat)

text \<open>The text of a date, and its order.\<close>

definition date_text :: "nat \<Rightarrow> nat \<Rightarrow> nat \<Rightarrow> string" where
  "date_text y m d = four_digits y @ ''-'' @ pad2 m @ ''-'' @ pad2 d"

lemma date_text_less:
  assumes "y < 10000" "y' < 10000" "m < 100" "m' < 100" "d < 100" "d' < 100"
  shows "date_text y m d < date_text y' m' d' \<longleftrightarrow>
    Civil (int y) m (int d) < Civil (int y') m' (int d')"
proof -
  have "length (four_digits a) = length (four_digits b)" "length (pad2 a) = length (pad2 b)" for a b
    by (simp_all add: four_digits_def pad2_def)
  with assms show ?thesis
    by (simp add: date_text_def append_less_iff Cons_less_Cons four_digits_less four_digits_inject pad2_less
        pad2_inject)
qed

lemma strftime_date_text:
  assumes "1000 \<le> tm_year x" "tm_year x \<le> 9999"
  shows "strftime_date x = date_text (nat (tm_year x)) (tm_mon x) (nat (tm_mday x))"
  using assms by (simp add: strftime_date_def date_text_def to_string_four_digits)

end
