(* ===== verification/Breaker.thy ===== *)
theory Breaker
  imports EyeD_Prelude
begin

text \<open>
  The gateway's circuit breaker, \<^verbatim>\<open>gateway/src/breaker.h\<close> and \<^verbatim>\<open>breaker.cpp\<close>. Every public
  operation locks the mutex, reads the steady clock and runs to completion, so an operation
  is a function of the clock value it read and the state. Time points are nanosecond counts
  of the steady clock (\<open>0\<close> is the default-constructed one); the two durations are in
  milliseconds, as in the header, and are compared after conversion to nanoseconds.
\<close>

section \<open>State and operations\<close>

datatype State = Closed | Open | HalfOpen

fun state_string :: "State \<Rightarrow> string" where
  "state_string Closed = ''closed''"
| "state_string Open = ''open''"
| "state_string HalfOpen = ''half-open''"

record Breaker =
  br_state :: State
  br_timeout :: int
  br_probe_interval :: int
  br_last_sent :: int
  br_last_result :: int
  br_last_probe :: int

definition Breaker_init :: "int \<Rightarrow> int \<Rightarrow> Breaker" where
  "Breaker_init timeout probe_interval =
     \<lparr>br_state = Closed, br_timeout = timeout, br_probe_interval = probe_interval,
      br_last_sent = 0, br_last_result = 0, br_last_probe = 0\<rparr>"

text \<open>A millisecond duration in nanoseconds.\<close>

definition ms :: "int \<Rightarrow> int" where
  "ms d = d * 1000000"

definition evaluate :: "int \<Rightarrow> Breaker \<Rightarrow> Breaker" where
  "evaluate now b =
     (case br_state b of
        Closed \<Rightarrow>
          if br_last_sent b \<noteq> 0 \<and> br_last_sent b > br_last_result b \<and>
             now - br_last_sent b > ms (br_timeout b)
          then b\<lparr>br_state := Open, br_last_probe := now\<rparr> else b
      | Open \<Rightarrow>
          if now - br_last_probe b > ms (br_probe_interval b)
          then b\<lparr>br_state := HalfOpen\<rparr> else b
      | HalfOpen \<Rightarrow> b)"

definition allow :: "int \<Rightarrow> Breaker \<Rightarrow> bool \<times> Breaker" where
  "allow now b =
     (let b1 = evaluate now b in
      case br_state b1 of
        Closed \<Rightarrow> (True, b1\<lparr>br_last_sent := now\<rparr>)
      | HalfOpen \<Rightarrow> (True, b1\<lparr>br_last_sent := now, br_last_probe := now, br_state := Open\<rparr>)
      | Open \<Rightarrow> (False, b1))"

definition record_result :: "int \<Rightarrow> Breaker \<Rightarrow> Breaker" where
  "record_result now b = b\<lparr>br_last_result := now, br_state := Closed\<rparr>"

definition get_state :: "int \<Rightarrow> Breaker \<Rightarrow> State \<times> Breaker" where
  "get_state now b = (let b1 = evaluate now b in (br_state b1, b1))"

definition Breaker_state_string :: "Breaker \<Rightarrow> string" where
  "Breaker_state_string b = state_string (br_state b)"

section \<open>Runs\<close>

text \<open>
  The gateway's threads call the operations in some order, each with the clock value it
  reads under the lock. A run is the list of these calls; \<open>accepted\<close> collects the clock
  values at which a frame was let through.
\<close>

datatype call = Allow int | Result int | Query int

fun call_time :: "call \<Rightarrow> int" where
  "call_time (Allow t) = t"
| "call_time (Result t) = t"
| "call_time (Query t) = t"

fun breaker_step :: "call \<Rightarrow> Breaker \<Rightarrow> Breaker" where
  "breaker_step (Allow t) b = snd (allow t b)"
| "breaker_step (Result t) b = record_result t b"
| "breaker_step (Query t) b = snd (get_state t b)"

fun accepted :: "call list \<Rightarrow> Breaker \<Rightarrow> int list" where
  "accepted [] b = []"
| "accepted (c # cs) b =
     (case c of Allow t \<Rightarrow> if fst (allow t b) then [t] else [] | _ \<Rightarrow> []) @
     accepted cs (breaker_step c b)"

text \<open>The calls happen in the order of the clock, starting no earlier than \<open>t0\<close>.\<close>

fun clock_ordered :: "int \<Rightarrow> call list \<Rightarrow> bool" where
  "clock_ordered t0 [] = True"
| "clock_ordered t0 (c # cs) = (t0 \<le> call_time c \<and> clock_ordered (call_time c) cs)"

definition is_result :: "call \<Rightarrow> bool" where
  "is_result c = (case c of Result _ \<Rightarrow> True | _ \<Rightarrow> False)"

section \<open>Lemmas\<close>

lemmas breaker_defs = evaluate_def allow_def record_result_def get_state_def Let_def

lemma ms_mono [simp]: "ms a \<le> ms b \<longleftrightarrow> a \<le> b"
  by (simp add: ms_def)

text \<open>The configured durations never change.\<close>

lemma step_durations [simp]:
  "br_timeout (breaker_step c b) = br_timeout b"
  "br_probe_interval (breaker_step c b) = br_probe_interval b"
  by (cases c; simp add: breaker_defs split: State.splits)+

text \<open>Where the breaker cannot let a frame through before \<open>last_probe + probe_interval\<close>: it is
  open, or it is half-open and that instant has passed.\<close>

definition tripped :: "int \<Rightarrow> Breaker \<Rightarrow> bool" where
  "tripped now b =
     (br_state b = Open \<or>
      br_state b = HalfOpen \<and> now - br_last_probe b > ms (br_probe_interval b))"

lemma tripped_mono: "tripped t b \<Longrightarrow> t \<le> t' \<Longrightarrow> tripped t' b"
  by (auto simp: tripped_def)

lemma tripped_accept:
  assumes "tripped t b" and "fst (allow t b)"
  shows "t - br_last_probe b > ms (br_probe_interval b)"
    and "br_state (snd (allow t b)) = Open" and "br_last_probe (snd (allow t b)) = t"
  using assms by (auto simp: tripped_def breaker_defs split: State.splits if_splits)

lemma tripped_reject:
  assumes "tripped t b" and "\<not> fst (allow t b)"
  shows "snd (allow t b) = b"
  using assms by (auto simp: tripped_def breaker_defs split: State.splits if_splits)

lemma tripped_step:
  assumes "tripped t b" and "\<not> is_result c" and "call_time c = t"
  shows "tripped t (breaker_step c b)"
  using assms by (cases c) (auto simp: tripped_def is_result_def breaker_defs split: State.splits if_splits)

lemma tripped_query_probe:
  assumes "tripped t b"
  shows "br_last_probe (breaker_step (Query t) b) = br_last_probe b"
  using assms by (auto simp: tripped_def breaker_defs split: State.splits if_splits)

text \<open>In a run without results from a tripped breaker, every accepted frame comes more than a
  probe interval after the last probe, and after the previous accepted frame.\<close>

lemma tripped_run:
  assumes "clock_ordered t0 cs" and "tripped t0 b" and "list_all (\<lambda>c. \<not> is_result c) cs"
    and "br_last_probe b \<le> t0" and "0 \<le> br_probe_interval b"
  shows "(\<forall>t \<in> set (accepted cs b). t - br_last_probe b > ms (br_probe_interval b)) \<and>
    sorted_wrt (\<lambda>s t. t - s > ms (br_probe_interval b)) (accepted cs b)"
  using assms
proof (induction cs arbitrary: t0 b)
  case Nil
  then show ?case by simp
next
  case (Cons c cs)
  let ?t = "call_time c" and ?b = "breaker_step c b"
  have t: "t0 \<le> ?t" and ord: "clock_ordered ?t cs" using Cons.prems by simp_all
  have tr: "tripped ?t b" using Cons.prems(2) t by (rule tripped_mono)
  have tr': "tripped ?t ?b" using tr Cons.prems(3) by (simp add: tripped_step)
  have le: "br_last_probe b \<le> br_last_probe ?b \<and> br_last_probe ?b \<le> ?t"
  proof (cases c)
    case (Allow s)
    then show ?thesis using tripped_accept(1,3) [of s b] tripped_reject [of s b] tr Cons.prems t
      by (cases "fst (allow s b)") auto
  next
    case (Query s)
    then show ?thesis using tripped_query_probe [of s b] tr Cons.prems t by simp
  next
    case (Result s)
    then show ?thesis using Cons.prems(3) by (simp add: is_result_def)
  qed
  have IH: "(\<forall>u \<in> set (accepted cs ?b). u - br_last_probe ?b > ms (br_probe_interval b)) \<and>
      sorted_wrt (\<lambda>s u. u - s > ms (br_probe_interval b)) (accepted cs ?b)"
    using Cons.IH [OF ord tr'] Cons.prems le by simp
  show ?case
  proof (cases "\<exists>s. c = Allow s \<and> fst (allow s b)")
    case True
    then obtain s where s: "c = Allow s" "fst (allow s b)" by blast
    with tr tripped_accept [of s b] IH le show ?thesis by fastforce
  next
    case False
    then have "accepted (c # cs) b = accepted cs ?b" by (auto split: call.splits)
    with IH le show ?thesis by fastforce
  qed
qed

interpretation breaker_durations: step_machine breaker_step
  "\<lambda>b. br_timeout b = T \<and> br_probe_interval b = P" for T P
  by unfold_locales simp

text \<open>No recorded time point lies in the future.\<close>

definition recorded_by :: "int \<Rightarrow> Breaker \<Rightarrow> bool" where
  "recorded_by now b = (br_last_sent b \<le> now \<and> br_last_result b \<le> now \<and> br_last_probe b \<le> now)"

lemma recorded_by_step [inv_intros]:
  "recorded_by t b \<Longrightarrow> t \<le> call_time c \<Longrightarrow> recorded_by (call_time c) (breaker_step c b)"
  by (cases c) (auto simp: recorded_by_def breaker_defs split: State.splits)

lemma recorded_by_run:
  "clock_ordered t cs \<Longrightarrow> recorded_by t b \<Longrightarrow>
     recorded_by (last (t # map call_time cs)) (fold breaker_step cs b)"
  by (induction cs arbitrary: t b) (auto simp: recorded_by_step)

lemma allow_after_result:
  assumes "recorded_by t b" and "t \<le> t'"
  shows "fst (allow t' (record_result t b))"
  using assms by (simp add: recorded_by_def breaker_defs)

text \<open>Frames that follow each other within the timeout.\<close>

fun gaps_within :: "int \<Rightarrow> int list \<Rightarrow> bool" where
  "gaps_within d (s # t # ts) = (t - s \<le> d \<and> gaps_within d (t # ts))"
| "gaps_within d _ = True"

lemma closed_under_load:
  assumes "br_state b = Closed" and "gaps_within (ms (br_timeout b)) (br_last_sent b # ts)"
  shows "accepted (map Allow ts) b = ts \<and> br_state (fold breaker_step (map Allow ts) b) = Closed"
  using assms
proof (induction ts arbitrary: b)
  case Nil
  then show ?case by simp
next
  case (Cons t ts)
  have now: "allow t b = (True, b\<lparr>br_last_sent := t\<rparr>)"
    using Cons.prems by (simp add: breaker_defs)
  from Cons.IH [of "b\<lparr>br_last_sent := t\<rparr>"] Cons.prems show ?case by (simp add: now)
qed

section \<open>Properties of the breaker\<close>

text \<open>
  C13. Once the breaker is open and while no result arrives, frames are let through only as
  probes: in any run of calls in clock order, two accepted frames are more than the probe
  interval apart, and the first one is more than the probe interval after the breaker opened
  or last probed.
\<close>

theorem breaker_probe_spacing:
  assumes "br_state b = Open" and "br_last_probe b \<le> t0" and "0 \<le> br_probe_interval b"
    and "clock_ordered t0 cs" and "list_all (\<lambda>c. \<not> is_result c) cs"
  shows "sorted_wrt (\<lambda>s t. t - s > ms (br_probe_interval b)) (br_last_probe b # accepted cs b)"
  using tripped_run [of t0 cs b] assms by (auto simp: tripped_def)

theorem breaker_probe_spacing_witness:
  "sorted_wrt (\<lambda>s t. t - s > ms 10000)
     (1 # accepted [Allow 2, Allow 20000000000, Query 20000000001, Allow 40000000000]
       \<lparr>br_state = Open, br_timeout = 30000, br_probe_interval = 10000,
        br_last_sent = 1, br_last_result = 0, br_last_probe = 1\<rparr>)"
  using breaker_probe_spacing [of "\<lparr>br_state = Open, br_timeout = 30000, br_probe_interval = 10000,
        br_last_sent = 1, br_last_result = 0, br_last_probe = 1\<rparr>" 1
      "[Allow 2, Allow 20000000000, Query 20000000001, Allow 40000000000]"]
  by (simp add: is_result_def)

text \<open>
  A result always recovers the breaker: after any run of calls from the initial state,
  in clock order, that ends with a result, the breaker is closed and the next frame is
  accepted, however late it comes.
\<close>

theorem breaker_recovers_on_result:
  assumes "clock_ordered 0 (cs @ [Result t])" and "t \<le> t'"
  shows "br_state (fold breaker_step (cs @ [Result t]) (Breaker_init timeout probe)) = Closed \<and>
         fst (allow t' (fold breaker_step (cs @ [Result t]) (Breaker_init timeout probe)))"
proof -
  let ?b = "fold breaker_step cs (Breaker_init timeout probe)"
  have init: "recorded_by 0 (Breaker_init timeout probe)"
    by (simp add: recorded_by_def Breaker_init_def)
  have split: "clock_ordered s cs \<and> last (s # map call_time cs) \<le> t"
    if "clock_ordered s (cs @ [Result t])" for s
    using that by (induction cs arbitrary: s) auto
  with assms(1) have "clock_ordered 0 cs" and le: "last (0 # map call_time cs) \<le> t" by auto
  then have "recorded_by t ?b"
    using recorded_by_run [OF _ init, of cs] by (simp add: recorded_by_def)
  then show ?thesis using allow_after_result [of t ?b t'] assms(2)
    by (simp add: record_result_def)
qed

theorem breaker_recovers_on_result_witness:
  "fst (allow 90 (fold breaker_step [Allow 5, Allow 80, Result 81] (Breaker_init 0 0)))"
  using breaker_recovers_on_result [of "[Allow 5, Allow 80]" 81 90 0 0] by simp

text \<open>
  The breaker does not trip while frames keep coming: if every frame follows the
  previous one within the timeout, then every frame of the run is accepted and the breaker
  stays closed, although no result is ever received. The comment in \<^verbatim>\<open>evaluate\<close> says that the
  breaker trips when no result arrived within the timeout.
\<close>

theorem breaker_never_trips_under_load:
  assumes "gaps_within (ms timeout) (t # ts)"
  shows "accepted (map Allow (t # ts)) (Breaker_init timeout probe) = t # ts \<and>
         br_state (fold breaker_step (map Allow (t # ts)) (Breaker_init timeout probe)) = Closed"
proof -
  have first: "allow t (Breaker_init timeout probe) =
      (True, (Breaker_init timeout probe)\<lparr>br_last_sent := t\<rparr>)"
    by (simp add: breaker_defs Breaker_init_def)
  have "br_state ((Breaker_init timeout probe)\<lparr>br_last_sent := t\<rparr>) = Closed"
    by (simp add: Breaker_init_def)
  from closed_under_load [OF this, of ts] assms show ?thesis
    by (simp add: first) (simp add: Breaker_init_def)
qed

theorem breaker_never_trips_under_load_witness:
  "accepted (map Allow [1, 20000000000, 40000000000, 60000000000, 80000000000]) (Breaker_init 30000 10000)
     = [1, 20000000000, 40000000000, 60000000000, 80000000000]"
  using breaker_never_trips_under_load
    [of 30000 1 "[20000000000, 40000000000, 60000000000, 80000000000]" 10000]
  by (simp add: ms_def)

text \<open>
  A gap longer than the timeout after an unanswered frame trips the breaker: the next
  frame is rejected, the breaker is open, and the probe interval starts at that instant.
\<close>

theorem breaker_trips_after_gap:
  assumes "br_state b = Closed" and "br_last_sent b \<noteq> 0" and "br_last_result b < br_last_sent b"
    and "now - br_last_sent b > ms (br_timeout b)"
  shows "\<not> fst (allow now b) \<and> br_state (snd (allow now b)) = Open \<and>
         br_last_probe (snd (allow now b)) = now \<and>
         (\<forall>t. t - now \<le> ms (br_probe_interval b) \<longrightarrow> \<not> fst (allow t (snd (allow now b))))"
  using assms by (simp add: breaker_defs)

theorem breaker_trips_after_gap_witness:
  "\<not> fst (allow 30000000006 (snd (allow 5 (Breaker_init 30000 10000))))"
  using breaker_trips_after_gap [of "snd (allow 5 (Breaker_init 30000 10000))" 30000000006]
  by (simp add: breaker_defs Breaker_init_def ms_def)

end
