(* ===== verification/Ws_Hub.thy ===== *)
theory Ws_Hub
  imports EyeD_Prelude
begin

text \<open>
  The gateway's WebSocket hubs: \<^verbatim>\<open>gateway/src/ws_hub.cpp\<close> (results broadcast to every
  client) and \<^verbatim>\<open>signaling_hub.cpp\<close> (WebRTC signalling between a capture device and its
  viewers). A session is named by its address; sets and maps keyed by sessions iterate in
  address order. What the network does is the parameter \<open>net\<close>: whether a session is open and
  whether \<^verbatim>\<open>send\<close> throws. Every operation runs under the hub's mutex and returns the new state
  and the messages it delivered, in order.
\<close>

section \<open>Sessions\<close>

type_synonym session = nat

record net =
  is_open :: "session \<Rightarrow> bool"
  send_throws :: "session \<Rightarrow> string \<Rightarrow> bool"

type_synonym delivery = "session \<times> string"

definition delivers :: "net \<Rightarrow> string \<Rightarrow> session \<Rightarrow> bool" where
  "delivers net msg s = (is_open net s \<and> \<not> send_throws net s msg)"

section \<open>WsHub\<close>

record WsHub =
  clients :: "session set"

definition WsHub_init :: WsHub where
  "WsHub_init = \<lparr>clients = {}\<rparr>"

definition add_client :: "session \<Rightarrow> WsHub \<Rightarrow> WsHub" where
  "add_client s h = h\<lparr>clients := insert s (clients h)\<rparr>"

definition remove_client :: "session \<Rightarrow> WsHub \<Rightarrow> WsHub" where
  "remove_client s h = h\<lparr>clients := clients h - {s}\<rparr>"

text \<open>
  The loop over the sessions in address order: an open session whose send returns stays,
  every other one is erased. The loop carries the current set and the deliveries so far.
\<close>

fun send_loop :: "net \<Rightarrow> string \<Rightarrow> session list \<Rightarrow> session set \<Rightarrow> session set \<times> delivery list" where
  "send_loop net msg [] ss = (ss, [])"
| "send_loop net msg (s # rest) ss =
     (if is_open net s
      then if send_throws net s msg
           then send_loop net msg rest (ss - {s})
           else (case send_loop net msg rest ss of (ss', out) \<Rightarrow> (ss', (s, msg) # out))
      else send_loop net msg rest (ss - {s}))"

definition broadcast :: "(json \<Rightarrow> string) \<Rightarrow> net \<Rightarrow> json \<Rightarrow> WsHub \<Rightarrow> WsHub \<times> delivery list" where
  "broadcast dump net message h =
     (let msg_str = dump message;
          (cs, out) = send_loop net msg_str (sorted_list_of_set (clients h)) (clients h)
      in (h\<lparr>clients := cs\<rparr>, out))"

definition client_count :: "WsHub \<Rightarrow> nat" where
  "client_count h = card (clients h)"

section \<open>SignalingHub\<close>

record SignalingHub =
  devices :: "string \<rightharpoonup> session"
  viewers :: "string \<rightharpoonup> session set"
  session_device :: "session \<rightharpoonup> string"
  session_role :: "session \<rightharpoonup> string"

definition SignalingHub_init :: SignalingHub where
  "SignalingHub_init =
     \<lparr>devices = Map.empty, viewers = Map.empty, session_device = Map.empty, session_role = Map.empty\<rparr>"

text \<open>\<^verbatim>\<open>operator[]\<close> of a map: the stored value, or a default that is stored then.\<close>

definition at_or :: "'v \<Rightarrow> ('k \<rightharpoonup> 'v) \<Rightarrow> 'k \<Rightarrow> 'v" where
  "at_or d m k = (case m k of None \<Rightarrow> d | Some v \<Rightarrow> v)"

definition presence_msg :: "string \<Rightarrow> string \<Rightarrow> json" where
  "presence_msg device_id event =
     JObj [(''type'', JStr ''presence''), (''device_id'', JStr device_id), (''event'', JStr event)]"

text \<open>The presence broadcast ignores every failure and erases nobody.\<close>

definition broadcast_presence ::
  "(json \<Rightarrow> string) \<Rightarrow> net \<Rightarrow> string \<Rightarrow> string \<Rightarrow> SignalingHub \<Rightarrow> delivery list" where
  "broadcast_presence dump net device_id event h =
     (let msg = dump (presence_msg device_id event) in
      case viewers h device_id of
        None \<Rightarrow> []
      | Some vs \<Rightarrow> map (\<lambda>s. (s, msg)) (filter (delivers net msg) (sorted_list_of_set vs)))"

definition register_device ::
  "(json \<Rightarrow> string) \<Rightarrow> net \<Rightarrow> string \<Rightarrow> session \<Rightarrow> SignalingHub \<Rightarrow> SignalingHub \<times> delivery list" where
  "register_device dump net device_id s h =
     (let h1 = h\<lparr>devices := (devices h)(device_id \<mapsto> s),
                 session_device := (session_device h)(s \<mapsto> device_id),
                 session_role := (session_role h)(s \<mapsto> ''device'')\<rparr>
      in (h1, broadcast_presence dump net device_id ''join'' h1))"

definition register_viewer :: "string \<Rightarrow> session \<Rightarrow> SignalingHub \<Rightarrow> SignalingHub" where
  "register_viewer device_id s h =
     h\<lparr>viewers := (viewers h)(device_id \<mapsto> insert s (at_or {} (viewers h) device_id)),
       session_device := (session_device h)(s \<mapsto> device_id),
       session_role := (session_role h)(s \<mapsto> ''viewer'')\<rparr>"

definition unregister ::
  "(json \<Rightarrow> string) \<Rightarrow> net \<Rightarrow> session \<Rightarrow> SignalingHub \<Rightarrow> SignalingHub \<times> delivery list" where
  "unregister dump net s h =
     (case session_device h s of
        None \<Rightarrow> (h, [])
      | Some device_id \<Rightarrow>
          let role = at_or [] (session_role h) s;
              (h1, out) =
                (if role = ''device''
                 then let h' = h\<lparr>devices := (devices h)(device_id := None)\<rparr>
                      in (h', broadcast_presence dump net device_id ''leave'' h')
                 else let viewer_set = at_or {} (viewers h) device_id - {s}
                      in (h\<lparr>viewers := (viewers h)(device_id :=
                              (if viewer_set = {} then None else Some viewer_set))\<rparr>, []))
          in (h1\<lparr>session_device := (session_device h1)(s := None),
                 session_role := (session_role h1)(s := None)\<rparr>, out))"

definition relay :: "net \<Rightarrow> session \<Rightarrow> string \<Rightarrow> SignalingHub \<Rightarrow> SignalingHub \<times> delivery list" where
  "relay net sender msg h =
     (case session_device h sender of
        None \<Rightarrow> (h, [])
      | Some device_id \<Rightarrow>
          let role = at_or [] (session_role h) sender;
              h0 = h\<lparr>session_role := (session_role h)(sender \<mapsto> role)\<rparr>
          in if role = ''device''
             then (case viewers h0 device_id of
                     None \<Rightarrow> (h0, [])
                   | Some vs \<Rightarrow>
                       let (vs', out) = send_loop net msg (sorted_list_of_set vs) vs
                       in (h0\<lparr>viewers := (viewers h0)(device_id \<mapsto> vs')\<rparr>, out))
             else (case devices h0 device_id of
                     None \<Rightarrow> (h0, [])
                   | Some d \<Rightarrow>
                       if is_open net d
                       then if send_throws net d msg
                            then (h0\<lparr>devices := (devices h0)(device_id := None)\<rparr>, [])
                            else (h0, [(d, msg)])
                       else (h0, [])))"

definition device_count :: "SignalingHub \<Rightarrow> nat" where
  "device_count h = card (dom (devices h))"

definition viewer_count :: "SignalingHub \<Rightarrow> nat" where
  "viewer_count h = (\<Sum>d \<in> dom (viewers h). card (the (viewers h d)))"

section \<open>The send loop\<close>

lemma send_loop_eq:
  "send_loop net msg xs ss =
     (ss - {s \<in> set xs. \<not> delivers net msg s},
      map (\<lambda>s. (s, msg)) (filter (delivers net msg) xs))"
  by (induction xs arbitrary: ss) (auto simp: delivers_def)

lemma send_loop_set:
  assumes "finite ss"
  shows "send_loop net msg (sorted_list_of_set ss) ss =
    ({s \<in> ss. delivers net msg s},
     map (\<lambda>s. (s, msg)) (filter (delivers net msg) (sorted_list_of_set ss)))"
  using assms by (auto simp: send_loop_eq)

section \<open>Invariant of the signalling hub\<close>

text \<open>
  The two reverse maps agree; every registered device or viewer is known to them with its
  role and its device identifier; there are finitely many viewers.
\<close>

definition hub_inv :: "SignalingHub \<Rightarrow> bool" where
  "hub_inv h =
     (dom (session_device h) = dom (session_role h) \<and>
      (\<forall>s r. session_role h s = Some r \<longrightarrow> r = ''device'' \<or> r = ''viewer'') \<and>
      (\<forall>d s. devices h d = Some s \<longrightarrow>
         session_device h s = Some d \<and> session_role h s = Some ''device'') \<and>
      (\<forall>d vs v. viewers h d = Some vs \<longrightarrow> v \<in> vs \<longrightarrow>
         session_device h v = Some d \<and> session_role h v = Some ''viewer'') \<and>
      (\<forall>d vs. viewers h d = Some vs \<longrightarrow> finite vs))"

lemma hub_inv_init: "hub_inv SignalingHub_init"
  by (simp add: hub_inv_def SignalingHub_init_def)

lemma register_device_inv [inv_intros]:
  assumes "hub_inv h" and "session_device h s = None"
  shows "hub_inv (fst (register_device dump net d s h))"
proof -
  have "session_role h s = None" using assms by (auto simp: hub_inv_def domIff dest: equalityD1)
  then show ?thesis using assms
    by (fastforce simp: hub_inv_def register_device_def Let_def)
qed

lemma register_viewer_inv [inv_intros]:
  assumes "hub_inv h" and "session_device h s = None"
  shows "hub_inv (register_viewer d s h)"
proof -
  have "session_role h s = None" using assms by (auto simp: hub_inv_def domIff dest: equalityD1)
  then show ?thesis using assms
    by (fastforce simp: hub_inv_def register_viewer_def at_or_def split: option.splits)
qed

lemma unregister_inv [inv_intros]:
  assumes "hub_inv h"
  shows "hub_inv (fst (unregister dump net s h))"
  using assms
  by (fastforce simp: hub_inv_def unregister_def at_or_def Let_def split: option.splits if_splits)

lemma hub_inv_role:
  assumes "hub_inv h" and "session_device h s = Some d"
  shows "session_role h s = Some ''device'' \<or> session_role h s = Some ''viewer''"
proof -
  from assms have "s \<in> dom (session_role h)" unfolding hub_inv_def by blast
  then show ?thesis using assms by (auto simp: hub_inv_def)
qed

lemma role_write_back: "session_role h s = Some r \<Longrightarrow> h\<lparr>session_role := (session_role h)(s \<mapsto> r)\<rparr> = h"
  by (simp add: map_upd_triv)

text \<open>Under the invariant a relay is one of three: nothing, a device to its viewers, a viewer
  to its device.\<close>

lemma relay_device:
  assumes "hub_inv h" and "session_device h s = Some d" and "session_role h s = Some ''device''"
    and "viewers h d = Some vs"
  shows "relay net s msg h =
    (h\<lparr>viewers := (viewers h)(d \<mapsto> {v \<in> vs. delivers net msg v})\<rparr>,
     map (\<lambda>v. (v, msg)) (filter (delivers net msg) (sorted_list_of_set vs)))"
proof -
  have "finite vs" using assms by (auto simp: hub_inv_def)
  then show ?thesis
    using assms by (simp add: relay_def at_or_def Let_def role_write_back send_loop_set)
qed

lemma relay_viewer:
  assumes "hub_inv h" and "session_device h s = Some d" and "session_role h s = Some ''viewer''"
    and "devices h d = Some t"
  shows "relay net s msg h =
    (if is_open net t \<and> send_throws net t msg then h\<lparr>devices := (devices h)(d := None)\<rparr> else h,
     if delivers net msg t then [(t, msg)] else [])"
  using assms by (auto simp: relay_def at_or_def Let_def role_write_back delivers_def)

lemma relay_none:
  assumes "hub_inv h"
    and "session_device h s = None \<or>
      (\<exists>d. session_device h s = Some d \<and>
        (session_role h s = Some ''device'' \<and> viewers h d = None \<or>
         session_role h s = Some ''viewer'' \<and> devices h d = None))"
  shows "relay net s msg h = (h, [])"
  using assms by (auto simp: relay_def at_or_def Let_def role_write_back)

lemma relay_cases:
  assumes "hub_inv h"
  obtains (none) "relay net s msg h = (h, [])"
  | (device) d vs where "session_device h s = Some d" "session_role h s = Some ''device''"
      "viewers h d = Some vs"
  | (viewer) d t where "session_device h s = Some d" "session_role h s = Some ''viewer''"
      "devices h d = Some t"
proof (cases "session_device h s")
  case None
  with assms relay_none none show ?thesis by blast
next
  case (Some d)
  from hub_inv_role [OF assms Some] show ?thesis
    using Some device viewer none relay_none [OF assms, of s net msg]
    by (cases "viewers h d"; cases "devices h d") blast+
qed

lemma relay_inv [inv_intros]:
  assumes "hub_inv h"
  shows "hub_inv (fst (relay net s msg h))"
proof -
  from assms consider "relay net s msg h = (h, [])"
    | d vs where "session_device h s = Some d" "session_role h s = Some ''device''" "viewers h d = Some vs"
    | d t where "session_device h s = Some d" "session_role h s = Some ''viewer''" "devices h d = Some t"
    by (rule relay_cases)
  then show ?thesis
  proof cases
    case 1
    with assms show ?thesis by simp
  next
    case 2
    from relay_device [OF assms 2] assms 2 show ?thesis by (fastforce simp: hub_inv_def)
  next
    case 3
    from relay_viewer [OF assms 3] assms 3 show ?thesis by (fastforce simp: hub_inv_def)
  qed
qed

section \<open>Reachable hubs\<close>

text \<open>
  The calls the HTTP server makes: \<^verbatim>\<open>handle_ws_signaling\<close> registers each new session once, relays
  its messages and unregisters it; the connections interleave freely, and the network may
  behave differently at every call.
\<close>

inductive hub_reachable :: "(json \<Rightarrow> string) \<Rightarrow> SignalingHub \<Rightarrow> bool" for dump where
  init: "hub_reachable dump SignalingHub_init"
| device: "hub_reachable dump h \<Longrightarrow> session_device h s = None \<Longrightarrow>
    hub_reachable dump (fst (register_device dump net d s h))"
| viewer: "hub_reachable dump h \<Longrightarrow> session_device h s = None \<Longrightarrow>
    hub_reachable dump (register_viewer d s h)"
| leave: "hub_reachable dump h \<Longrightarrow> hub_reachable dump (fst (unregister dump net s h))"
| message: "hub_reachable dump h \<Longrightarrow> hub_reachable dump (fst (relay net s msg h))"

lemma hub_reachable_inv: "hub_reachable dump h \<Longrightarrow> hub_inv h"
  by (induction rule: hub_reachable.induct) (auto intro: hub_inv_init inv_intros)

text \<open>The calls on the results hub.\<close>

datatype ws_call = AddClient session | RemoveClient session | Broadcast net json

fun ws_step :: "(json \<Rightarrow> string) \<Rightarrow> ws_call \<Rightarrow> WsHub \<Rightarrow> WsHub" where
  "ws_step dump (AddClient s) h = add_client s h"
| "ws_step dump (RemoveClient s) h = remove_client s h"
| "ws_step dump (Broadcast net j) h = fst (broadcast dump net j h)"

lemma broadcast_eq:
  assumes "finite (clients h)"
  shows "broadcast dump net j h =
    (h\<lparr>clients := {s \<in> clients h. delivers net (dump j) s}\<rparr>,
     map (\<lambda>s. (s, dump j)) (filter (delivers net (dump j)) (sorted_list_of_set (clients h))))"
  by (simp add: broadcast_def Let_def send_loop_set [OF assms])

interpretation ws_finite: step_machine "ws_step dump" "\<lambda>h :: WsHub. finite (clients h)" for dump
proof
  fix h :: WsHub and e assume "finite (clients h)"
  then show "finite (clients (ws_step dump e h))"
    by (cases e) (simp_all add: add_client_def remove_client_def broadcast_eq)
qed

section \<open>Properties of the hubs\<close>

text \<open>
  C14. Signalling never crosses devices: in every reachable state of the signalling hub, a
  relayed message is delivered unchanged, only to open sessions registered for the sender's own
  device identifier, and only to the other side: from the device to viewers, from a viewer
  to the device.
\<close>

theorem relay_stays_with_device:
  assumes "hub_reachable dump h" and "(t, m) \<in> set (snd (relay net s msg h))"
  shows "m = msg \<and> is_open net t \<and>
    (\<exists>d. session_device h s = Some d \<and> session_device h t = Some d \<and>
      (session_role h s = Some ''device'' \<and> session_role h t = Some ''viewer'' \<or>
       session_role h s = Some ''viewer'' \<and> session_role h t = Some ''device''))"
proof -
  have inv: "hub_inv h" using assms(1) by (rule hub_reachable_inv)
  then consider "relay net s msg h = (h, [])"
    | d vs where "session_device h s = Some d" "session_role h s = Some ''device''" "viewers h d = Some vs"
    | d t' where "session_device h s = Some d" "session_role h s = Some ''viewer''" "devices h d = Some t'"
    by (rule relay_cases)
  then show ?thesis
  proof cases
    case 1
    with assms(2) show ?thesis by simp
  next
    case 2
    then have "finite vs" using inv by (auto simp: hub_inv_def)
    with relay_device [OF inv 2] assms(2) 2 inv show ?thesis
      by (auto simp: delivers_def hub_inv_def)
  next
    case 3
    with relay_viewer [OF inv 3] assms(2) inv show ?thesis
      by (auto simp: delivers_def hub_inv_def split: if_splits)
  qed
qed

definition sample_hub :: SignalingHub where
  "sample_hub = register_viewer ''cam'' 2
     (fst (register_device (\<lambda>_. []) \<lparr>is_open = \<lambda>_. True, send_throws = \<lambda>_ _. False\<rparr> ''cam'' 1
        SignalingHub_init))"

theorem relay_stays_with_device_witness:
  "session_role sample_hub 2 = Some ''viewer'' \<and>
   (2, ''hi'') \<in> set (snd (relay \<lparr>is_open = \<lambda>_. True, send_throws = \<lambda>_ _. False\<rparr> 1 ''hi'' sample_hub))"
proof -
  let ?net = "\<lparr>is_open = \<lambda>_. True, send_throws = \<lambda>_ _. False\<rparr>"
  have "hub_reachable (\<lambda>_. []) sample_hub"
    unfolding sample_hub_def
    by (rule hub_reachable.viewer [OF hub_reachable.device [OF hub_reachable.init]])
      (simp_all add: SignalingHub_init_def register_device_def Let_def)
  moreover have "(2, ''hi'') \<in> set (snd (relay ?net 1 ''hi'' sample_hub))"
    by (simp add: sample_hub_def relay_def register_device_def register_viewer_def
        SignalingHub_init_def at_or_def Let_def)
  moreover have "session_role sample_hub 1 = Some ''device''"
    by (simp add: sample_hub_def register_device_def register_viewer_def Let_def)
  ultimately show ?thesis
    using relay_stays_with_device [of "\<lambda>_. []" sample_hub 2 "''hi''" ?net 1 "''hi''"] by auto
qed

text \<open>
  A result broadcast reaches exactly the live clients: after any sequence of additions,
  removals and broadcasts, a broadcast sends the message once to every client that is
  open and whose send returns, in address order, and keeps exactly those clients.
\<close>

theorem broadcast_exact:
  "(let h = fold (ws_step dump) calls WsHub_init;
        live = {s \<in> clients h. is_open net s \<and> \<not> send_throws net s (dump j)};
        (h', out) = broadcast dump net j h
    in clients h' = live \<and> client_count h' = card live \<and>
       map fst out = sorted_list_of_set live \<and> (\<forall>m. m \<in> snd ` set out \<longrightarrow> m = dump j))"
proof -
  let ?h = "fold (ws_step dump) calls WsHub_init"
  have fin: "finite (clients ?h)" by (rule ws_finite.run_keeps) (simp add: WsHub_init_def)
  have "filter P (sorted_list_of_set A) = sorted_list_of_set {s \<in> A. P s}" if "finite A"
    for P and A :: "session set"
    using that by (intro sorted_distinct_set_unique) (auto simp: sorted_filter [where f = id, simplified])
  with fin show ?thesis
    by (auto simp: broadcast_eq Let_def client_count_def delivers_def comp_def)
qed

theorem broadcast_exact_witness:
  "snd (broadcast (\<lambda>_. ''r'') \<lparr>is_open = \<lambda>s. s \<noteq> 5, send_throws = \<lambda>_ _. False\<rparr> JNull
     (fold (ws_step (\<lambda>_. ''r'')) [AddClient 7, AddClient 5, AddClient 3] WsHub_init)) =
   [(3, ''r''), (7, ''r'')]"
proof -
  let ?net = "\<lparr>is_open = \<lambda>s. s \<noteq> 5, send_throws = \<lambda>_ _. False\<rparr>"
  let ?h = "fold (ws_step (\<lambda>_. ''r'')) [AddClient 7, AddClient 5, AddClient 3] WsHub_init"
  have "{s \<in> clients ?h. is_open ?net s \<and> \<not> send_throws ?net s ''r''} = {3, 7}"
    by (auto simp: WsHub_init_def add_client_def)
  with broadcast_exact [of "\<lambda>_. ''r''" "[AddClient 7, AddClient 5, AddClient 3]" ?net JNull]
  have out: "map fst (snd (broadcast (\<lambda>_. ''r'') ?net JNull ?h)) = [3, 7]"
    and msgs: "\<forall>m. m \<in> snd ` set (snd (broadcast (\<lambda>_. ''r'') ?net JNull ?h)) \<longrightarrow> m = ''r''"
    by (auto simp: Let_def split: prod.splits)
  from msgs have "\<forall>x \<in> set (snd (broadcast (\<lambda>_. ''r'') ?net JNull ?h)). x = (fst x, ''r'')"
    by (metis image_eqI prod.collapse)
  then have "snd (broadcast (\<lambda>_. ''r'') ?net JNull ?h) =
      map (\<lambda>s. (s, ''r'')) (map fst (snd (broadcast (\<lambda>_. ''r'') ?net JNull ?h)))"
    by (simp add: map_idI)
  with out show ?thesis by simp
qed

text \<open>
  Unregistering a superseded device session drops its successor: when a device
  reconnects with a new session before the old one is unregistered, unregistering the old
  session erases the device entry that points to the new one and announces that the device
  left, although the new session is still registered as the device; a viewer's message then
  reaches nobody.
\<close>

theorem unregister_drops_reconnected_device:
  assumes "hub_reachable dump h" and "session_device h old = Some d"
    and "session_role h old = Some ''device''" and "session_device h new = None" and "old \<noteq> new"
  shows "let h1 = fst (register_device dump net d new h);
             h2 = fst (unregister dump net old h1)
         in devices h1 d = Some new \<and> devices h2 d = None \<and>
            session_device h2 new = Some d \<and> session_role h2 new = Some ''device'' \<and>
            (\<forall>v. session_device h2 v = Some d \<longrightarrow> session_role h2 v = Some ''viewer'' \<longrightarrow>
               relay net v msg h2 = (h2, []))"
proof -
  let ?h2 = "fst (unregister dump net old (fst (register_device dump net d new h)))"
  have "hub_reachable dump ?h2"
    using assms by (intro hub_reachable.leave hub_reachable.device)
  then have inv: "hub_inv ?h2" by (rule hub_reachable_inv)
  have "devices ?h2 d = None"
    using assms by (simp add: unregister_def register_device_def at_or_def Let_def)
  then have "relay net v msg ?h2 = (?h2, [])"
    if "session_device ?h2 v = Some d" "session_role ?h2 v = Some ''viewer''" for v
    using relay_none [OF inv] that by blast
  then show ?thesis
    using assms by (simp add: unregister_def register_device_def at_or_def Let_def)
qed

theorem unregister_drops_reconnected_device_witness:
  "devices (fst (unregister (\<lambda>_. []) \<lparr>is_open = \<lambda>_. True, send_throws = \<lambda>_ _. False\<rparr> 1
     (fst (register_device (\<lambda>_. []) \<lparr>is_open = \<lambda>_. True, send_throws = \<lambda>_ _. False\<rparr> ''cam'' 3
       sample_hub)))) ''cam'' = None"
proof -
  have "hub_reachable (\<lambda>_. []) sample_hub"
    unfolding sample_hub_def
    by (rule hub_reachable.viewer [OF hub_reachable.device [OF hub_reachable.init]])
      (simp_all add: SignalingHub_init_def register_device_def Let_def)
  then show ?thesis
    using unregister_drops_reconnected_device
      [of "\<lambda>_. []" sample_hub 1 "''cam''" 3 "\<lparr>is_open = \<lambda>_. True, send_throws = \<lambda>_ _. False\<rparr>" "[]"]
    by (auto simp: sample_hub_def register_device_def register_viewer_def SignalingHub_init_def Let_def)
qed

end
