(* ===== verification/Gateway.thy ===== *)
theory Gateway
  imports Base64 Calendar Breaker Ws_Hub
begin

text \<open>
  The frame path of the gateway: configuration (\<^verbatim>\<open>gateway/src/config.h\<close>), the NATS client
  (\<^verbatim>\<open>nats_client.cpp\<close>), the gRPC service (\<^verbatim>\<open>grpc_server.cpp\<close>) and the result callback of
  \<^verbatim>\<open>main.cpp\<close>, over the breaker and the results hub. The outcomes of the NATS library's calls,
  the clock values, the JSON parser and printer are parameters.
\<close>

section \<open>Config\<close>

record GatewayConfig =
  nats_url :: string
  grpc_port :: string
  http_port :: string
  log_level :: string

definition getenv_or :: "(string \<Rightarrow> string option) \<Rightarrow> string \<Rightarrow> string \<Rightarrow> string" where
  "getenv_or env key fallback =
     (case env key of None \<Rightarrow> fallback | Some val \<Rightarrow> if val \<noteq> [] then val else fallback)"

definition Config_from_env :: "(string \<Rightarrow> string option) \<Rightarrow> GatewayConfig" where
  "Config_from_env env =
     \<lparr>nats_url = getenv_or env ''EYED_NATS_URL'' ''nats://nats:4222'',
      grpc_port = getenv_or env ''EYED_GRPC_PORT'' ''50051'',
      http_port = getenv_or env ''EYED_HTTP_PORT'' ''8080'',
      log_level = getenv_or env ''EYED_LOG_LEVEL'' ''info''\<rparr>"

section \<open>NatsClient\<close>

text \<open>
  The handles are booleans (null or not); \<open>nc_wire\<close> is what was handed to the NATS connection,
  as subject and payload. \<open>nats_env\<close> holds the outcomes of the library's calls.
\<close>

record nats_env =
  options_ok :: bool
  connect_ok :: bool
  publish_ok :: bool
  subscribe_ok :: bool
  conn_connected :: bool

record NatsClient =
  nc_url :: string
  nc_conn :: bool
  nc_sub :: bool
  nc_published :: u64
  nc_callback :: bool
  nc_wire :: "(string \<times> string) list"

definition NatsClient_init :: "string \<Rightarrow> NatsClient" where
  "NatsClient_init url =
     \<lparr>nc_url = url, nc_conn = False, nc_sub = False, nc_published = 0, nc_callback = False, nc_wire = []\<rparr>"

definition connect :: "nats_env \<Rightarrow> NatsClient \<Rightarrow> bool \<times> NatsClient" where
  "connect e c =
     (if \<not> options_ok e then (False, c)
      else if connect_ok e then (True, c\<lparr>nc_conn := True\<rparr>) else (False, c))"

definition publish_analyze :: "(json \<Rightarrow> string) \<Rightarrow> nats_env \<Rightarrow> json \<Rightarrow> NatsClient \<Rightarrow> bool \<times> NatsClient" where
  "publish_analyze dump e request c =
     (if \<not> nc_conn c then (False, c)
      else let payload = dump request in
           if publish_ok e
           then (True, c\<lparr>nc_published := nc_published c + 1, nc_wire := nc_wire c @ [(''eyed.analyze'', payload)]\<rparr>)
           else (False, c))"

definition subscribe_results :: "nats_env \<Rightarrow> NatsClient \<Rightarrow> bool \<times> NatsClient" where
  "subscribe_results e c =
     (if \<not> nc_conn c then (False, c)
      else (subscribe_ok e, c\<lparr>nc_callback := True, nc_sub := (nc_sub c \<or> subscribe_ok e)\<rparr>))"

definition is_connected :: "nats_env \<Rightarrow> NatsClient \<Rightarrow> bool" where
  "is_connected e c = (if \<not> nc_conn c then False else conn_connected e)"

definition NatsClient_close :: "NatsClient \<Rightarrow> NatsClient" where
  "NatsClient_close c = c\<lparr>nc_sub := False, nc_conn := False\<rparr>"

section \<open>The gRPC service\<close>

record CaptureFrame =
  jpeg_data :: string
  quality_score :: double
  timestamp_us :: u64
  cf_frame_id :: u32
  cf_device_id :: string
  is_nir :: bool
  eye_side :: string

record FrameAck =
  ack_frame_id :: u32
  ack_accepted :: bool
  queue_depth :: u32

record ServerStatus =
  alive :: bool
  ready :: bool
  st_connected_devices :: int
  avg_latency :: double
  st_frames_processed :: u64

record GrpcServiceImpl =
  frames_processed :: u64
  frames_rejected :: u64
  connected_devices :: "32 word"
  total_latency_us :: "64 word"

text \<open>The gateway's objects that the service and the callback share.\<close>

record gateway =
  gw_nats :: NatsClient
  gw_breaker :: Breaker
  gw_service :: GrpcServiceImpl
  gw_hub :: WsHub

definition zpad :: "nat \<Rightarrow> string \<Rightarrow> string" where
  "zpad n s = replicate (n - length s) CHR ''0'' @ s"

definition rfc3339 :: "u64 \<Rightarrow> string" where
  "rfc3339 us =
     (let sec = unat (us div 1000000); usec = unat (us mod 1000000); x = gmtime (int sec)
      in strftime_date x @ ''T'' @ strftime_time x @ ''.'' @ zpad 6 (to_string usec) @ ''Z'')"

definition analyze_request :: "CaptureFrame \<Rightarrow> json" where
  "analyze_request frame =
     JObj [(''frame_id'', JStr (to_string (unat (cf_frame_id frame)))),
           (''device_id'', JStr (cf_device_id frame)),
           (''jpeg_b64'', JStr (base64_encode (jpeg_data frame))),
           (''quality_score'', JNum (quality_score frame)),
           (''eye_side'', JStr (eye_side frame)),
           (''timestamp'', JStr (rfc3339 (timestamp_us frame)))]"

text \<open>\<open>now\<close> is the clock the breaker reads, \<open>latency\<close> the microseconds from start to end.\<close>

definition process_frame ::
  "(json \<Rightarrow> string) \<Rightarrow> nats_env \<Rightarrow> int \<Rightarrow> int \<Rightarrow> CaptureFrame \<Rightarrow> gateway \<Rightarrow> FrameAck \<times> gateway" where
  "process_frame dump e now latency frame g =
     (let (ok, b) = allow now (gw_breaker g); g = g\<lparr>gw_breaker := b\<rparr>; svc = gw_service g in
      if \<not> ok
      then (\<lparr>ack_frame_id = cf_frame_id frame, ack_accepted = False, queue_depth = 0\<rparr>,
            g\<lparr>gw_service := svc\<lparr>frames_rejected := frames_rejected svc + 1\<rparr>\<rparr>)
      else
        let (sent, c) = publish_analyze dump e (analyze_request frame) (gw_nats g); g = g\<lparr>gw_nats := c\<rparr> in
        if \<not> sent
        then (\<lparr>ack_frame_id = cf_frame_id frame, ack_accepted = False, queue_depth = 0\<rparr>,
              g\<lparr>gw_service := svc\<lparr>frames_rejected := frames_rejected svc + 1\<rparr>\<rparr>)
        else (\<lparr>ack_frame_id = cf_frame_id frame, ack_accepted = True, queue_depth = 0\<rparr>,
              g\<lparr>gw_service := svc\<lparr>frames_processed := frames_processed svc + 1,
                  total_latency_us := total_latency_us svc + of_int latency\<rparr>\<rparr>))"

definition SubmitFrame ::
  "(json \<Rightarrow> string) \<Rightarrow> nats_env \<Rightarrow> int \<Rightarrow> int \<Rightarrow> CaptureFrame \<Rightarrow> gateway \<Rightarrow> FrameAck \<times> gateway" where
  "SubmitFrame dump e now latency request g = process_frame dump e now latency request g"

text \<open>
  One read of the stream with its circumstances: the frame, the NATS outcomes, the clock, the
  latency, and whether the acknowledgement could be written. The list ends where \<^verbatim>\<open>Read\<close>
  returns false.
\<close>

record stream_item =
  item_frame :: CaptureFrame
  item_env :: nats_env
  item_now :: int
  item_latency :: int
  item_write_ok :: bool

fun stream_loop :: "(json \<Rightarrow> string) \<Rightarrow> stream_item list \<Rightarrow> gateway \<Rightarrow> FrameAck list \<times> gateway" where
  "stream_loop dump [] g = ([], g)"
| "stream_loop dump (i # is) g =
     (let (ack, g) = process_frame dump (item_env i) (item_now i) (item_latency i) (item_frame i) g in
      if \<not> item_write_ok i then ([ack], g)
      else let (acks, g) = stream_loop dump is g in (ack # acks, g))"

definition StreamFrames :: "(json \<Rightarrow> string) \<Rightarrow> stream_item list \<Rightarrow> gateway \<Rightarrow> FrameAck list \<times> gateway" where
  "StreamFrames dump is g =
     (let svc = gw_service g;
          g = g\<lparr>gw_service := svc\<lparr>connected_devices := connected_devices svc + 1\<rparr>\<rparr>;
          (acks, g) = stream_loop dump is g; svc = gw_service g
      in (acks, g\<lparr>gw_service := svc\<lparr>connected_devices := connected_devices svc - 1\<rparr>\<rparr>))"

definition avg_latency_ms :: "GrpcServiceImpl \<Rightarrow> double" where
  "avg_latency_ms s =
     (if frames_processed s = 0 then 0
      else of_int (sint (total_latency_us s)) / of_nat (unat (frames_processed s)) / 1000)"

definition GetStatus :: "nats_env \<Rightarrow> int \<Rightarrow> gateway \<Rightarrow> ServerStatus \<times> gateway" where
  "GetStatus e now g =
     (let conn = is_connected e (gw_nats g);
          (rdy, g) = (if conn then (case get_state now (gw_breaker g) of
                                      (s, b) \<Rightarrow> (s = Closed, g\<lparr>gw_breaker := b\<rparr>))
                      else (False, g));
          svc = gw_service g
      in (\<lparr>alive = True, ready = rdy, st_connected_devices = uint (connected_devices svc),
           avg_latency = avg_latency_ms svc, st_frames_processed = frames_processed svc\<rparr>, g))"

section \<open>Results\<close>

text \<open>
  The callback that \<^verbatim>\<open>main\<close> registers: it resets the breaker, builds its log line and
  broadcasts the result. Building the log line reads \<open>match.is_match\<close> and
  \<open>match.matched_identity_id\<close> with typed accessors, which throw on another type; the
  broadcast comes after it.
\<close>

definition jvalue_bool :: "json \<Rightarrow> string \<Rightarrow> bool \<Rightarrow> exn + bool" where
  "jvalue_bool j k d =
     (if \<not> is_object j then Inl TypeError
      else case jget j k of None \<Rightarrow> Inr d | Some v \<Rightarrow> (case v of JBool b \<Rightarrow> Inr b | _ \<Rightarrow> Inl TypeError))"

definition opt_member :: "json \<Rightarrow> string \<Rightarrow> (string \<times> json) list" where
  "opt_member j k = (case jget j k of None \<Rightarrow> [] | Some v \<Rightarrow> [(k, v)])"

definition match_log :: "json \<Rightarrow> exn + (string \<times> json) list" where
  "match_log result =
     (case jget result ''match'' of
        None \<Rightarrow> Inr []
      | Some mt \<Rightarrow>
          if \<not> is_object mt then Inr []
          else case jvalue_bool mt ''is_match'' False of
                 Inl x \<Rightarrow> Inl x
               | Inr False \<Rightarrow> Inr []
               | Inr True \<Rightarrow> (case jvalue_str mt ''matched_identity_id'' [] of
                     Inl x \<Rightarrow> Inl x
                   | Inr ident \<Rightarrow> Inr [(''match'', JBool True), (''identity'', JStr ident)]))"

definition has_error :: "json \<Rightarrow> bool" where
  "has_error result = (case jget result ''error'' of Some (JStr s) \<Rightarrow> s \<noteq> [] | _ \<Rightarrow> False)"

definition result_log :: "json \<Rightarrow> exn + json" where
  "result_log result =
     (case match_log result of
        Inl x \<Rightarrow> Inl x
      | Inr mt \<Rightarrow>
          Inr (JObj ([(''level'', JStr (if has_error result then ''warn'' else ''info'')),
                      (''msg'', JStr ''Analysis result received'')] @
                     opt_member result ''frame_id'' @ opt_member result ''device_id'' @
                     opt_member result ''latency_ms'' @
                     (if has_error result then opt_member result ''error'' else []) @ mt)))"

definition result_callback ::
  "(json \<Rightarrow> string) \<Rightarrow> net \<Rightarrow> int \<Rightarrow> json \<Rightarrow> gateway \<Rightarrow> (exn + (json \<times> delivery list)) \<times> gateway" where
  "result_callback dump nt now result g =
     (let g = g\<lparr>gw_breaker := record_result now (gw_breaker g)\<rparr> in
      case result_log result of
        Inl x \<Rightarrow> (Inl x, g)
      | Inr line \<Rightarrow> (let (h, out) = broadcast dump nt result (gw_hub g) in (Inr (line, out), g\<lparr>gw_hub := h\<rparr>)))"

text \<open>\<^verbatim>\<open>on_message\<close>: an empty payload is ignored, a JSON exception is logged and swallowed.\<close>

definition on_message ::
  "(string \<Rightarrow> json option) \<Rightarrow> (json \<Rightarrow> string) \<Rightarrow> net \<Rightarrow> int \<Rightarrow> string option \<Rightarrow> gateway \<Rightarrow> delivery list \<times> gateway" where
  "on_message jparse dump nt now payload g =
     (case payload of
        None \<Rightarrow> ([], g)
      | Some data \<Rightarrow>
          if length data > 0 \<and> nc_callback (gw_nats g)
          then (case jparse data of
                  None \<Rightarrow> ([], g)
                | Some result \<Rightarrow>
                    (case result_callback dump nt now result g of
                       (Inl x, g) \<Rightarrow> ([], g)
                     | (Inr (line, out), g) \<Rightarrow> (out, g)))
          else ([], g))"

section \<open>Counting frames\<close>

definition sent_payload :: "(json \<Rightarrow> string) \<Rightarrow> CaptureFrame \<Rightarrow> string \<times> string" where
  "sent_payload dump frame = (''eyed.analyze'', dump (analyze_request frame))"

lemma process_frame_spec:
  assumes "process_frame dump e now l frame g = (ack, g')"
  shows "ack_frame_id ack = cf_frame_id frame"
    and "gw_hub g' = gw_hub g"
    and "connected_devices (gw_service g') = connected_devices (gw_service g)"
    and "frames_processed (gw_service g') = frames_processed (gw_service g) + (if ack_accepted ack then 1 else 0)"
    and "frames_rejected (gw_service g') = frames_rejected (gw_service g) + (if ack_accepted ack then 0 else 1)"
    and "nc_published (gw_nats g') = nc_published (gw_nats g) + (if ack_accepted ack then 1 else 0)"
    and "nc_wire (gw_nats g') = nc_wire (gw_nats g) @ (if ack_accepted ack then [sent_payload dump frame] else [])"
  using assms
  by (auto simp: process_frame_def publish_analyze_def sent_payload_def Let_def split: prod.splits if_splits)

definition accepted_frames :: "CaptureFrame list \<Rightarrow> FrameAck list \<Rightarrow> CaptureFrame list" where
  "accepted_frames frames acks = map fst (filter (\<lambda>(f, a). ack_accepted a) (zip frames acks))"

text \<open>What a finished stream has done, in terms of the frames read and the acknowledgements.\<close>

definition stream_done ::
  "(json \<Rightarrow> string) \<Rightarrow> stream_item list \<Rightarrow> FrameAck list \<Rightarrow> gateway \<Rightarrow> gateway \<Rightarrow> bool" where
  "stream_done dump is acks g g' =
     (let ok = length (filter ack_accepted acks); s = gw_service g; s' = gw_service g' in
      length acks \<le> length is \<and>
      map ack_frame_id acks = map (\<lambda>i. cf_frame_id (item_frame i)) (take (length acks) is) \<and>
      connected_devices s' = connected_devices s \<and>
      frames_processed s' = frames_processed s + of_nat ok \<and>
      frames_rejected s' = frames_rejected s + of_nat (length acks - ok) \<and>
      nc_published (gw_nats g') = nc_published (gw_nats g) + of_nat ok \<and>
      nc_wire (gw_nats g') = nc_wire (gw_nats g) @ map (sent_payload dump) (accepted_frames (map item_frame is) acks) \<and>
      (length acks = length is \<or> acks \<noteq> [] \<and> \<not> item_write_ok (is ! (length acks - 1))))"

lemma stream_loop_done: "stream_loop dump is g = (acks, g') \<Longrightarrow> stream_done dump is acks g g'"
proof (induction "is" arbitrary: g acks)
  case Nil
  then show ?case by (simp add: stream_done_def accepted_frames_def)
next
  case (Cons i "is")
  obtain ack g1 where p: "process_frame dump (item_env i) (item_now i) (item_latency i) (item_frame i) g = (ack, g1)"
    by fastforce
  note P = process_frame_spec [OF p]
  show ?case
  proof (cases "item_write_ok i")
    case False
    with Cons.prems p have "acks = [ack]" "g' = g1" by simp_all
    with P False show ?thesis by (auto simp: stream_done_def accepted_frames_def Let_def)
  next
    case True
    with Cons.prems p obtain acks' where l: "stream_loop dump is g1 = (acks', g')" and a: "acks = ack # acks'"
      by (auto split: prod.splits)
    have le: "length (filter ack_accepted acks') \<le> length acks'" by simp
    from Cons.IH [OF l] P True a le show ?thesis
      by (auto simp: stream_done_def accepted_frames_def Let_def nth_Cons' Suc_diff_le)
  qed
qed

section \<open>The request on the wire\<close>

lemma decimal_value_zeros: "decimal_value (replicate n CHR ''0'' @ s) = decimal_value s"
proof -
  have "fold (\<lambda>c n. 10 * n + digit_val c) (replicate n CHR ''0'') 0 = 0"
    by (induction n) (simp_all add: digit_val_def)
  then show ?thesis by (simp add: decimal_value_def)
qed

lemma rfc3339_shape:
  "\<exists>x u. rfc3339 us = strftime_date x @ ''T'' @ strftime_time x @ ''.'' @ zpad 6 (to_string u) @ ''Z'' \<and>
     x = gmtime (timegm x) \<and> timegm x * 1000000 + int u = uint us \<and> u < 1000000 \<and>
     decimal_value (zpad 6 (to_string u)) = u"
proof -
  let ?sec = "unat (us div 1000000)" and ?u = "unat (us mod 1000000)"
  have n: "unat (1000000 :: u64) = 1000000" by simp
  have sec: "?sec = unat us div 1000000" and u: "?u = unat us mod 1000000"
    by (simp_all only: unat_div unat_mod n)
  have "unat us = ?sec * 1000000 + ?u" by (simp only: sec u div_mult_mod_eq)
  from arg_cong [OF this, of int] have "int ?sec * 1000000 + int ?u = uint us"
    by (simp only: uint_nat of_nat_add of_nat_mult of_nat_numeral)
  then have "timegm (gmtime (int ?sec)) * 1000000 + int ?u = uint us"
    by (simp only: timegm_gmtime)
  moreover have "?u < 1000000" unfolding u by (rule mod_less_divisor) simp
  moreover have "decimal_value (zpad 6 (to_string ?u)) = ?u" by (simp add: zpad_def decimal_value_zeros)
  ultimately show ?thesis
    by (intro exI [of _ "gmtime (int ?sec)"] exI [of _ ?u]) (simp only: rfc3339_def Let_def timegm_gmtime)
qed

section \<open>Properties of the gateway's frame path\<close>

text \<open>
  C21. Every frame of a stream is accounted for: there is one acknowledgement per frame read,
  with the frame's number, up to the end of the stream or the first acknowledgement that cannot be written; the
  processed and rejected counters and the published counter advance by the accepted and
  rejected frames (modulo \<open>2^64\<close>); exactly the accepted frames are published, in order, each
  once; and the number of connected devices is as before the stream.
\<close>

theorem stream_frames_accounted:
  "case StreamFrames dump is g of (acks, g') \<Rightarrow> stream_done dump is acks g g'"
proof -
  let ?s = "gw_service g"
  let ?g = "g\<lparr>gw_service := ?s\<lparr>connected_devices := connected_devices ?s + 1\<rparr>\<rparr>"
  obtain acks g1 where l: "stream_loop dump is ?g = (acks, g1)" by fastforce
  from stream_loop_done [OF l] show ?thesis
    by (simp add: StreamFrames_def l Let_def stream_done_def)
qed

text \<open>
  C22. A frame survives the trip: in the request that is published for a frame, the image text
  decodes (in the storage service's and the key service's decoder) to exactly the frame's
  bytes, the identifier and the texts are the frame's, and the timestamp's calendar fields,
  hour, minute, second and six-digit fraction denote exactly the frame's microsecond count.
\<close>

theorem analyze_request_faithful:
  "(\<exists>b64. jget (analyze_request f) ''jpeg_b64'' = Some (JStr b64) \<and>
      base64_decode b64 = bytes_of_string (jpeg_data f) \<and> Base64Decode b64 = bytes_of_string (jpeg_data f)) \<and>
   (\<exists>n. jget (analyze_request f) ''frame_id'' = Some (JStr n) \<and> decimal_value n = unat (cf_frame_id f)) \<and>
   jget (analyze_request f) ''device_id'' = Some (JStr (cf_device_id f)) \<and>
   jget (analyze_request f) ''eye_side'' = Some (JStr (eye_side f)) \<and>
   (\<exists>x u. jget (analyze_request f) ''timestamp'' = Some (JStr
        (strftime_date x @ ''T'' @ strftime_time x @ ''.'' @ zpad 6 (to_string u) @ ''Z'')) \<and>
      x = gmtime (timegm x) \<and> timegm x * 1000000 + int u = uint (timestamp_us f) \<and> u < 1000000 \<and>
      decimal_value (zpad 6 (to_string u)) = u)"
  using rfc3339_shape [of "timestamp_us f"] by (auto simp: analyze_request_def decode_encode)

text \<open>
  C23. A result brings the gateway back and reaches the clients: when a payload that parses
  arrives while the callback is set, then, whatever the breaker's state was, the next frame within the timeout
  is accepted and published if the NATS publish succeeds; and the result's text is sent to exactly the
  live clients of the hub, unless the result claims a match with a \<open>matched_identity_id\<close> or an
  \<open>is_match\<close> of the wrong type.
\<close>

theorem result_reopens_gateway:
  assumes "jparse data = Some r" and "data \<noteq> []" and "nc_callback (gw_nats g)" and "finite (clients (gw_hub g))"
    and "on_message jparse dump nt now (Some data) g = (out, g1)"
    and "nc_conn (gw_nats g)" and "publish_ok e"
    and "now \<le> t" and "t - now \<le> ms (br_timeout (gw_breaker g))"
    and "br_last_sent (gw_breaker g) \<le> now"
  shows "ack_accepted (fst (process_frame dump e t l f g1)) \<and>
    (case match_log r of
       Inr _ \<Rightarrow> out = map (\<lambda>s. (s, dump r)) (filter (delivers nt (dump r)) (sorted_list_of_set (clients (gw_hub g))))
     | Inl _ \<Rightarrow> out = [] \<and> gw_hub g1 = gw_hub g)"
proof -
  let ?b = "record_result now (gw_breaker g)"
  have g1: "gw_breaker g1 = ?b" "gw_nats g1 = gw_nats g"
    using assms(1-3,5)
    by (auto simp: on_message_def result_callback_def Let_def split: sum.splits prod.splits)
  have "fst (allow t ?b)"
    using assms(8-10) by (simp add: allow_def evaluate_def record_result_def Let_def)
  then have "ack_accepted (fst (process_frame dump e t l f g1))"
    using assms(6,7) g1 by (auto simp: process_frame_def publish_analyze_def Let_def split: prod.splits)
  moreover have "case match_log r of
       Inr _ \<Rightarrow> out = map (\<lambda>s. (s, dump r)) (filter (delivers nt (dump r)) (sorted_list_of_set (clients (gw_hub g))))
     | Inl _ \<Rightarrow> out = [] \<and> gw_hub g1 = gw_hub g"
    using assms(1-5)
    by (auto simp: on_message_def result_callback_def result_log_def Let_def broadcast_eq split: sum.splits prod.splits)
  ultimately show ?thesis by blast
qed

definition sample_gateway :: gateway where
  "sample_gateway = \<lparr>gw_nats = (NatsClient_init ''nats'')\<lparr>nc_conn := True, nc_callback := True\<rparr>,
     gw_breaker = (Breaker_init 30000 10000)\<lparr>br_state := Open, br_last_sent := 1\<rparr>,
     gw_service = \<lparr>frames_processed = 0, frames_rejected = 0, connected_devices = 0, total_latency_us = 0\<rparr>,
     gw_hub = \<lparr>clients = {4, 9}\<rparr>\<rparr>"

definition sample_frame :: CaptureFrame where
  "sample_frame = \<lparr>jpeg_data = ''AB'', quality_score = 1, timestamp_us = 1500000, cf_frame_id = 7,
     cf_device_id = ''cam'', is_nir = True, eye_side = ''left''\<rparr>"

theorem result_reopens_gateway_witness:
  "let net = \<lparr>is_open = \<lambda>s. s = 9, send_throws = \<lambda>_ _. False\<rparr>;
       env = \<lparr>options_ok = True, connect_ok = True, publish_ok = True, subscribe_ok = True, conn_connected = True\<rparr>;
       (out, g1) = on_message (\<lambda>_. Some (JObj [])) (\<lambda>_. ''r'') net 5 (Some ''x'') sample_gateway
   in out = [(9, ''r'')] \<and> ack_accepted (fst (process_frame (\<lambda>_. ''r'') env 6 0 sample_frame g1))"
proof -
  let ?net = "\<lparr>is_open = \<lambda>s. s = 9, send_throws = \<lambda>_ _. False\<rparr>"
  let ?env = "\<lparr>options_ok = True, connect_ok = True, publish_ok = True, subscribe_ok = True, conn_connected = True\<rparr>"
  obtain out g1 where r: "on_message (\<lambda>_. Some (JObj [])) (\<lambda>_. ''r'') ?net 5 (Some ''x'') sample_gateway = (out, g1)"
    by fastforce
  have "sorted_list_of_set {4, 9 :: nat} = [4, 9]" by (simp add: insort_key.simps)
  with result_reopens_gateway [OF _ _ _ _ r, of "JObj []" ?env 6 0 sample_frame]
  have "out = [(9, ''r'')] \<and> ack_accepted (fst (process_frame (\<lambda>_. ''r'') ?env 6 0 sample_frame g1))"
    by (simp add: sample_gateway_def NatsClient_init_def Breaker_init_def ms_def match_log_def delivers_def)
  then show ?thesis unfolding Let_def r prod.case .
qed

end
