(* ===== verification/Texts.thy ===== *)
theory Texts
  imports EyeD_Prelude
begin

text \<open>
  The text routines of the C and C++ standard libraries the services use: prefix test, first
  occurrence, replacement of a range, and \<^verbatim>\<open>atoi\<close>.
\<close>

section \<open>Search and replacement\<close>

fun starts_with :: "string \<Rightarrow> string \<Rightarrow> bool" where
  "starts_with [] s = True"
| "starts_with (p # ps) [] = False"
| "starts_with (p # ps) (c # cs) = (p = c \<and> starts_with ps cs)"

text \<open>\<^verbatim>\<open>find\<close>: the first position at which the text occurs.\<close>

fun find_str :: "string \<Rightarrow> string \<Rightarrow> nat option" where
  "find_str pat s =
     (if starts_with pat s then Some 0
      else case s of [] \<Rightarrow> None | _ # cs \<Rightarrow> map_option Suc (find_str pat cs))"

declare find_str.simps [simp del]

text \<open>The lambda \<^verbatim>\<open>replace\<close> of the configuration reader: the first occurrence, if any.\<close>

definition replace_first :: "string \<Rightarrow> string \<Rightarrow> string \<Rightarrow> string" where
  "replace_first s from to =
     (case find_str from s of
        None \<Rightarrow> s
      | Some pos \<Rightarrow> take pos s @ to @ drop (pos + length from) s)"

section \<open>Numbers in texts\<close>

text \<open>
  \<^verbatim>\<open>atoi\<close>: leading white space, an optional sign, the digits that follow, 0 without digits. The
  result is undefined outside the range of \<^verbatim>\<open>int\<close>.
\<close>

definition is_space :: "char \<Rightarrow> bool" where
  "is_space c = ((of_char c :: nat) = 32 \<or> (9 \<le> (of_char c :: nat) \<and> (of_char c :: nat) \<le> 13))"

definition atoi :: "string \<Rightarrow> int" where
  "atoi s =
     (case dropWhile is_space s of
        [] \<Rightarrow> 0
      | c # cs \<Rightarrow>
          if c = CHR ''-'' then - int (decimal_value (takeWhile is_digit cs))
          else if c = CHR ''+'' then int (decimal_value (takeWhile is_digit cs))
          else int (decimal_value (takeWhile is_digit (c # cs))))"

text \<open>\<^verbatim>\<open>std::to_string\<close> of an \<^verbatim>\<open>int\<close>.\<close>

definition to_string_int :: "int \<Rightarrow> string" where
  "to_string_int i = (if i < 0 then CHR ''-'' # to_string (nat (- i)) else to_string (nat i))"

text \<open>
  \<^verbatim>\<open>std::stoi\<close>: as \<^verbatim>\<open>atoi\<close>, but a text without digits and a value outside the range of \<^verbatim>\<open>int\<close>
  are exceptions.
\<close>

definition stoi :: "string \<Rightarrow> exn + int" where
  "stoi s =
     (let t = dropWhile is_space s;
          signed = (t \<noteq> [] \<and> (hd t = CHR ''-'' \<or> hd t = CHR ''+''));
          ds = takeWhile is_digit (if signed then tl t else t)
      in if ds = [] then Inl (StdException ''invalid_argument'')
         else if - (2 ^ 31) \<le> atoi s \<and> atoi s < 2 ^ 31 then Inr (atoi s)
         else Inl (StdException ''out_of_range''))"

section \<open>Lemmas\<close>

lemma starts_with_append: "starts_with p (p @ s)"
  by (induction p) auto

lemma find_str_at:
  assumes "\<And>n. n < length pre \<Longrightarrow> \<not> starts_with pat (drop n (pre @ pat @ s))"
  shows "find_str pat (pre @ pat @ s) = Some (length pre)"
  using assms
proof (induction pre)
  case Nil
  then show ?case by (simp add: find_str.simps starts_with_append)
next
  case (Cons c pre)
  have "\<not> starts_with pat (c # pre @ pat @ s)" using Cons.prems [of 0] by simp
  moreover have "find_str pat (pre @ pat @ s) = Some (length pre)"
    using Cons.prems [of "Suc n" for n] by (intro Cons.IH) auto
  ultimately show ?case by (subst find_str.simps) simp
qed

lemma find_char:
  assumes "c \<notin> set pre"
  shows "find_str [c] (pre @ c # s) = Some (length pre)"
  using assms find_str_at [of pre "[c]" s] 
  by (metis append_Cons append_Nil starts_with.simps(3) Cons_nth_drop_Suc length_append nth_append nth_mem trans_less_add1)

lemma is_digit_not_space: "is_digit c \<Longrightarrow> \<not> is_space c"
  by (auto simp: is_digit_def is_space_def)

lemma is_digit_not_sign: "is_digit c \<Longrightarrow> c \<noteq> CHR ''-'' \<and> c \<noteq> CHR ''+''"
  by (auto simp: is_digit_def)

lemma takeWhile_digits_to_string [simp]: "takeWhile is_digit (to_string n) = to_string n"
  using to_string_digits by simp

lemma atoi_to_string [simp]: "atoi (to_string n) = int n"
proof (cases "to_string n")
  case (Cons c cs)
  then have "is_digit c" using to_string_digits[of n] by simp
  then show ?thesis
    using Cons is_digit_not_space is_digit_not_sign takeWhile_digits_to_string[of n] decimal_value_to_string[of n]
    by (simp add: atoi_def takeWhile_eq_all_conv[THEN iffD2])
qed simp

lemma atoi_to_string_int [simp]: "atoi (to_string_int i) = i"
  by (simp add: to_string_int_def) (simp add: atoi_def is_space_def)

end
