(* ===== verification/Http_Server.thy ===== *)
theory Http_Server
  imports Gateway Texts
begin

text \<open>
  The gateway's HTTP and WebSocket front end (\<^verbatim>\<open>gateway/src/http_server.cpp\<close>): routing, query
  parameters, the health responses, the life of a WebSocket session in the hubs, and the start
  and stop of the server. Boost.Beast does the parsing and the I/O; what it delivers (a
  request, the messages of a session) is the input of these definitions.
\<close>

section \<open>Query parameters\<close>

definition parse_query_param :: "string \<Rightarrow> string \<Rightarrow> string" where
  "parse_query_param target key =
     (case find_str ''?'' target of
        None \<Rightarrow> []
      | Some qpos \<Rightarrow>
          let query = drop (qpos + 1) target; search = key @ ''='' in
          case find_str search query of
            None \<Rightarrow> []
          | Some pos \<Rightarrow> takeWhile (\<lambda>c. c \<noteq> CHR ''&'') (drop (pos + length search) query))"

section \<open>Responses\<close>

record http_response =
  res_status :: nat
  res_content_type :: string
  res_body :: string
  res_headers :: "(string \<times> string) list"

definition handle_health_alive :: "(json \<Rightarrow> string) \<Rightarrow> http_response" where
  "handle_health_alive dump =
     \<lparr>res_status = 200, res_content_type = ''application/json'',
      res_body = dump (JObj [(''alive'', JBool True)]), res_headers = []\<rparr>"

text \<open>
  \<^verbatim>\<open>&&\<close> asks the breaker only when NATS is connected; asking re-evaluates the breaker's state.
\<close>

definition ready_json :: "nats_env \<Rightarrow> int \<Rightarrow> gateway \<Rightarrow> json \<times> gateway" where
  "ready_json e now g =
     (let conn = is_connected e (gw_nats g);
          (rdy, g) = (if conn then (case get_state now (gw_breaker g) of
                                      (s, b) \<Rightarrow> (s = Closed, g\<lparr>gw_breaker := b\<rparr>))
                      else (False, g))
      in (JObj [(''alive'', JBool True), (''ready'', JBool rdy), (''nats_connected'', JBool conn),
                (''circuit_breaker'', JStr (Breaker_state_string (gw_breaker g))),
                (''version'', JStr ''0.1.0'')], g))"

definition handle_health_ready ::
  "(json \<Rightarrow> string) \<Rightarrow> nats_env \<Rightarrow> int \<Rightarrow> gateway \<Rightarrow> http_response \<times> gateway" where
  "handle_health_ready dump e now g =
     (let (j, g) = ready_json e now g
      in (\<lparr>res_status = 200, res_content_type = ''application/json'', res_body = dump j, res_headers = []\<rparr>, g))"

definition handle_not_found :: http_response where
  "handle_not_found =
     \<lparr>res_status = 404, res_content_type = ''text/plain'', res_body = ''Not Found'', res_headers = []\<rparr>"

definition set_header :: "string \<Rightarrow> string \<Rightarrow> http_response \<Rightarrow> http_response" where
  "set_header k v r = r\<lparr>res_headers := filter (\<lambda>(k', _). k' \<noteq> k) (res_headers r) @ [(k, v)]\<rparr>"

definition add_cors_headers :: "http_response \<Rightarrow> http_response" where
  "add_cors_headers r =
     set_header ''Access-Control-Allow-Headers'' ''Content-Type, Authorization''
       (set_header ''Access-Control-Allow-Methods'' ''GET, POST, PUT, DELETE, OPTIONS''
         (set_header ''Access-Control-Allow-Origin'' ''*'' r))"

section \<open>Routing\<close>

record http_request =
  req_target :: string
  req_options :: bool
  req_upgrade :: bool

datatype route =
    Respond http_response
  | ResultsSession
  | SignalingSession string string
  | CloseSocket

definition handle_request ::
  "(json \<Rightarrow> string) \<Rightarrow> nats_env \<Rightarrow> int \<Rightarrow> http_request \<Rightarrow> gateway \<Rightarrow> route \<times> gateway" where
  "handle_request dump e now req g =
     (let target = req_target req in
      if req_upgrade req
      then (if starts_with ''/ws/results'' target then ResultsSession
            else if starts_with ''/ws/signaling'' target
            then (let device_id = parse_query_param target ''device_id'';
                      role = parse_query_param target ''role''
                  in if device_id = [] \<or> (role \<noteq> ''device'' \<and> role \<noteq> ''viewer'') then CloseSocket
                     else SignalingSession device_id role)
            else CloseSocket, g)
      else
        let (res, g) =
              (if target = ''/health/alive'' then (handle_health_alive dump, g)
               else if target = ''/health/ready'' then handle_health_ready dump e now g
               else if req_options req
               then (add_cors_headers \<lparr>res_status = 204, res_content_type = [], res_body = [], res_headers = []\<rparr>, g)
               else (handle_not_found, g))
        in (Respond (add_cors_headers res), g))"

section \<open>WebSocket sessions\<close>

text \<open>
  A session: registered, then each message that the read loop returns, in its network
  circumstances, then unregistered. The results session discards what it reads.
\<close>

definition handle_ws_results :: "session \<Rightarrow> string list \<Rightarrow> WsHub \<Rightarrow> WsHub" where
  "handle_ws_results s msgs h = remove_client s (add_client s h)"

fun read_loop :: "session \<Rightarrow> (net \<times> string) list \<Rightarrow> SignalingHub \<Rightarrow> SignalingHub \<times> delivery list" where
  "read_loop s [] h = (h, [])"
| "read_loop s ((nt, msg) # rest) h =
     (let (h, out) = relay nt s msg h; (h, out') = read_loop s rest h in (h, out @ out'))"

definition handle_ws_signaling ::
  "(json \<Rightarrow> string) \<Rightarrow> net \<Rightarrow> net \<Rightarrow> session \<Rightarrow> string \<Rightarrow> string \<Rightarrow> (net \<times> string) list \<Rightarrow>
   SignalingHub \<Rightarrow> SignalingHub \<times> delivery list" where
  "handle_ws_signaling dump n1 n2 s device_id role msgs h =
     (let (h, out1) = (if role = ''device'' then register_device dump n1 device_id s h
                       else (register_viewer device_id s h, []));
          (h, out2) = read_loop s msgs h;
          (h, out3) = unregister dump n2 s h
      in (h, out1 @ out2 @ out3))"

text \<open>\<^verbatim>\<open>BeastWsSession::send\<close> throws on a closed session; the read loop closes it for good.\<close>

definition session_send :: "bool \<Rightarrow> bool \<Rightarrow> bool" where
  "session_send open_flag write_ok = (open_flag \<and> write_ok)"

fun run_read_loop :: "bool \<Rightarrow> string option list \<Rightarrow> string list \<times> bool" where
  "run_read_loop open_flag [] = ([], False)"
| "run_read_loop open_flag (r # rs) =
     (if \<not> open_flag then ([], False)
      else case r of
             None \<Rightarrow> ([], False)
           | Some msg \<Rightarrow> (let (ms, op) = run_read_loop open_flag rs in (msg # ms, op)))"

section \<open>Start and stop\<close>

record HttpServer =
  running :: bool
  acceptor_open :: bool
  thread_running :: bool

definition HttpServer_init :: HttpServer where
  "HttpServer_init = \<lparr>running = False, acceptor_open = False, thread_running = False\<rparr>"

definition HttpServer_run :: "bool \<Rightarrow> HttpServer \<Rightarrow> HttpServer" where
  "HttpServer_run bind_ok s =
     (if running s then s
      else if bind_ok then s\<lparr>running := True, acceptor_open := True, thread_running := True\<rparr>
      else s\<lparr>running := False\<rparr>)"

definition HttpServer_stop :: "HttpServer \<Rightarrow> HttpServer" where
  "HttpServer_stop s =
     (if \<not> running s then s else s\<lparr>running := False, acceptor_open := False, thread_running := False\<rparr>)"

text \<open>
  An accept completion: a new connection gets its own thread; the next accept is started only
  while the server runs.
\<close>

definition do_accept :: "bool \<Rightarrow> HttpServer \<Rightarrow> bool \<times> bool" where
  "do_accept error s = (\<not> error, running s)"

section \<open>Lemmas on texts\<close>

lemma takeWhile_param:
  "CHR ''&'' \<notin> set v \<Longrightarrow> rest = [] \<or> hd rest = CHR ''&'' \<Longrightarrow> takeWhile (\<lambda>c. c \<noteq> CHR ''&'') (v @ rest) = v"
  by (cases rest) (auto simp: takeWhile_tail)

section \<open>Sessions in the hub\<close>

lemma read_loop_reachable:
  "hub_reachable dump h \<Longrightarrow> hub_reachable dump (fst (read_loop s msgs h))"
proof (induction s msgs h rule: read_loop.induct)
  case (2 s nt msg rest h)
  then have "hub_reachable dump (fst (relay nt s msg h))" by (intro hub_reachable.message)
  with 2 show ?case by (auto simp: Let_def split: prod.splits)
qed simp

lemma unregister_gone:
  "session_device (fst (unregister dump nt s h)) s = None"
  by (auto simp: unregister_def Let_def split: option.splits)

lemma relay_keeps_sessions: "hub_inv h \<Longrightarrow> session_device (fst (relay nt s msg h)) = session_device h"
  by (rule relay_cases [of h nt s msg]) (auto simp: relay_device relay_viewer)

lemma read_loop_keeps_sessions:
  "hub_inv h \<Longrightarrow> session_device (fst (read_loop s msgs h)) = session_device h"
proof (induction s msgs h rule: read_loop.induct)
  case (2 s nt msg rest h)
  with relay_keeps_sessions [of h nt s msg] relay_inv [of h nt s msg] show ?case
    by (auto simp: Let_def split: prod.splits)
qed simp

lemma inv_not_listed:
  assumes "hub_inv h" "session_device h s = None"
  shows "devices h d \<noteq> Some s" and "viewers h d = Some vs \<Longrightarrow> s \<notin> vs"
  using assms by (auto simp: hub_inv_def)

section \<open>Properties of the front end\<close>

text \<open>
  Query parameters: the value returned for a key is the text between the first occurrence
  of \<open>key=\<close> anywhere after the question mark and the next \<open>&\<close>. The occurrence need not start a
  parameter: what precedes it is arbitrary.
\<close>

theorem parse_query_param_value:
  assumes "CHR ''?'' \<notin> set path" and "CHR ''&'' \<notin> set v" and "rest = [] \<or> hd rest = CHR ''&''"
    and "\<And>n. n < length pre \<Longrightarrow>
      \<not> starts_with (key @ ''='') (drop n (pre @ (key @ ''='') @ v @ rest))"
  shows "parse_query_param (path @ ''?'' @ pre @ key @ ''='' @ v @ rest) key = v"
proof -
  have "find_str ''?'' (path @ ''?'' @ pre @ key @ ''='' @ v @ rest) = Some (length path)"
    using find_char [OF assms(1)] by simp
  moreover have "find_str (key @ ''='') (pre @ key @ ''='' @ v @ rest) = Some (length pre)"
    using find_str_at [OF assms(4)] by simp
  ultimately show ?thesis
    using takeWhile_param [OF assms(2,3)] by (simp add: parse_query_param_def)
qed

theorem parse_query_param_value_witness:
  "parse_query_param ''/ws/signaling?parole=device&x=1'' ''role'' = ''device''"
proof -
  have "\<not> starts_with (''role'' @ ''='') (drop n (''pa'' @ (''role'' @ ''='') @ ''device'' @ ''&x=1''))"
    if "n < length ''pa''" for n
    using that by (auto simp: less_Suc_eq numeral_2_eq_2)
  from parse_query_param_value [of "''/ws/signaling''", OF _ _ _ this] show ?thesis by simp
qed



text \<open>
  A signalling session leaves no trace: from any reachable hub, after a session has been
  registered, has relayed any messages and has ended, it is in none of the hub's tables, the
  hub is still reachable (so its invariant holds), and every other session's registration is
  as before.
\<close>

theorem signaling_session_cleans_up:
  assumes "hub_reachable dump h" and "session_device h s = None"
    and "handle_ws_signaling dump n1 n2 s d role msgs h = (h', out)"
  shows "hub_reachable dump h' \<and> session_device h' s = None \<and> (\<forall>x. devices h' x \<noteq> Some s) \<and>
    (\<forall>x vs. viewers h' x = Some vs \<longrightarrow> s \<notin> vs) \<and>
    (\<forall>t. t \<noteq> s \<longrightarrow> session_device h' t = session_device h t)"
proof -
  define h1 where "h1 = (if role = ''device'' then fst (register_device dump n1 d s h) else register_viewer d s h)"
  define h2 where "h2 = fst (read_loop s msgs h1)"
  have h': "h' = fst (unregister dump n2 s h2)"
    using assms(3) by (auto simp: handle_ws_signaling_def h1_def h2_def Let_def split: prod.splits if_splits)
  have r1: "hub_reachable dump h1"
    using assms(1,2) by (auto simp: h1_def intro: hub_reachable.device hub_reachable.viewer)
  then have r2: "hub_reachable dump h2" unfolding h2_def by (rule read_loop_reachable)
  then have r3: "hub_reachable dump h'" unfolding h' by (rule hub_reachable.leave)
  have gone: "session_device h' s = None" unfolding h' by (rule unregister_gone)
  have "session_device h2 = session_device h1"
    unfolding h2_def by (rule read_loop_keeps_sessions [OF hub_reachable_inv [OF r1]])
  moreover have "session_device h1 t = session_device h t" if "t \<noteq> s" for t
    using that by (auto simp: h1_def register_device_def register_viewer_def Let_def)
  moreover have "session_device h' t = session_device h2 t" if "t \<noteq> s" for t
    using that unfolding h' by (auto simp: unregister_def Let_def split: option.splits)
  ultimately show ?thesis
    using r3 gone inv_not_listed [OF hub_reachable_inv [OF r3] gone] by auto
qed

theorem signaling_session_cleans_up_witness:
  "let h' = fst (handle_ws_signaling (\<lambda>_. []) \<lparr>is_open = \<lambda>_. True, send_throws = \<lambda>_ _. False\<rparr>
      \<lparr>is_open = \<lambda>_. True, send_throws = \<lambda>_ _. False\<rparr> 5 ''cam'' ''viewer'' [] SignalingHub_init)
   in session_device h' 5 = None \<and> devices h' ''cam'' \<noteq> Some 5"
proof -
  let ?n = "\<lparr>is_open = \<lambda>_. True, send_throws = \<lambda>_ _. False\<rparr>"
  obtain h' out where h: "handle_ws_signaling (\<lambda>_. []) ?n ?n 5 ''cam'' ''viewer'' [] SignalingHub_init = (h', out)"
    by fastforce
  have "session_device SignalingHub_init 5 = None" by (simp add: SignalingHub_init_def)
  from signaling_session_cleans_up [OF hub_reachable.init this h] show ?thesis
    unfolding Let_def h fst_conv by simp
qed

end
