(* ===== verification/Gateway_Main.thy ===== *)
theory Gateway_Main
  imports Http_Server
begin

text \<open>
  The gateway process (\<^verbatim>\<open>gateway/src/main.cpp\<close>): start-up, the running process as a sequence of
  frames, streams, results and requests, and shutdown. Whether the gRPC server could be built
  and whether the HTTP port could be bound are parameters.
\<close>

section \<open>Start-up and shutdown\<close>

record gateway_process =
  gp_gateway :: gateway
  gp_signaling :: SignalingHub
  gp_grpc :: bool
  gp_http :: HttpServer

definition GrpcServiceImpl_init :: GrpcServiceImpl where
  "GrpcServiceImpl_init = \<lparr>frames_processed = 0, frames_rejected = 0, connected_devices = 0, total_latency_us = 0\<rparr>"

text \<open>
  The result of \<^verbatim>\<open>subscribe_results\<close> and a null server from \<^verbatim>\<open>BuildAndStart\<close> are not tested; the port
  is narrowed to 16 bits by the constructor of the server.
\<close>

definition gateway_start ::
  "(string \<Rightarrow> string option) \<Rightarrow> nats_env \<Rightarrow> bool \<Rightarrow> (u16 \<Rightarrow> bool) \<Rightarrow> ending + gateway_process" where
  "gateway_start env e grpc_ok bind_ok =
     (let cfg = Config_from_env env; (ok, c) = connect e (NatsClient_init (nats_url cfg)) in
      if \<not> ok then Inl (ExitCode 1)
      else
        let b = Breaker_init 30000 10000; (subscribed, c) = subscribe_results e c in
        case stoi (http_port cfg) of
          Inl x \<Rightarrow> Inl (Terminated x)
        | Inr port \<Rightarrow>
            Inr \<lparr>gp_gateway = \<lparr>gw_nats = c, gw_breaker = b, gw_service = GrpcServiceImpl_init, gw_hub = WsHub_init\<rparr>,
                 gp_signaling = SignalingHub_init, gp_grpc = grpc_ok,
                 gp_http = HttpServer_run (bind_ok (of_int port)) HttpServer_init\<rparr>)"

definition gateway_shutdown :: "gateway_process \<Rightarrow> ending \<times> gateway_process" where
  "gateway_shutdown p =
     (let p = p\<lparr>gp_http := HttpServer_stop (gp_http p)\<rparr> in
      if \<not> gp_grpc p then (Crash, p)
      else let g = gp_gateway p; p = p\<lparr>gp_grpc := False\<rparr>
           in (ExitCode 0, p\<lparr>gp_gateway := g\<lparr>gw_nats := NatsClient_close (gw_nats g)\<rparr>\<rparr>))"

section \<open>The running process\<close>

datatype gateway_event =
    Submit nats_env int int CaptureFrame
  | Stream "stream_item list"
  | Result net int "string option"
  | Request nats_env int http_request
  | Status nats_env int

fun gateway_step ::
  "(string \<Rightarrow> json option) \<Rightarrow> (json \<Rightarrow> string) \<Rightarrow> gateway_event \<Rightarrow> gateway \<Rightarrow> gateway" where
  "gateway_step jparse dump (Submit e now latency frame) g = snd (SubmitFrame dump e now latency frame g)"
| "gateway_step jparse dump (Stream items) g = snd (StreamFrames dump items g)"
| "gateway_step jparse dump (Result nt now payload) g = snd (on_message jparse dump nt now payload g)"
| "gateway_step jparse dump (Request e now req) g = snd (handle_request dump e now req g)"
| "gateway_step jparse dump (Status e now) g = snd (GetStatus e now g)"

definition gateway_main ::
  "(string \<Rightarrow> json option) \<Rightarrow> (json \<Rightarrow> string) \<Rightarrow> (string \<Rightarrow> string option) \<Rightarrow> nats_env \<Rightarrow> bool \<Rightarrow>
   (u16 \<Rightarrow> bool) \<Rightarrow> gateway_event list \<Rightarrow> ending \<times> gateway_process option" where
  "gateway_main jparse dump env e grpc_ok bind_ok evs =
     (case gateway_start env e grpc_ok bind_ok of
        Inl x \<Rightarrow> (x, None)
      | Inr p \<Rightarrow>
          (let p = p\<lparr>gp_gateway := fold (gateway_step jparse dump) evs (gp_gateway p)\<rparr>;
               (x, p) = gateway_shutdown p
           in (x, Some p)))"

section \<open>What every event keeps\<close>

definition published_inv :: "gateway \<Rightarrow> bool" where
  "published_inv g =
     (nc_conn (gw_nats g) \<and> nc_published (gw_nats g) = frames_processed (gw_service g) \<and>
      nc_published (gw_nats g) = of_nat (length (nc_wire (gw_nats g))) \<and>
      connected_devices (gw_service g) = 0 \<and> finite (clients (gw_hub g)) \<and>
      (\<forall>(subject, payload) \<in> set (nc_wire (gw_nats g)). subject = ''eyed.analyze''))"

lemma process_frame_conn: "nc_conn (gw_nats (snd (process_frame dump e now l f g))) = nc_conn (gw_nats g)"
  by (auto simp: process_frame_def publish_analyze_def Let_def split: prod.splits)

text \<open>Inside a stream the device counter is one higher.\<close>

lemma process_frame_published:
  assumes "process_frame dump e now l f g = (ack, g')"
    and "published_inv (g\<lparr>gw_service := (gw_service g)\<lparr>connected_devices := 0\<rparr>\<rparr>)"
  shows "published_inv (g'\<lparr>gw_service := (gw_service g')\<lparr>connected_devices := 0\<rparr>\<rparr>)"
  using process_frame_spec [OF assms(1)] process_frame_conn [of dump e now l f g] assms
  by (auto simp: published_inv_def sent_payload_def)

lemma stream_loop_published:
  "stream_loop dump items g = (acks, g') \<Longrightarrow>
   published_inv (g\<lparr>gw_service := (gw_service g)\<lparr>connected_devices := 0\<rparr>\<rparr>) \<Longrightarrow>
   published_inv (g'\<lparr>gw_service := (gw_service g')\<lparr>connected_devices := 0\<rparr>\<rparr>)"
proof (induction items arbitrary: g acks)
  case (Cons i "items")
  obtain ack g1 where p: "process_frame dump (item_env i) (item_now i) (item_latency i) (item_frame i) g = (ack, g1)"
    by fastforce
  from process_frame_published [OF p Cons.prems(2)] Cons.IH [of g1] Cons.prems(1) p show ?case
    by (auto split: if_splits prod.splits)
qed simp

lemma published_inv_device_free:
  "published_inv g \<longleftrightarrow> connected_devices (gw_service g) = 0 \<and>
     published_inv (g\<lparr>gw_service := (gw_service g)\<lparr>connected_devices := 0\<rparr>\<rparr>)"
  by (auto simp: published_inv_def)

lemma published_inv_breaker [simp]: "published_inv (g\<lparr>gw_breaker := b\<rparr>) = published_inv g"
  by (simp add: published_inv_def)

lemma on_message_published:
  assumes "published_inv g"
  shows "published_inv (snd (on_message jparse dump nt now payload g))"
proof -
  have fin: "finite (clients (gw_hub g))" using assms by (simp add: published_inv_def)
  have "finite (clients (fst (broadcast dump nt r (gw_hub g))))" for r
    using fin by (simp add: broadcast_eq)
  then have "published_inv (g\<lparr>gw_breaker := b, gw_hub := fst (broadcast dump nt r (gw_hub g))\<rparr>)" for b r
    using assms by (auto simp: published_inv_def)
  with assms show ?thesis
    by (auto simp: on_message_def result_callback_def Let_def split: option.splits sum.splits prod.splits)
      (metis fst_conv)+
qed

lemma gateway_step_published:
  assumes "published_inv g"
  shows "published_inv (gateway_step jparse dump ev g)"
proof (cases ev)
  case (Submit e now l f)
  obtain ack g' where p: "process_frame dump e now l f g = (ack, g')" by fastforce
  from process_frame_published [OF p] process_frame_spec(3) [OF p] assms Submit p show ?thesis
    by (subst published_inv_device_free) (auto simp: SubmitFrame_def published_inv_device_free [of g])
next
  case (Stream items)
  define g0 where "g0 = g\<lparr>gw_service := (gw_service g)\<lparr>connected_devices := connected_devices (gw_service g) + 1\<rparr>\<rparr>"
  obtain acks g' where l: "stream_loop dump items g0 = (acks, g')" by fastforce
  have "connected_devices (gw_service g') = connected_devices (gw_service g0)"
    using stream_loop_done [OF l] by (simp add: stream_done_def Let_def)
  moreover have "published_inv (g0\<lparr>gw_service := (gw_service g0)\<lparr>connected_devices := 0\<rparr>\<rparr>)"
    using assms by (auto simp: g0_def published_inv_def)
  ultimately show ?thesis
    using stream_loop_published [OF l] l assms Stream
    by (auto simp: StreamFrames_def g0_def published_inv_def Let_def)
next
  case (Result nt now payload)
  with on_message_published [OF assms] show ?thesis by simp
qed (use assms in \<open>auto simp: handle_request_def handle_health_ready_def ready_json_def GetStatus_def Let_def
      split: prod.splits\<close>)

interpretation gateway_runs: step_machine "gateway_step jparse dump" published_inv for jparse dump
  by unfold_locales (rule gateway_step_published)

lemma gateway_start_published:
  assumes "gateway_start env e grpc_ok bind_ok = Inr p"
  shows "published_inv (gp_gateway p)"
  using assms
  by (auto simp: gateway_start_def connect_def subscribe_results_def NatsClient_init_def published_inv_def
      GrpcServiceImpl_init_def WsHub_init_def Let_def split: sum.splits prod.splits if_splits)

section \<open>Properties of the process\<close>

text \<open>
  In every run of the gateway, at its end: what was handed to NATS are requests on
  \<open>eyed.analyze\<close> only, as many as the published counter and as the frames processed (modulo
  the width of the counters), and no stream is left counted as a device. The process exits with
  0 exactly when the gRPC server was built, and with a null dereference at shutdown when not.
\<close>

theorem gateway_run_accounting:
  assumes "gateway_main jparse dump env e grpc_ok bind_ok evs = (x, Some p)"
  shows "nc_published (gw_nats (gp_gateway p)) = frames_processed (gw_service (gp_gateway p)) \<and>
    nc_published (gw_nats (gp_gateway p)) = of_nat (length (nc_wire (gw_nats (gp_gateway p)))) \<and>
    connected_devices (gw_service (gp_gateway p)) = 0 \<and>
    (\<forall>(subject, payload) \<in> set (nc_wire (gw_nats (gp_gateway p))). subject = ''eyed.analyze'') \<and>
    \<not> running (gp_http p) \<and>
    x = (if grpc_ok then ExitCode 0 else Crash)"
proof -
  obtain p0 where p0: "gateway_start env e grpc_ok bind_ok = Inr p0"
    using assms by (auto simp: gateway_main_def split: sum.splits)
  define g where "g = fold (gateway_step jparse dump) evs (gp_gateway p0)"
  have "published_inv g"
    unfolding g_def by (rule gateway_runs.run_keeps [OF gateway_start_published [OF p0]])
  moreover have "(x, p) = gateway_shutdown (p0\<lparr>gp_gateway := g\<rparr>)"
    using assms by (auto simp: gateway_main_def p0 g_def Let_def split: prod.splits)
  moreover have "gp_grpc p0 = grpc_ok"
    using p0 by (auto simp: gateway_start_def Let_def split: sum.splits prod.splits if_splits)
  ultimately show ?thesis
    by (auto simp: gateway_shutdown_def published_inv_def NatsClient_close_def HttpServer_stop_def Let_def
        split: if_splits)
qed

text \<open>
  A gateway whose subscription failed starts all the same, and reports itself ready although
  no result will ever reach it.
\<close>

theorem gateway_ready_unsubscribed:
  assumes "options_ok e" "connect_ok e" "\<not> subscribe_ok e" "conn_connected e"
    and "stoi (http_port (Config_from_env env)) = Inr port"
  shows "\<exists>p. gateway_start env e grpc_ok bind_ok = Inr p \<and> \<not> nc_sub (gw_nats (gp_gateway p)) \<and>
    jget (fst (ready_json e now (gp_gateway p))) ''ready'' = Some (JBool True)"
  using assms
  by (simp add: gateway_start_def connect_def subscribe_results_def NatsClient_init_def ready_json_def
      is_connected_def get_state_def evaluate_def Breaker_init_def Let_def)

end
