(* ===== verification/Local_Store.thy ===== *)
theory Local_Store
  imports EyeD_Prelude
begin

text \<open>
  The storage service's object store: the interface \<^verbatim>\<open>storage/src/object_store.h\<close> as a locale
  and its implementation \<^verbatim>\<open>local_store.cpp\<close> over a model of the file system.

  A file system has regular files and directories, named by their resolved component lists
  (no symbolic links). What a system call does beyond the state is the parameter \<open>io\<close>: which
  of the calls of one \<^verbatim>\<open>put\<close> fail, and how many bytes a failing write or a failing flush
  leaves in the file.
\<close>

section \<open>Paths\<close>

fun split_path :: "string \<Rightarrow> string list" where
  "split_path [] = [[]]"
| "split_path (c # cs) =
     (if c = CHR ''/'' then [] # split_path cs
      else case split_path cs of [] \<Rightarrow> [[c]] | w # ws \<Rightarrow> (c # w) # ws)"

text \<open>Name resolution: empty and \<open>.\<close> components are skipped, \<open>..\<close> goes up.\<close>

fun normalise :: "string list \<Rightarrow> string list \<Rightarrow> string list" where
  "normalise acc [] = acc"
| "normalise acc (w # ws) =
     (if w = [] \<or> w = ''.'' then normalise acc ws
      else if w = ''..'' then normalise (butlast acc) ws
      else normalise (acc @ [w]) ws)"

definition resolve :: "string \<Rightarrow> string list" where
  "resolve p = normalise [] (split_path p)"

definition resolve_parent :: "string \<Rightarrow> string list" where
  "resolve_parent p = normalise [] (butlast (split_path p))"

section \<open>The file system\<close>

record fs =
  files :: "string list \<rightharpoonup> bytes"
  dirs :: "string list set"

text \<open>
  \<^verbatim>\<open>create_directories(p)\<close> creates \<open>p\<close> and its ancestors, and fails where one of them is a
  regular file.
\<close>

fun ancestors :: "string list \<Rightarrow> string list list" where
  "ancestors [] = [[]]"
| "ancestors (w # ws) = [] # map ((#) w) (ancestors ws)"

definition create_directories :: "string list \<Rightarrow> fs \<Rightarrow> fs option" where
  "create_directories p s =
     (if \<exists>a \<in> set (ancestors p). files s a \<noteq> None then None
      else Some (s\<lparr>dirs := dirs s \<union> set (ancestors p)\<rparr>))"

definition fs_exists :: "string list \<Rightarrow> fs \<Rightarrow> bool" where
  "fs_exists p s = (files s p \<noteq> None \<or> p \<in> dirs s)"

text \<open>\<^verbatim>\<open>remove(p, ec)\<close>: a file is removed, a directory only when it is empty, nothing is no error.\<close>

definition dir_empty :: "string list \<Rightarrow> fs \<Rightarrow> bool" where
  "dir_empty p s =
     ((\<forall>q \<in> dom (files s). q = [] \<or> butlast q \<noteq> p) \<and> (\<forall>q \<in> dirs s. q = [] \<or> butlast q \<noteq> p))"

definition fs_remove :: "string list \<Rightarrow> fs \<Rightarrow> bool \<times> fs" where
  "fs_remove p s =
     (if files s p \<noteq> None then (True, s\<lparr>files := (files s)(p := None)\<rparr>)
      else if p \<in> dirs s
      then if dir_empty p s then (True, s\<lparr>dirs := dirs s - {p}\<rparr>) else (False, s)
      else (True, s))"

text \<open>\<^verbatim>\<open>rename(a, b, ec)\<close> of a file over a file or nothing.\<close>

definition fs_rename :: "string list \<Rightarrow> string list \<Rightarrow> fs \<Rightarrow> fs option" where
  "fs_rename a b s =
     (case files s a of
        None \<Rightarrow> None
      | Some bs \<Rightarrow>
          if b \<in> dirs s then None
          else Some (s\<lparr>files := (files s)(a := None, b \<mapsto> bs)\<rparr>))"

section \<open>LocalStore\<close>

datatype error_code = NoError | Errno

record io =
  mkdir_fails :: bool
  open_fails :: bool
  write_fails :: "nat option"
  close_fails :: "nat option"
  rename_fails :: bool
  remove_fails :: bool

definition io_ok :: io where
  "io_ok = \<lparr>mkdir_fails = False, open_fails = False, write_fails = None, close_fails = None,
            rename_fails = False, remove_fails = False\<rparr>"

record LocalStore =
  root :: string
  disk :: fs

definition LocalStore_abs :: "string \<Rightarrow> string \<Rightarrow> string" where
  "LocalStore_abs rt rel =
     (if rel \<noteq> [] \<and> hd rel = CHR ''/'' then rel
      else if rt \<noteq> [] \<and> last rt \<noteq> CHR ''/'' then rt @ ''/'' @ rel else rt @ rel)"

text \<open>The constructor creates the root; its failure throws.\<close>

definition LocalStore_new :: "string \<Rightarrow> fs \<Rightarrow> exn + LocalStore" where
  "LocalStore_new abs_root s =
     (case create_directories (resolve abs_root) s of
        None \<Rightarrow> Inl (StdException ''filesystem_error'')
      | Some s' \<Rightarrow> Inr \<lparr>root = abs_root, disk = s'\<rparr>)"

definition try_remove :: "io \<Rightarrow> string list \<Rightarrow> fs \<Rightarrow> fs" where
  "try_remove io p s = (if remove_fails io then s else snd (fs_remove p s))"

text \<open>
  \<open>put_trace\<close> is \<^verbatim>\<open>put\<close> with every state the disk goes through, in order: the last one is the
  state it leaves. The stream is written and closed before the rename; an error of the final
  flush in the stream's destructor is not seen by the code.
\<close>

definition put_trace :: "io \<Rightarrow> string \<Rightarrow> string \<Rightarrow> bytes \<Rightarrow> fs \<Rightarrow> error_code \<times> fs list" where
  "put_trace io rt path data s =
     (let full = LocalStore_abs rt path; tmp = resolve (full @ ''.tmp'') in
      if mkdir_fails io then (Errno, [s])
      else case create_directories (resolve_parent full) s of
        None \<Rightarrow> (Errno, [s])
      | Some s1 \<Rightarrow>
          if open_fails io \<or> tmp \<in> dirs s1 then (Errno, [s, s1])
          else
            let s2 = s1\<lparr>files := (files s1)(tmp \<mapsto> [])\<rparr> in
            case (if data = [] then None else write_fails io) of
              Some n \<Rightarrow>
                let s3 = s2\<lparr>files := (files s2)(tmp \<mapsto> take n data)\<rparr>
                in (Errno, [s, s1, s2, s3, try_remove io tmp s3])
            | None \<Rightarrow>
                let kept = (case close_fails io of None \<Rightarrow> data | Some n \<Rightarrow> take n data);
                    s3 = s2\<lparr>files := (files s2)(tmp \<mapsto> kept)\<rparr>
                in if rename_fails io then (Errno, [s, s1, s2, s3, try_remove io tmp s3])
                   else case fs_rename tmp (resolve full) s3 of
                     None \<Rightarrow> (Errno, [s, s1, s2, s3, try_remove io tmp s3])
                   | Some s4 \<Rightarrow> (NoError, [s, s1, s2, s3, s4]))"

definition put :: "io \<Rightarrow> string \<Rightarrow> bytes \<Rightarrow> LocalStore \<Rightarrow> error_code \<times> LocalStore" where
  "put io path data st =
     (let (ec, ss) = put_trace io (root st) path data (disk st) in (ec, st\<lparr>disk := last ss\<rparr>))"

definition LocalStore_remove :: "io \<Rightarrow> string \<Rightarrow> LocalStore \<Rightarrow> error_code \<times> LocalStore" where
  "LocalStore_remove io path st =
     (if remove_fails io then (Errno, st)
      else let (ok, s) = fs_remove (resolve (LocalStore_abs (root st) path)) (disk st)
           in (if ok then NoError else Errno, st\<lparr>disk := s\<rparr>))"

text \<open>
  \<^verbatim>\<open>walk\<close>: the recursive iterator yields the entries below the start in an order of its own,
  the parameter \<open>iter\<close> (nothing where the start is a regular file or cannot be read); each is passed with its path relative to the root and its kind, and
  the walk stops when the callback returns false. The callback's state is threaded.
\<close>

fun walk_loop :: "fs \<Rightarrow> nat \<Rightarrow> (string list \<Rightarrow> bool \<Rightarrow> 's \<Rightarrow> bool \<times> 's) \<Rightarrow> string list list \<Rightarrow> 's \<Rightarrow> 's" where
  "walk_loop s n fn [] a = a"
| "walk_loop s n fn (e # es) a =
     (let (go, a') = fn (drop n e) (e \<in> dirs s) a in if go then walk_loop s n fn es a' else a')"

definition walk ::
  "(string list \<Rightarrow> fs \<Rightarrow> string list list) \<Rightarrow> string \<Rightarrow>
   (string list \<Rightarrow> bool \<Rightarrow> 's \<Rightarrow> bool \<times> 's) \<Rightarrow> LocalStore \<Rightarrow> 's \<Rightarrow> 's" where
  "walk iter rel_root fn st a =
     (let full = resolve (LocalStore_abs (root st) rel_root) in
      if \<not> fs_exists full (disk st) then a
      else walk_loop (disk st) (length (resolve (root st))) fn (iter full (disk st)) a)"

text \<open>The contents of a stored object.\<close>

definition store_get :: "LocalStore \<Rightarrow> string \<Rightarrow> bytes option" where
  "store_get st path = files (disk st) (resolve (LocalStore_abs (root st) path))"

section \<open>Resolving store paths\<close>

lemma split_path_not_Nil [simp]: "split_path p \<noteq> []"
  by (cases p) (auto split: list.splits)

lemma split_path_slash: "split_path (a @ CHR ''/'' # b) = split_path a @ split_path b"
  by (induction a) (auto split: list.splits)

lemma split_path_suffix:
  "CHR ''/'' \<notin> set e \<Longrightarrow> split_path (a @ e) = butlast (split_path a) @ [last (split_path a) @ e]"
proof (induction a)
  case Nil
  then show ?case by (induction e) auto
next
  case (Cons c a)
  then show ?case by (cases "split_path a") (auto split: list.splits)
qed

fun join_path :: "string list \<Rightarrow> string" where
  "join_path [] = []"
| "join_path [w] = w"
| "join_path (w # ws) = w @ ''/'' @ join_path ws"

lemma join_split_path: "join_path (split_path p) = p"
proof (induction p)
  case (Cons c p)
  then show ?case
    by (cases "split_path p" rule: join_path.cases) (auto)
qed simp

lemma split_path_inject: "split_path p = split_path q \<longleftrightarrow> p = q"
  by (metis join_split_path)

lemma split_path_single: "CHR ''/'' \<notin> set w \<Longrightarrow> split_path w = [w]"
  by (induction w) auto

lemma normalise_append: "normalise acc (xs @ ys) = normalise (normalise acc xs) ys"
  by (induction acc xs rule: normalise.induct) simp_all

definition plain :: "string \<Rightarrow> bool" where
  "plain w = (w \<noteq> [] \<and> w \<noteq> ''.'' \<and> w \<noteq> ''..'')"

lemma normalise_plain: "(\<forall>w \<in> set ws. plain w) \<Longrightarrow> normalise acc ws = acc @ ws"
  by (induction ws arbitrary: acc) (auto simp: plain_def)

text \<open>
  The paths the contract is about: relative, every component a proper name, and not the name
  of a temporary file.
\<close>

definition ok_path :: "string \<Rightarrow> bool" where
  "ok_path p = ((\<forall>w \<in> set (split_path p). plain w) \<and> \<not> (\<exists>w. last (split_path p) = w @ ''.tmp''))"

lemma ok_path_relative: "ok_path p \<Longrightarrow> p \<noteq> [] \<and> hd p \<noteq> CHR ''/''"
  by (cases p) (auto simp: ok_path_def plain_def)

lemma normalise_abs:
  assumes "p = [] \<or> hd p \<noteq> CHR ''/''"
  shows "normalise [] (split_path (LocalStore_abs rt p)) = normalise (resolve rt) (split_path p)"
proof -
  have "resolve (a @ ''/'') = resolve a" for a
    by (simp add: resolve_def split_path_slash normalise_append)
  moreover have "rt = butlast rt @ ''/''" if "rt \<noteq> []" "last rt = CHR ''/''"
    using that append_butlast_last_id [of rt] by simp
  ultimately have "normalise [] (split_path (rt @ p)) = normalise (resolve rt) (split_path p)"
    if "rt \<noteq> []" "last rt = CHR ''/''"
    using that by (metis append.assoc append_Cons append_Nil normalise_append resolve_def split_path_slash)
  then show ?thesis
    using assms
    by (cases "rt = []") (auto simp: LocalStore_abs_def resolve_def split_path_slash normalise_append)
qed

lemma resolve_abs: "ok_path p \<Longrightarrow> resolve (LocalStore_abs rt p) = resolve rt @ split_path p"
  using ok_path_relative [of p] normalise_abs [of p rt]
  by (simp add: resolve_def [of "LocalStore_abs rt p"] ok_path_def normalise_plain)

definition tmp_name :: "string \<Rightarrow> string list" where
  "tmp_name p = butlast (split_path p) @ [last (split_path p) @ ''.tmp'']"

lemma resolve_tmp: "ok_path p \<Longrightarrow> resolve (LocalStore_abs rt p @ ''.tmp'') = resolve rt @ tmp_name p"
proof -
  assume ok: "ok_path p"
  have "LocalStore_abs rt p @ ''.tmp'' = LocalStore_abs rt (p @ ''.tmp'')"
    using ok_path_relative [OF ok] by (simp add: LocalStore_abs_def)
  moreover have "hd (p @ ''.tmp'') \<noteq> CHR ''/''" using ok_path_relative [OF ok] by simp
  moreover have "split_path (p @ ''.tmp'') = tmp_name p"
    by (simp add: tmp_name_def split_path_suffix)
  moreover have "\<forall>w \<in> set (tmp_name p). plain w"
    using ok by (auto simp: ok_path_def tmp_name_def plain_def dest: in_set_butlastD)
  ultimately show ?thesis
    using normalise_abs [of "p @ ''.tmp''" rt] by (simp add: resolve_def normalise_plain)
qed

lemma tmp_name_neq: "ok_path q \<Longrightarrow> tmp_name p \<noteq> split_path q"
  unfolding ok_path_def tmp_name_def by (metis last_snoc)

section \<open>put\<close>

lemma create_directories_files: "create_directories p s = Some s' \<Longrightarrow> files s' = files s"
  by (auto simp: create_directories_def split: if_splits)

lemma try_remove_files:
  "files s p \<noteq> None \<Longrightarrow> files (try_remove io p s) = (if remove_fails io then files s else (files s)(p := None))"
  by (simp add: try_remove_def fs_remove_def)

definition kept :: "io \<Rightarrow> bytes \<Rightarrow> bytes" where
  "kept io data = (case close_fails io of None \<Rightarrow> data | Some n \<Rightarrow> take n data)"

lemma put_trace_states:
  assumes "put_trace io rt path data s = (ec, ss)"
    and full: "full = resolve (LocalStore_abs rt path)"
    and tmp: "tmp = resolve (LocalStore_abs rt path @ ''.tmp'')" and neq: "tmp \<noteq> full"
    and x: "x \<in> set ss"
  shows "files x full = files s full \<or> files x full = Some (kept io data)"
    and "q \<noteq> full \<Longrightarrow> q \<noteq> tmp \<Longrightarrow> files x q = files s q"
proof -
  have "(files x full = files s full \<or> files x full = Some (kept io data)) \<and>
      (q \<noteq> full \<longrightarrow> q \<noteq> tmp \<longrightarrow> files x q = files s q)"
    using assms(1) x neq unfolding put_trace_def Let_def
    by (auto simp: try_remove_files fs_rename_def kept_def simp flip: full tmp
        dest!: create_directories_files split: if_split_asm option.split_asm)
  then show "files x full = files s full \<or> files x full = Some (kept io data)"
    and "q \<noteq> full \<Longrightarrow> q \<noteq> tmp \<Longrightarrow> files x q = files s q" by auto
qed

lemma put_trace_result:
  assumes "put_trace io rt path data s = (ec, ss)"
    and full: "full = resolve (LocalStore_abs rt path)"
    and tmp: "tmp = resolve (LocalStore_abs rt path @ ''.tmp'')" and neq: "tmp \<noteq> full"
  shows "ss \<noteq> []"
    and "ec = NoError \<Longrightarrow> files (last ss) = (files s)(tmp := None, full \<mapsto> kept io data)"
    and "ec = Errno \<Longrightarrow> files (last ss) full = files s full"
    and "ec = Errno \<Longrightarrow> \<not> remove_fails io \<Longrightarrow>
      files (last ss) tmp = None \<or> files (last ss) tmp = files s tmp"
proof -
  have "ss \<noteq> [] \<and> (ec = NoError \<longrightarrow> files (last ss) = (files s)(tmp := None, full \<mapsto> kept io data)) \<and>
      (ec = Errno \<longrightarrow> files (last ss) full = files s full) \<and>
      (ec = Errno \<longrightarrow> \<not> remove_fails io \<longrightarrow>
         files (last ss) tmp = None \<or> files (last ss) tmp = files s tmp)"
    using assms(1) neq unfolding put_trace_def Let_def
    by (auto simp: try_remove_files fs_rename_def kept_def simp flip: full tmp
        dest!: create_directories_files split: if_split_asm option.split_asm)
  then show "ss \<noteq> []"
    and "ec = NoError \<Longrightarrow> files (last ss) = (files s)(tmp := None, full \<mapsto> kept io data)"
    and "ec = Errno \<Longrightarrow> files (last ss) full = files s full"
    and "ec = Errno \<Longrightarrow> \<not> remove_fails io \<Longrightarrow>
      files (last ss) tmp = None \<or> files (last ss) tmp = files s tmp"
    by auto
qed

text \<open>With no fault, \<^verbatim>\<open>put\<close> succeeds unless a directory or a file is in the way.\<close>

definition put_possible :: "string \<Rightarrow> string \<Rightarrow> fs \<Rightarrow> bool" where
  "put_possible rt path s =
     (let full = LocalStore_abs rt path; d = resolve_parent full in
      (\<forall>a \<in> set (ancestors d). files s a = None) \<and>
      resolve full \<notin> dirs s \<union> set (ancestors d) \<and>
      resolve (full @ ''.tmp'') \<notin> dirs s \<union> set (ancestors d))"

lemma put_trace_succeeds:
  assumes "put_possible rt path s" and "\<not> mkdir_fails io" "\<not> open_fails io" "write_fails io = None"
    "\<not> rename_fails io"
  shows "fst (put_trace io rt path data s) = NoError"
  using assms
  by (simp add: put_possible_def put_trace_def create_directories_def fs_rename_def Let_def)

section \<open>The contract of an object store\<close>

text \<open>
  What the archive relies on: a successful \<^verbatim>\<open>put\<close> stores exactly the data, a failed one leaves
  the object as it was, and neither touches another object.
\<close>

locale object_store =
  fixes sput :: "string \<Rightarrow> bytes \<Rightarrow> 's \<Rightarrow> error_code \<times> 's"
    and sget :: "'s \<Rightarrow> string \<Rightarrow> bytes option"
    and good :: "string \<Rightarrow> bool"
  assumes put_same: "good p \<Longrightarrow> sput p d s = (NoError, s') \<Longrightarrow> sget s' p = Some d"
    and put_failed: "good p \<Longrightarrow> sput p d s = (Errno, s') \<Longrightarrow> sget s' p = sget s p"
    and put_other: "good p \<Longrightarrow> good q \<Longrightarrow> p \<noteq> q \<Longrightarrow> sput p d s = (ec, s') \<Longrightarrow> sget s' q = sget s q"
begin

lemma put_two:
  assumes "good p" "good q" "p \<noteq> q" "sput p d s = (NoError, s1)" "sput q e s1 = (NoError, s2)"
  shows "sget s2 p = Some d" and "sget s2 q = Some e"
  using assms put_same [of p d s s1] put_same [of q e s1 s2] put_other [of q p e s1 NoError s2]
  by auto

end

lemma put_get:
  assumes "ok_path p" "ok_path q" "put io p d st = (ec, st')"
  shows "store_get st' q =
    (if q = p then (if ec = NoError then Some (kept io d) else store_get st p) else store_get st q)"
proof -
  obtain ss where tr: "put_trace io (root st) p d (disk st) = (ec, ss)" and st': "st' = st\<lparr>disk := last ss\<rparr>"
    using assms(3) by (auto simp: put_def split: prod.splits)
  let ?full = "resolve (root st) @ split_path p" and ?tmp = "resolve (root st) @ tmp_name p"
  have neq: "?tmp \<noteq> ?full" using tmp_name_neq [OF assms(1)] by simp
  note R = put_trace_result [OF tr resolve_abs [OF assms(1), symmetric] resolve_tmp [OF assms(1), symmetric] neq]
  note S = put_trace_states [OF tr resolve_abs [OF assms(1), symmetric] resolve_tmp [OF assms(1), symmetric] neq
      last_in_set [OF R(1)]]
  show ?thesis
    using R S(2) [of "resolve (root st) @ split_path q"] assms tmp_name_neq [OF assms(2), of p]
    by (cases ec) (auto simp: store_get_def st' resolve_abs split_path_inject)
qed

interpretation local_store: object_store "put io" store_get "\<lambda>p. ok_path p \<and> close_fails io = None" for io
  by unfold_locales (auto simp: put_get kept_def)

section \<open>Properties of the store\<close>

text \<open>
  C8. A put is atomic: whatever system call fails, and at every state the disk goes through
  (so also after a crash between any two of them), the object holds its old contents or all
  of the new data, and no file other than the object and its temporary file is touched. On
  success the object holds the data and the temporary file is gone; on an error the object is
  unchanged.
\<close>

theorem put_atomic:
  assumes "ok_path p" and "close_fails io = None" and "put_trace io rt p data s = (ec, ss)"
  shows "let full = resolve rt @ split_path p; tmp = resolve rt @ tmp_name p in
    (\<forall>x \<in> set ss. (files x full = files s full \<or> files x full = Some data) \<and>
       (\<forall>q. q \<noteq> full \<longrightarrow> q \<noteq> tmp \<longrightarrow> files x q = files s q)) \<and>
    (ec = NoError \<longrightarrow> files (last ss) full = Some data \<and> files (last ss) tmp = None) \<and>
    (ec = Errno \<longrightarrow> files (last ss) full = files s full)"
proof -
  let ?full = "resolve rt @ split_path p" and ?tmp = "resolve rt @ tmp_name p"
  have neq: "?tmp \<noteq> ?full" using tmp_name_neq [OF assms(1)] by simp
  have k: "kept io data = data" using assms(2) by (simp add: kept_def)
  note R = put_trace_result [OF assms(3) resolve_abs [OF assms(1), symmetric] resolve_tmp [OF assms(1), symmetric] neq]
  note S = put_trace_states [OF assms(3) resolve_abs [OF assms(1), symmetric] resolve_tmp [OF assms(1), symmetric] neq]
  show ?thesis using R S neq by (auto simp: Let_def k)
qed

definition sample_fs :: fs where
  "sample_fs = \<lparr>files = [[''data'', ''a.jpg''] \<mapsto> [1]], dirs = {[], [''data'']}\<rparr>"

lemma sample_paths: "ok_path ''a.jpg''" "resolve ''/data'' = [''data'']" "split_path ''a.jpg'' = [''a.jpg'']"
  by (simp_all add: ok_path_def plain_def resolve_def)

lemma sample_possible: "put_possible ''/data'' ''a.jpg'' sample_fs"
  by (simp add: put_possible_def sample_fs_def resolve_def resolve_parent_def LocalStore_abs_def)

theorem put_atomic_witness:
  "let ss = snd (put_trace io_ok ''/data'' ''a.jpg'' [2, 3] sample_fs)
   in files (last ss) [''data'', ''a.jpg''] = Some [2, 3] \<and> files (last ss) [''data'', ''a.jpg.tmp''] = None"
proof -
  obtain ss where tr: "put_trace io_ok ''/data'' ''a.jpg'' [2, 3] sample_fs = (NoError, ss)"
    using put_trace_succeeds [OF sample_possible, of io_ok "[2, 3]"]
    by (cases "put_trace io_ok ''/data'' ''a.jpg'' [2, 3] sample_fs") (simp add: io_ok_def)
  from put_atomic [OF sample_paths(1) _ tr] show ?thesis
    by (simp add: io_ok_def Let_def sample_paths tmp_name_def tr [unfolded io_ok_def])
qed

text \<open>
  A put can report success and store a truncated object: the stream's error is tested
  before its destructor flushes the last buffer, so when only that flush fails (a full disk),
  the shortened temporary file is renamed over the object and no error is returned.
\<close>

theorem put_hides_failed_flush:
  assumes "ok_path p" and "put_possible (root st) p (disk st)"
  shows "\<exists>st'. put (io_ok\<lparr>close_fails := Some n\<rparr>) p data st = (NoError, st') \<and>
    store_get st' p = Some (take n data)"
proof -
  let ?io = "io_ok\<lparr>close_fails := Some n\<rparr>"
  obtain ec st' where p: "put ?io p data st = (ec, st')" by fastforce
  with put_trace_succeeds [OF assms(2), of ?io data] have "ec = NoError"
    by (auto simp: io_ok_def put_def split: prod.splits)
  with p put_get [OF assms(1) assms(1) p] show ?thesis by (simp add: kept_def)
qed

theorem put_hides_failed_flush_witness:
  "\<exists>st'. put (io_ok\<lparr>close_fails := Some 1\<rparr>) ''a.jpg'' [2, 3] \<lparr>root = ''/data'', disk = sample_fs\<rparr> = (NoError, st') \<and>
     store_get st' ''a.jpg'' = Some [2]"
  using put_hides_failed_flush [of "''a.jpg''" "\<lparr>root = ''/data'', disk = sample_fs\<rparr>" 1 "[2, 3]"]
  by (simp add: sample_paths sample_possible)

end
