(* ===== verification/Archive.thy ===== *)
theory Archive
  imports Base64 Calendar Local_Store
begin

text \<open>
  The archive handler of the storage service (\<^verbatim>\<open>storage/src/archive_handler.cpp\<close>): path
  sanitising, the date directory, parsing of an archive message and writing of its objects.
  The object store is reached through its virtual \<^verbatim>\<open>put\<close>, a parameter here; the JSON parser
  and printer are the parameters \<open>jparse\<close> and \<open>dump\<close>, the clock is \<open>now\<close>.
\<close>

section \<open>sanitize_path\<close>

definition unsafe_char :: "char \<Rightarrow> bool" where
  "unsafe_char c =
     (c = CHR ''/'' \<or> c = CHR 0x5C \<or> c = CHR '':'' \<or> (of_char c :: nat) < 32 \<or> (of_char c :: nat) = 127)"

fun sanitize_loop :: "bool \<Rightarrow> string \<Rightarrow> string" where
  "sanitize_loop prev_unsafe [] = []"
| "sanitize_loop prev_unsafe (c # cs) =
     (if unsafe_char c
      then (if \<not> prev_unsafe then ''_'' else []) @ sanitize_loop True cs
      else c # sanitize_loop False cs)"

definition sanitize_path :: "string \<Rightarrow> string" where
  "sanitize_path s =
     (if s = [] then ''_''
      else let out = sanitize_loop False s in
           if out = [] then ''_''
           else if out = ''.'' then ''_''
           else if out = ''..'' then ''_''
           else if length out \<ge> 2 \<and> out ! 0 = CHR ''.'' \<and> out ! 1 = CHR ''.'' then ''_''
           else out)"

section \<open>extract_date\<close>

text \<open>The digits and dashes of \<^verbatim>\<open>YYYY-MM-DD\<close> in the first ten characters.\<close>

definition date_shape :: "string \<Rightarrow> bool" where
  "date_shape s =
     (is_digit (s ! 0) \<and> is_digit (s ! 1) \<and> is_digit (s ! 2) \<and> is_digit (s ! 3) \<and> s ! 4 = CHR ''-'' \<and>
      is_digit (s ! 5) \<and> is_digit (s ! 6) \<and> s ! 7 = CHR ''-'' \<and> is_digit (s ! 8) \<and> is_digit (s ! 9))"

definition substr :: "string \<Rightarrow> nat \<Rightarrow> nat \<Rightarrow> string" where
  "substr s i n = take n (drop i s)"

definition extract_date :: "int \<Rightarrow> string \<Rightarrow> string" where
  "extract_date now iso8601 =
     (if length iso8601 \<ge> 10 \<and> date_shape iso8601 \<and>
         (let year = decimal_value (substr iso8601 0 4);
              month = decimal_value (substr iso8601 5 2);
              day = decimal_value (substr iso8601 8 2)
          in 1970 \<le> year \<and> year \<le> 9999 \<and> 1 \<le> month \<and> month \<le> 12 \<and> 1 \<le> day \<and> day \<le> 31)
      then substr iso8601 0 10
      else strftime_date (gmtime now))"

section \<open>ArchiveHandler\<close>

record ParsedMessage =
  frame_id :: string
  device_id :: string
  timestamp :: string
  jpeg :: bytes
  has_jpeg :: bool
  metadata_json :: string

text \<open>
  \<open>ArchiveHandler_parse\<close> returns the message, nothing where the source returns false, or the exception that
  an accessor throws: only the call of the parser is inside the \<^verbatim>\<open>try\<close> block.
\<close>

definition parse_jpeg :: "json \<Rightarrow> (bytes \<times> bool) option" where
  "parse_jpeg j =
     (case jget j ''raw_jpeg_b64'' of
        Some (JStr b64) \<Rightarrow>
          if b64 \<noteq> []
          then let jpg = base64_decode b64 in if jpg \<noteq> [] then Some (jpg, True) else None
          else Some ([], False)
      | _ \<Rightarrow> Some ([], False))"

definition ArchiveHandler_parse ::
  "(bytes \<Rightarrow> json option) \<Rightarrow> (json \<Rightarrow> string) \<Rightarrow> bytes \<Rightarrow> exn + ParsedMessage option" where
  "ArchiveHandler_parse jparse dump data =
     (case jparse data of
        None \<Rightarrow> Inr None
      | Some j \<Rightarrow>
          if \<not> is_object j then Inr None
          else case jvalue_str j ''frame_id'' ''unknown'' of Inl e \<Rightarrow> Inl e
          | Inr fid \<Rightarrow> (case jvalue_str j ''device_id'' ''unknown'' of Inl e \<Rightarrow> Inl e
          | Inr did \<Rightarrow> (case jvalue_str j ''timestamp'' [] of Inl e \<Rightarrow> Inl e
          | Inr ts \<Rightarrow>
              (case parse_jpeg j of
                 None \<Rightarrow> Inr None
               | Some (jpg, hj) \<Rightarrow>
                   Inr (Some \<lparr>frame_id = fid, device_id = did, timestamp = ts, jpeg = jpg,
                     has_jpeg = hj, metadata_json = dump (jerase ''raw_jpeg_b64'' j)\<rparr>)))))"

definition base_path :: "int \<Rightarrow> ParsedMessage \<Rightarrow> string" where
  "base_path now msg =
     ''raw/'' @ extract_date now (timestamp msg) @ ''/'' @ sanitize_path (device_id msg) @ ''/'' @
     sanitize_path (frame_id msg)"

definition ArchiveHandler_write ::
  "(string \<Rightarrow> bytes \<Rightarrow> 's \<Rightarrow> error_code \<times> 's) \<Rightarrow> int \<Rightarrow> ParsedMessage \<Rightarrow> 's \<Rightarrow> bool \<times> 's" where
  "ArchiveHandler_write sput now msg st =
     (let base = base_path now msg;
          (ec, st1) = (if has_jpeg msg then sput (base @ ''.jpg'') (jpeg msg) st else (NoError, st))
      in if ec \<noteq> NoError then (False, st1)
         else let (ec, st2) = sput (base @ ''.meta.json'') (bytes_of_string (metadata_json msg)) st1
              in (ec = NoError, st2))"

record 's ArchiveHandler =
  store :: 's
  archived :: u64
  errors :: u64

definition handle_message ::
  "(string \<Rightarrow> bytes \<Rightarrow> 's \<Rightarrow> error_code \<times> 's) \<Rightarrow> (bytes \<Rightarrow> json option) \<Rightarrow> (json \<Rightarrow> string) \<Rightarrow> int \<Rightarrow>
   bytes \<Rightarrow> 's ArchiveHandler \<Rightarrow> exn + 's ArchiveHandler" where
  "handle_message sput jparse dump now data h =
     (case ArchiveHandler_parse jparse dump data of
        Inl e \<Rightarrow> Inl e
      | Inr None \<Rightarrow> Inr (h\<lparr>errors := errors h + 1\<rparr>)
      | Inr (Some msg) \<Rightarrow>
          let (ok, st) = ArchiveHandler_write sput now msg (store h) in
          if \<not> ok then Inr (h\<lparr>store := st, errors := errors h + 1\<rparr>)
          else Inr (h\<lparr>store := st, archived := archived h + 1\<rparr>))"

text \<open>\<^verbatim>\<open>nats_archive_cb\<close>: an empty payload is dropped, everything else handled.\<close>

definition nats_archive_cb ::
  "(string \<Rightarrow> bytes \<Rightarrow> 's \<Rightarrow> error_code \<times> 's) \<Rightarrow> (bytes \<Rightarrow> json option) \<Rightarrow> (json \<Rightarrow> string) \<Rightarrow> int \<Rightarrow>
   bytes option \<Rightarrow> 's ArchiveHandler \<Rightarrow> exn + 's ArchiveHandler" where
  "nats_archive_cb sput jparse dump now payload h =
     (case payload of
        None \<Rightarrow> Inr h
      | Some data \<Rightarrow> if length data > 0 then handle_message sput jparse dump now data h else Inr h)"

section \<open>Sanitised names\<close>

definition safe_name :: "string \<Rightarrow> bool" where
  "safe_name s = (s \<noteq> [] \<and> s \<noteq> ''.'' \<and> take 2 s \<noteq> ''..'' \<and> (\<forall>c \<in> set s. \<not> unsafe_char c))"

lemma sanitize_loop_chars: "c \<in> set (sanitize_loop p s) \<Longrightarrow> \<not> unsafe_char c"
  by (induction p s rule: sanitize_loop.induct) (auto simp: unsafe_char_def split: if_splits)

lemma sanitize_loop_id: "(\<forall>c \<in> set s. \<not> unsafe_char c) \<Longrightarrow> sanitize_loop p s = s"
  by (induction s arbitrary: p) auto

lemma take_2: "take 2 s = [a, b] \<longleftrightarrow> length s \<ge> 2 \<and> s ! 0 = a \<and> s ! 1 = b"
  by (cases s; cases "tl s") (auto simp: numeral_2_eq_2)

lemma safe_underscore: "safe_name ''_''"
  by (simp add: safe_name_def unsafe_char_def)

lemma sanitize_path_safe: "safe_name (sanitize_path s)"
  using sanitize_loop_chars [of _ False s] safe_underscore
  by (auto simp: sanitize_path_def Let_def safe_name_def take_2)

lemma sanitize_path_id: "safe_name s \<Longrightarrow> sanitize_path s = s"
  by (auto simp: sanitize_path_def safe_name_def sanitize_loop_id take_2)

section \<open>Object paths\<close>

lemma safe_name_no_slash: "safe_name s \<Longrightarrow> CHR ''/'' \<notin> set s"
  by (auto simp: safe_name_def unsafe_char_def)

lemma digits_no_slash: "(\<forall>c \<in> set s. is_digit c) \<Longrightarrow> CHR ''/'' \<notin> set s"
  by (auto simp: is_digit_def)

lemma pad2_digits: "\<forall>c \<in> set (pad2 n). is_digit c"
  by (simp add: pad2_def digit_def)

definition date_char :: "char \<Rightarrow> bool" where
  "date_char c = (is_digit c \<or> c = CHR ''-'')"

lemma nth_10: "length s = 10 \<Longrightarrow> s = [s ! 0, s ! 1, s ! 2, s ! 3, s ! 4, s ! 5, s ! 6, s ! 7, s ! 8, s ! 9]"
  by (rule nth_equalityI) (auto simp: less_Suc_eq numeral_eq_Suc)

lemma extract_date_chars: "c \<in> set (extract_date now ts) \<Longrightarrow> date_char c"
proof (cases "extract_date now ts = strftime_date (gmtime now)")
  case True
  assume "c \<in> set (extract_date now ts)"
  with True show ?thesis
    using to_string_digits pad2_digits by (auto simp: strftime_date_def date_char_def)
next
  case False
  assume c: "c \<in> set (extract_date now ts)"
  from False have "length ts \<ge> 10" "date_shape ts" "extract_date now ts = take 10 ts"
    by (auto simp: extract_date_def substr_def Let_def split: if_splits)
  with c nth_10 [of "take 10 ts"] show ?thesis
    by (auto simp: date_shape_def date_char_def nth_10)
qed

lemma extract_date_not_Nil: "extract_date now ts \<noteq> []"
  by (auto simp: extract_date_def substr_def strftime_date_def Let_def)

definition object_dirs :: "int \<Rightarrow> ParsedMessage \<Rightarrow> string list" where
  "object_dirs now msg = [''raw'', extract_date now (timestamp msg), sanitize_path (device_id msg)]"

lemma base_path_split:
  assumes "CHR ''/'' \<notin> set e"
  shows "split_path (base_path now msg @ e) = object_dirs now msg @ [sanitize_path (frame_id msg) @ e]"
proof -
  have "CHR ''/'' \<notin> set (extract_date now (timestamp msg))"
    using extract_date_chars [of "CHR ''/''" now "timestamp msg"] by (auto simp: date_char_def is_digit_def)
  moreover have "CHR ''/'' \<notin> set (sanitize_path s)" for s
    by (rule safe_name_no_slash [OF sanitize_path_safe])
  moreover have "base_path now msg @ e =
      ''raw'' @ CHR ''/'' # extract_date now (timestamp msg) @ CHR ''/'' # sanitize_path (device_id msg) @
      CHR ''/'' # sanitize_path (frame_id msg) @ e"
    by (simp add: base_path_def)
  ultimately show ?thesis
    using assms by (simp add: split_path_slash split_path_single object_dirs_def)
qed

lemma date_plain: "plain (extract_date now ts)"
  using extract_date_chars [of _ now ts] extract_date_not_Nil [of now ts]
  by (auto simp: plain_def date_char_def is_digit_def)

lemma safe_plain: "safe_name s \<Longrightarrow> plain s"
  by (auto simp: safe_name_def plain_def)

lemma ends_with_tmp: "x @ ''.jpg'' \<noteq> w @ ''.tmp''" "x @ ''.meta.json'' \<noteq> w @ ''.tmp''"
proof -
  have "rev (x @ ''.jpg'') \<noteq> rev (w @ ''.tmp'')" "rev (x @ ''.meta.json'') \<noteq> rev (w @ ''.tmp'')"
    by simp_all
  then show "x @ ''.jpg'' \<noteq> w @ ''.tmp''" "x @ ''.meta.json'' \<noteq> w @ ''.tmp''" by metis+
qed

lemma object_paths_ok:
  "ok_path (base_path now msg @ ''.jpg'')" "ok_path (base_path now msg @ ''.meta.json'')"
proof -
  have *: "\<forall>w \<in> set (object_dirs now msg). plain w"
    by (simp add: object_dirs_def date_plain safe_plain sanitize_path_safe) (simp add: plain_def)
  have "plain (x @ ''.jpg'')" "plain (x @ ''.meta.json'')" for x
    by (auto simp: plain_def append_eq_Cons_conv)
  with * show "ok_path (base_path now msg @ ''.jpg'')" "ok_path (base_path now msg @ ''.meta.json'')"
    by (auto simp: ok_path_def base_path_split ends_with_tmp simp del: append_assoc)
qed

lemma object_paths_differ: "base_path now msg @ ''.jpg'' \<noteq> base_path now msg @ ''.meta.json''"
  by simp

section \<open>The archive over an object store\<close>

context object_store
begin

text \<open>
  What one message does to any store that keeps the contract: on success both objects hold
  the message's data; whatever happens, an object at another path is not touched.
\<close>

lemma write_success:
  assumes "good (base_path now msg @ ''.jpg'')" "good (base_path now msg @ ''.meta.json'')"
    and "ArchiveHandler_write sput now msg s = (True, s')"
  shows "sget s' (base_path now msg @ ''.meta.json'') = Some (bytes_of_string (metadata_json msg))"
    and "has_jpeg msg \<Longrightarrow> sget s' (base_path now msg @ ''.jpg'') = Some (jpeg msg)"
proof -
  obtain s1 where s1: "(if has_jpeg msg then sput (base_path now msg @ ''.jpg'') (jpeg msg) s else (NoError, s)) = (NoError, s1)"
    and s2: "sput (base_path now msg @ ''.meta.json'') (bytes_of_string (metadata_json msg)) s1 = (NoError, s')"
    using assms(3) by (auto simp: ArchiveHandler_write_def Let_def split: prod.splits if_splits)
  show "sget s' (base_path now msg @ ''.meta.json'') = Some (bytes_of_string (metadata_json msg))"
    by (rule put_same [OF assms(2) s2])
  show "sget s' (base_path now msg @ ''.jpg'') = Some (jpeg msg)" if "has_jpeg msg"
    using that s1 put_two(1) [OF assms(1,2) object_paths_differ _ s2, of "jpeg msg" s] by simp
qed

lemma write_frame:
  assumes "good (base_path now msg @ ''.jpg'')" "good (base_path now msg @ ''.meta.json'')" "good q"
    and "q \<noteq> base_path now msg @ ''.jpg''" "q \<noteq> base_path now msg @ ''.meta.json''"
  shows "sget (snd (ArchiveHandler_write sput now msg s)) q = sget s q"
  using assms put_other [of _ q]
  by (auto simp: ArchiveHandler_write_def Let_def split: prod.splits if_splits)

end

lemma write_counts:
  assumes "handle_message sput jparse dump now data h = Inr h'"
  shows "archived h' = archived h + 1 \<and> errors h' = errors h \<or>
    archived h' = archived h \<and> errors h' = errors h + 1"
  using assms
  by (auto simp: handle_message_def Let_def split: sum.splits option.splits prod.splits if_splits)

section \<open>Properties of the archive\<close>

text \<open>
  C18. A sanitised name is always safe as a single path component (not empty, not \<open>.\<close>, not
  starting with \<open>..\<close>, without separators, colons and control characters), and exactly the safe
  names are left unchanged.
\<close>

theorem sanitize_path_correct:
  "safe_name (sanitize_path s) \<and> (sanitize_path s = s \<longleftrightarrow> safe_name s)"
  using sanitize_path_safe sanitize_path_id by metis

text \<open>
  C19. Archiving a message over the local store, for every message and every outcome of the
  system calls except a failing final flush: exactly one of the two counters is incremented;
  if it is \<open>archived\<close>, the metadata object and, where the message carries an image, the image
  object hold exactly the message's data; every object of the store other than these two,
  which lie in \<^verbatim>\<open>raw/date/device\<close> and nowhere else, is unchanged.
\<close>

theorem archive_message_stored:
  assumes "handle_message (put io) jparse dump now data h = Inr h'" and "close_fails io = None"
  shows "case ArchiveHandler_parse jparse dump data of
      Inr (Some msg) \<Rightarrow>
        (let meta = base_path now msg @ ''.meta.json''; img = base_path now msg @ ''.jpg'' in
         (archived h' = archived h + 1 \<and> errors h' = errors h \<and>
          store_get (store h') meta = Some (bytes_of_string (metadata_json msg)) \<and>
          (has_jpeg msg \<longrightarrow> store_get (store h') img = Some (jpeg msg)) \<or>
          archived h' = archived h \<and> errors h' = errors h + 1) \<and>
         split_path meta = object_dirs now msg @ [sanitize_path (frame_id msg) @ ''.meta.json''] \<and>
         split_path img = object_dirs now msg @ [sanitize_path (frame_id msg) @ ''.jpg''] \<and>
         (\<forall>q. ok_path q \<longrightarrow> q \<notin> {meta, img} \<longrightarrow> store_get (store h') q = store_get (store h) q))
    | Inr None \<Rightarrow> h' = h\<lparr>errors := errors h + 1\<rparr>
    | Inl e \<Rightarrow> False"
proof -
  consider "ArchiveHandler_parse jparse dump data = Inr None"
    | msg ok st where "ArchiveHandler_parse jparse dump data = Inr (Some msg)"
      "ArchiveHandler_write (put io) now msg (store h) = (ok, st)"
    using assms(1) by (cases "ArchiveHandler_parse jparse dump data")
      (auto simp: handle_message_def split: option.splits prod.splits)
  then show ?thesis
  proof cases
    case 1
    with assms show ?thesis by (simp add: handle_message_def)
  next
    case 2
    have g: "ok_path (base_path now msg @ ''.jpg'') \<and> close_fails io = None"
      "ok_path (base_path now msg @ ''.meta.json'') \<and> close_fails io = None"
      using object_paths_ok assms(2) by auto
    have "store_get st q = store_get (store h) q"
      if "ok_path q" "q \<noteq> base_path now msg @ ''.meta.json''" "q \<noteq> base_path now msg @ ''.jpg''" for q
      using local_store.write_frame [OF g, of q "store h"] that 2 assms(2) by simp
    with 2 assms local_store.write_success [OF g, of "store h" st] show ?thesis
      by (cases ok) (auto simp: handle_message_def base_path_split Let_def)
  qed
qed

text \<open>
  A message whose \<open>frame_id\<close>, \<open>device_id\<close> or \<open>timestamp\<close> is present but not a string is
  not counted as an error: the accessor's exception leaves the handler, which has no handler
  for it, and so reaches the C callback of the message library.
\<close>

theorem archive_type_error_escapes:
  assumes "jparse data = Some j" and "is_object j"
    and "k \<in> {''frame_id'', ''device_id'', ''timestamp''}"
    and "jget j k = Some v" and "\<not> is_string v"
  shows "handle_message sput jparse dump now data h = Inl TypeError"
proof -
  have bad: "jvalue_str j k d = Inl TypeError" for d
    using assms by (cases v) (auto simp: jvalue_str_def)
  have any: "jvalue_str j k' d = Inl TypeError \<or> (\<exists>s. jvalue_str j k' d = Inr s)" for k' d
    using assms by (auto simp: jvalue_str_def split: option.splits json.splits)
  show ?thesis
    using bad any [of "''frame_id''" "''unknown''"] any [of "''device_id''" "''unknown''"] assms
    by (auto simp: handle_message_def ArchiveHandler_parse_def)
qed

definition sample_msg :: json where
  "sample_msg = JObj [(''frame_id'', JStr ''f/1''), (''device_id'', JStr ''cam''),
     (''timestamp'', JStr ''2024-05-06T07:08:09Z''), (''raw_jpeg_b64'', JStr ''QUI='')]"

lemma sample_parse:
  "ArchiveHandler_parse (\<lambda>_. Some sample_msg) (\<lambda>_. ''m'') data = Inr (Some \<lparr>frame_id = ''f/1'',
     device_id = ''cam'', timestamp = ''2024-05-06T07:08:09Z'', jpeg = [65, 66], has_jpeg = True,
     metadata_json = ''m''\<rparr>)"
  by (simp add: ArchiveHandler_parse_def sample_msg_def jvalue_str_def parse_jpeg_def Let_def
      base64_decode_def kBase64Table_eq)

definition sample_handler :: "LocalStore ArchiveHandler" where
  "sample_handler = \<lparr>store = \<lparr>root = ''/data'', disk = sample_fs\<rparr>, archived = 0, errors = 0\<rparr>"

lemma sample_base:
  "base_path now \<lparr>frame_id = ''f/1'', device_id = ''cam'', timestamp = ''2024-05-06T07:08:09Z'',
     jpeg = [65, 66], has_jpeg = True, metadata_json = ''m''\<rparr> = ''raw/2024-05-06/cam/f_1''"
  by (simp add: base_path_def sanitize_path_def unsafe_char_def extract_date_def date_shape_def is_digit_def
      substr_def decimal_value_def digit_val_def)

lemma sample_handled:
  "\<exists>h'. handle_message (put io_ok) (\<lambda>_. Some sample_msg) (\<lambda>_. ''m'') now data sample_handler = Inr h' \<and>
     archived h' = 1"
  by (simp add: handle_message_def sample_parse ArchiveHandler_write_def sample_base put_def
      put_trace_def create_directories_def fs_rename_def LocalStore_abs_def resolve_def resolve_parent_def
      sample_handler_def sample_fs_def io_ok_def Let_def)

theorem archive_message_stored_witness:
  "\<exists>h'. handle_message (put io_ok) (\<lambda>_. Some sample_msg) (\<lambda>_. ''m'') 0 [0] sample_handler = Inr h' \<and>
     archived h' = 1 \<and> errors h' = 0 \<and>
     store_get (store h') ''raw/2024-05-06/cam/f_1.jpg'' = Some [65, 66] \<and>
     store_get (store h') ''a.jpg'' = Some [1]"
proof -
  obtain h' where h': "handle_message (put io_ok) (\<lambda>_. Some sample_msg) (\<lambda>_. ''m'') 0 [0] sample_handler = Inr h'"
    and a: "archived h' = 1"
    using sample_handled by blast
  have "store_get (store sample_handler) ''a.jpg'' = Some [1]"
    by (simp add: sample_handler_def store_get_def sample_fs_def LocalStore_abs_def resolve_def)
  with archive_message_stored [OF h'] a have "errors h' = 0 \<and>
      store_get (store h') ''raw/2024-05-06/cam/f_1.jpg'' = Some [65, 66] \<and> store_get (store h') ''a.jpg'' = Some [1]"
    by (simp add: io_ok_def sample_parse sample_base Let_def sample_paths sample_handler_def)
  with h' a show ?thesis by blast
qed

theorem archive_type_error_escapes_witness:
  "handle_message (put io_ok) (\<lambda>_. Some (JObj [(''frame_id'', JInt 7)])) (\<lambda>_. []) 0 [0] sample_handler =
     Inl TypeError"
  by (rule archive_type_error_escapes [where j = "JObj [(''frame_id'', JInt 7)]" and k = "''frame_id''" and v = "JInt 7"])
     simp_all

end
