(* ===== verification/Retention.thy ===== *)
theory Retention
  imports Archive
begin

text \<open>
  The retention purger of the storage service (\<^verbatim>\<open>storage/src/retention_purger.cpp\<close>): date
  parsing, the cutoff date, one purge cycle over the file system of \<^theory_text>\<open>Local_Store\<close>, and the
  protocol between the background thread and \<^verbatim>\<open>stop\<close>. The order of a directory iteration and
  the failures of \<^verbatim>\<open>remove_all\<close> are parameters.
\<close>

section \<open>Dates\<close>

text \<open>\<open>tm_year\<close> and \<open>tm_mon\<close> hold the calendar year and month, without the offsets of the C struct.\<close>

definition parse_date :: "string \<Rightarrow> tm option" where
  "parse_date s =
     (if length s \<noteq> 10 then None
      else if \<not> date_shape s then None
      else let year = decimal_value (substr s 0 4);
               month = decimal_value (substr s 5 2);
               day = decimal_value (substr s 8 2)
           in if year < 1970 \<or> year > 9999 then None
              else if month < 1 \<or> month > 12 then None
              else if day < 1 \<or> day > 31 then None
              else Some \<lparr>tm_year = int year, tm_mon = month, tm_mday = int day,
                         tm_hour = 0, tm_min = 0, tm_sec = 0\<rparr>)"

definition format_date :: "tm \<Rightarrow> string" where
  "format_date x = strftime_date x"

definition cutoff_date :: "int \<Rightarrow> int \<Rightarrow> string" where
  "cutoff_date now days =
     (let x = gmtime now; x = x\<lparr>tm_mday := tm_mday x - days\<rparr> in format_date (timegm_normalize x))"

section \<open>One purge cycle\<close>

definition below :: "string list \<Rightarrow> string list \<Rightarrow> bool" where
  "below p q = (take (length p) q = p)"

definition dir_size :: "string list \<Rightarrow> fs \<Rightarrow> int" where
  "dir_size p s = (\<Sum>q \<in> {q \<in> dom (files s). below p q}. int (length (the (files s q))))"

text \<open>
  \<^verbatim>\<open>remove_all\<close> removes a directory with everything below it; where it fails, \<open>keep\<close> says what
  is left of it.
\<close>

definition remove_all :: "string list set \<Rightarrow> string list \<Rightarrow> fs \<Rightarrow> fs" where
  "remove_all keep p s =
     s\<lparr>files := (\<lambda>q. if below p q \<and> q \<notin> keep then None else files s q),
       dirs := {q \<in> dirs s. \<not> (below p q \<and> q \<notin> keep)}\<rparr>"

record PurgeResult =
  dirs_removed :: int
  bytes_freed :: int

definition PurgeResult_init :: PurgeResult where
  "PurgeResult_init = \<lparr>dirs_removed = 0, bytes_freed = 0\<rparr>"

fun purge_loop ::
  "(string list \<Rightarrow> string list set option) \<Rightarrow> string list \<Rightarrow> string \<Rightarrow> string list \<Rightarrow>
   PurgeResult \<Rightarrow> fs \<Rightarrow> PurgeResult \<times> fs" where
  "purge_loop rm raw cutoff [] r s = (r, s)"
| "purge_loop rm raw cutoff (name # names) r s =
     (let p = raw @ [name] in
      if p \<notin> dirs s then purge_loop rm raw cutoff names r s
      else if parse_date name = None then purge_loop rm raw cutoff names r s
      else if name < cutoff
      then (let sz = dir_size p s in
            case rm p of
              None \<Rightarrow> purge_loop rm raw cutoff names
                        (r\<lparr>dirs_removed := dirs_removed r + 1, bytes_freed := bytes_freed r + sz\<rparr>)
                        (remove_all {} p s)
            | Some keep \<Rightarrow> purge_loop rm raw cutoff names r (remove_all keep p s))
      else purge_loop rm raw cutoff names r s)"

record RetentionPurger =
  raw_days :: int

definition purge_once ::
  "(string list \<Rightarrow> string list set option) \<Rightarrow> (string list \<Rightarrow> fs \<Rightarrow> string list) \<Rightarrow> int \<Rightarrow>
   RetentionPurger \<Rightarrow> LocalStore \<Rightarrow> PurgeResult \<times> LocalStore" where
  "purge_once rm iter now p st =
     (if raw_days p \<le> 0 then (PurgeResult_init, st)
      else
        let cutoff = cutoff_date now (raw_days p);
            raw = resolve (LocalStore_abs (root st) ''raw'')
        in if \<not> fs_exists raw (disk st) then (PurgeResult_init, st)
           else let (r, s) = purge_loop rm raw cutoff (iter raw (disk st)) PurgeResult_init (disk st)
                in (r, st\<lparr>disk := s\<rparr>))"

section \<open>The background thread\<close>

text \<open>
  \<^verbatim>\<open>run_loop\<close> and \<^verbatim>\<open>stop\<close> as a step relation. The worker purges, then waits: it evaluates the
  predicate of \<^verbatim>\<open>wait_for\<close> under the mutex, blocks where it was false, and is woken by a
  notification, spuriously, or by the 24-hour timeout, after which it tests the flag. The
  stopper sets the flag and notifies, without taking the mutex, and then joins. A
  notification wakes a worker that is blocked at that moment, and no other.
\<close>

datatype worker = Purging | EvalPred | Blocking | Waiting | TestFlag | Exited
datatype stopper = NotStopping | FlagSet | Joining | Joined
datatype purger_event = Purge | Eval | Block | Timeout | Spurious | Test | SetFlag | Notify | Join

record purger_state =
  worker :: worker
  stopper :: stopper
  stop_flag :: bool
  purges :: nat

definition purger_start :: purger_state where
  "purger_start = \<lparr>worker = Purging, stopper = NotStopping, stop_flag = False, purges = 0\<rparr>"

inductive purger_step :: "purger_event \<Rightarrow> purger_state \<Rightarrow> purger_state \<Rightarrow> bool" where
  purge: "worker s = Purging \<Longrightarrow> purger_step Purge s (s\<lparr>worker := EvalPred, purges := purges s + 1\<rparr>)"
| eval: "worker s = EvalPred \<Longrightarrow>
    purger_step Eval s (s\<lparr>worker := (if stop_flag s then TestFlag else Blocking)\<rparr>)"
| block: "worker s = Blocking \<Longrightarrow> purger_step Block s (s\<lparr>worker := Waiting\<rparr>)"
| timeout: "worker s = Waiting \<Longrightarrow> purger_step Timeout s (s\<lparr>worker := TestFlag\<rparr>)"
| spurious: "worker s = Waiting \<Longrightarrow> purger_step Spurious s (s\<lparr>worker := EvalPred\<rparr>)"
| test: "worker s = TestFlag \<Longrightarrow>
    purger_step Test s (s\<lparr>worker := (if stop_flag s then Exited else Purging)\<rparr>)"
| set_flag: "stopper s = NotStopping \<Longrightarrow> purger_step SetFlag s (s\<lparr>stopper := FlagSet, stop_flag := True\<rparr>)"
| notify: "stopper s = FlagSet \<Longrightarrow>
    purger_step Notify s
      (s\<lparr>stopper := Joining, worker := (if worker s = Waiting then EvalPred else worker s)\<rparr>)"
| join: "stopper s = Joining \<Longrightarrow> worker s = Exited \<Longrightarrow> purger_step Join s (s\<lparr>stopper := Joined\<rparr>)"

inductive purger_run :: "purger_event list \<Rightarrow> purger_state \<Rightarrow> bool" where
  start: "purger_run [] purger_start"
| step: "purger_run es s \<Longrightarrow> purger_step e s s' \<Longrightarrow> purger_run (es @ [e]) s'"

inductive_simps purger_step_simps: "purger_step e s s'"
inductive_cases purger_run_snocE: "purger_run es s"

section \<open>The order of directory names\<close>

lemma digit_val_less: "is_digit c \<Longrightarrow> digit_val c < 10"
  unfolding is_digit_def digit_val_def by linarith

lemma decimal_value_2_bound: "is_digit a \<Longrightarrow> is_digit b \<Longrightarrow> decimal_value [a, b] < 100"
  using digit_val_less [of a] digit_val_less [of b] by (simp add: decimal_value_def)

lemma decimal_value_2: "is_digit a \<Longrightarrow> is_digit b \<Longrightarrow> pad2 (decimal_value [a, b]) = [a, b]"
  using digit_val_less [of a] digit_val_less [of b]
  by (simp add: decimal_value_def pad2_def digit_of_char)

lemma decimal_value_4:
  "is_digit a \<Longrightarrow> is_digit b \<Longrightarrow> is_digit c \<Longrightarrow> is_digit d \<Longrightarrow>
   four_digits (decimal_value [a, b, c, d]) = [a, b, c, d]"
proof -
  assume "is_digit a" "is_digit b" "is_digit c" "is_digit d"
  moreover have "decimal_value [a, b, c, d] = 100 * decimal_value [a, b] + decimal_value [c, d]"
    by (simp add: decimal_value_def)
  ultimately have "decimal_value [a, b, c, d] div 100 = decimal_value [a, b]"
    "decimal_value [a, b, c, d] mod 100 = decimal_value [c, d]"
    using decimal_value_2_bound [of c d] by simp_all
  moreover note \<open>is_digit a\<close> \<open>is_digit b\<close> \<open>is_digit c\<close> \<open>is_digit d\<close>
  ultimately show ?thesis by (simp add: four_digits_split decimal_value_2)
qed

lemma date_shape_text:
  assumes "length s = 10" "date_shape s"
  shows "s = date_text (decimal_value (substr s 0 4)) (decimal_value (substr s 5 2)) (decimal_value (substr s 8 2))"
proof -
  define a where "a = (\<lambda>i. s ! i)"
  have s: "s = [a 0, a 1, a 2, a 3, a 4, a 5, a 6, a 7, a 8, a 9]"
    using nth_10 [OF assms(1)] by (simp add: a_def)
  from assms(2) have d: "is_digit (a 0)" "is_digit (a 1)" "is_digit (a 2)" "is_digit (a 3)" "is_digit (a 5)"
    "is_digit (a 6)" "is_digit (a 8)" "is_digit (a 9)" and dash: "a 4 = CHR ''-''" "a 7 = CHR ''-''"
    by (simp_all add: date_shape_def a_def)
  have "substr s 0 4 = [a 0, a 1, a 2, a 3]" "substr s 5 2 = [a 5, a 6]" "substr s 8 2 = [a 8, a 9]"
    by (subst s, simp add: substr_def)+
  with d dash s show ?thesis by (simp add: date_text_def decimal_value_4 decimal_value_2)
qed

lemma parse_date_text:
  assumes "parse_date s = Some x"
  shows "s = date_text (nat (tm_year x)) (tm_mon x) (nat (tm_mday x))"
    and "1970 \<le> tm_year x" "tm_year x \<le> 9999" "1 \<le> tm_mon x" "tm_mon x \<le> 12" "1 \<le> tm_mday x" "tm_mday x \<le> 31"
  using assms date_shape_text [of s]
  by (auto simp: parse_date_def Let_def split: if_splits)

lemma cutoff_date_day:
  fixes now days :: int
  defines "c \<equiv> gmtime (86400 * (now div 86400 - days) + now mod 86400)"
  shows "cutoff_date now days = strftime_date c"
    and "days_from_civil (tm_year c) (tm_mon c) (tm_mday c) = now div 86400 - days"
proof -
  have "timegm ((gmtime now)\<lparr>tm_mday := tm_mday (gmtime now) - days\<rparr>) = timegm (gmtime now) - 86400 * days"
    by (simp add: timegm_def days_from_civil_def algebra_simps)
  also have "\<dots> = 86400 * (now div 86400 - days) + now mod 86400"
    using mult_div_mod_eq [of 86400 now] by (simp add: timegm_gmtime algebra_simps)
  finally show "cutoff_date now days = strftime_date c"
    by (simp add: cutoff_date_def Let_def format_date_def timegm_normalize_def c_def)
  have "(86400 * (now div 86400 - days) + now mod 86400) div 86400 = now div 86400 - days"
    by simp
  then show "days_from_civil (tm_year c) (tm_mon c) (tm_mday c) = now div 86400 - days"
    unfolding c_def gmtime_date(2) .
qed

text \<open>The year of the cutoff has four digits: what the ten-character buffer of the source assumes.\<close>

definition cutoff_in_range :: "int \<Rightarrow> int \<Rightarrow> bool" where
  "cutoff_in_range now days =
     (let y = tm_year (gmtime (86400 * (now div 86400 - days) + now mod 86400)) in 1000 \<le> y \<and> y \<le> 9999)"

definition tm_day :: "tm \<Rightarrow> int" where
  "tm_day x = days_from_civil (tm_year x) (tm_mon x) (tm_mday x)"

definition tm_valid :: "tm \<Rightarrow> bool" where
  "tm_valid x = valid_date (tm_year x) (tm_mon x) (tm_mday x)"

lemma name_before_cutoff:
  assumes "parse_date name = Some x" "tm_valid x" "cutoff_in_range now days"
  shows "name < cutoff_date now days \<longleftrightarrow> tm_day x < now div 86400 - days"
proof -
  define c where "c = gmtime (86400 * (now div 86400 - days) + now mod 86400)"
  have c: "valid_date (tm_year c) (tm_mon c) (tm_mday c)" "1000 \<le> tm_year c" "tm_year c \<le> 9999"
    using gmtime_date(1) assms(3) by (simp_all only: cutoff_in_range_def Let_def c_def)
  then have cm: "tm_mon c < 100" "0 \<le> tm_mday c" "tm_mday c < 100"
    using month_length_pos(2) [of "tm_year c" "tm_mon c"] by (auto simp: valid_date_def)
  note x = parse_date_text [OF assms(1)]
  have "name < cutoff_date now days \<longleftrightarrow>
      date_text (nat (tm_year x)) (tm_mon x) (nat (tm_mday x)) <
      date_text (nat (tm_year c)) (tm_mon c) (nat (tm_mday c))"
    using c cutoff_date_day(1) [of now days, folded c_def] strftime_date_text [of c] x(1) by simp
  also have "\<dots> \<longleftrightarrow> Civil (tm_year x) (tm_mon x) (tm_mday x) < Civil (tm_year c) (tm_mon c) (tm_mday c)"
    using x c cm by (subst date_text_less) simp_all
  also have "\<dots> \<longleftrightarrow> tm_day x < now div 86400 - days"
    using days_from_civil_less_iff [of "tm_year x" "tm_mon x" "tm_mday x" "tm_year c" "tm_mon c" "tm_mday c"]
      assms(2) c(1) cutoff_date_day(2) [of now days, folded c_def]
    by (simp add: tm_day_def tm_valid_def)
  finally show ?thesis .
qed

section \<open>What a purge removes\<close>

definition expired :: "string list \<Rightarrow> string \<Rightarrow> fs \<Rightarrow> string \<Rightarrow> bool" where
  "expired raw cutoff s name = (raw @ [name] \<in> dirs s \<and> parse_date name \<noteq> None \<and> name < cutoff)"

lemma below_sibling: "below (raw @ [n]) (raw @ [m]) \<longleftrightarrow> n = m"
  by (auto simp: below_def)

lemma below_unique: "below (raw @ [n]) q \<Longrightarrow> below (raw @ [m]) q \<Longrightarrow> n = m"
  by (simp add: below_def)

lemma purge_loop_only:
  assumes "purge_loop rm raw cutoff names r s = (r', s')" "files s' q \<noteq> files s q"
  shows "\<exists>name \<in> set names. below (raw @ [name]) q \<and> parse_date name \<noteq> None \<and> name < cutoff"
  using assms
proof (induction names arbitrary: r s)
  case (Cons name names)
  show ?case
  proof (cases "raw @ [name] \<in> dirs s \<and> parse_date name \<noteq> None \<and> name < cutoff")
    case False
    with Cons have "purge_loop rm raw cutoff names r s = (r', s')" by (auto simp: Let_def split: if_splits)
    with Cons show ?thesis by auto
  next
    case True
    with Cons.prems(1) obtain r1 keep where "purge_loop rm raw cutoff names r1 (remove_all keep (raw @ [name]) s) = (r', s')"
      by (auto simp: Let_def split: option.splits)
    from Cons.IH [OF this] Cons.prems(2) True show ?thesis
      by (cases "files (remove_all keep (raw @ [name]) s) q = files s q")
         (auto simp: remove_all_def split: if_splits)
  qed
qed simp

lemma purge_loop_exact:
  assumes "distinct names" "\<And>p. rm p = None"
  shows "purge_loop rm raw cutoff names r s =
    (let gone = filter (expired raw cutoff s) names in
     (\<lparr>dirs_removed = dirs_removed r + int (length gone),
       bytes_freed = bytes_freed r + (\<Sum>n \<leftarrow> gone. dir_size (raw @ [n]) s)\<rparr>,
      s\<lparr>files := (\<lambda>q. if \<exists>n \<in> set gone. below (raw @ [n]) q then None else files s q),
        dirs := {q \<in> dirs s. \<not> (\<exists>n \<in> set gone. below (raw @ [n]) q)}\<rparr>))"
  using assms(1)
proof (induction names arbitrary: r s)
  case (Cons name names)
  show ?case
  proof (cases "expired raw cutoff s name")
    case False
    then have "purge_loop rm raw cutoff (name # names) r s = purge_loop rm raw cutoff names r s"
      by (auto simp: expired_def Let_def)
    with False Cons show ?thesis by simp
  next
    case True
    let ?s = "remove_all {} (raw @ [name]) s"
    let ?r = "r\<lparr>dirs_removed := dirs_removed r + 1, bytes_freed := bytes_freed r + dir_size (raw @ [name]) s\<rparr>"
    from True have *: "purge_loop rm raw cutoff (name # names) r s = purge_loop rm raw cutoff names ?r ?s"
      using assms(2) by (auto simp: expired_def Let_def)
    have e: "filter (expired raw cutoff ?s) names = filter (expired raw cutoff s) names"
      using Cons.prems by (intro filter_cong) (auto simp: expired_def remove_all_def below_sibling)
    have "dir_size (raw @ [n]) ?s = dir_size (raw @ [n]) s" if "n \<noteq> name" for n
      unfolding dir_size_def using that
      by (intro sum.cong) (auto simp: remove_all_def dom_def dest: below_unique split: if_splits)
    then have "(\<Sum>n \<leftarrow> filter (expired raw cutoff s) names. dir_size (raw @ [n]) ?s) =
        (\<Sum>n \<leftarrow> filter (expired raw cutoff s) names. dir_size (raw @ [n]) s)"
      using Cons.prems by (intro arg_cong [of _ _ sum_list] map_cong refl) (metis distinct.simps(2) filter_is_subset subsetD)
    moreover have "?s\<lparr>files := (\<lambda>q. if \<exists>n \<in> set (filter (expired raw cutoff s) names). below (raw @ [n]) q
          then None else files ?s q),
        dirs := {q \<in> dirs ?s. \<not> (\<exists>n \<in> set (filter (expired raw cutoff s) names). below (raw @ [n]) q)}\<rparr> =
      s\<lparr>files := (\<lambda>q. if \<exists>n \<in> set (filter (expired raw cutoff s) (name # names)). below (raw @ [n]) q
          then None else files s q),
        dirs := {q \<in> dirs s. \<not> (\<exists>n \<in> set (filter (expired raw cutoff s) (name # names)). below (raw @ [n]) q)}\<rparr>"
      using True by (intro fs.equality) (auto simp: remove_all_def fun_eq_iff)
    moreover note Cons.IH [of ?r ?s]
    ultimately show ?thesis
      using True Cons.prems unfolding * Let_def e by simp
  qed
qed simp

lemma purge_once_only:
  assumes "purge_once rm iter now p st = (r, st')" "files (disk st') q \<noteq> files (disk st) q"
  shows "0 < raw_days p \<and> (\<exists>name. below (resolve (LocalStore_abs (root st) ''raw'') @ [name]) q \<and>
    parse_date name \<noteq> None \<and> name < cutoff_date now (raw_days p))"
  using assms by (auto simp: purge_once_def Let_def split: if_splits prod.splits dest!: purge_loop_only)

section \<open>Properties of the retention policy\<close>

text \<open>
  C15. A purge never touches recent data, whatever fails while it runs and in whatever order
  the directory is read: a file whose contents change lies below a directory \<open>raw/name\<close> whose
  name parses as a date, and if that date exists in the calendar, its day is strictly before
  today minus the configured number of days; with a non-positive number nothing changes.
\<close>

theorem purge_keeps_recent:
  assumes "cutoff_in_range now (raw_days p)"
    and "purge_once rm iter now p st = (r, st')"
    and "files (disk st') q \<noteq> files (disk st) q"
  shows "0 < raw_days p \<and> (\<exists>name x. below (resolve (LocalStore_abs (root st) ''raw'') @ [name]) q \<and>
    parse_date name = Some x \<and> (tm_valid x \<longrightarrow> tm_day x < now div 86400 - raw_days p))"
  using purge_once_only [OF assms(2,3)] name_before_cutoff [OF _ _ assms(1)] by blast

text \<open>
  C20. Without failures a purge removes exactly the expired directories: given that the
  iteration lists every entry of \<open>raw\<close> once, every file and directory below a subdirectory
  with a calendar date before today minus the configured days is gone, everything below a
  subdirectory with a later date is unchanged, and the result counts the removed directories
  and their bytes.
\<close>

theorem purge_removes_expired:
  fixes st :: LocalStore
  defines "raw \<equiv> resolve (LocalStore_abs (root st) ''raw'')"
  assumes "0 < raw_days p" and "cutoff_in_range now (raw_days p)" and "\<And>d. rm d = None"
    and "raw \<in> dirs (disk st)" and "distinct (iter raw (disk st))"
    and "\<And>n. raw @ [n] \<in> dirs (disk st) \<Longrightarrow> n \<in> set (iter raw (disk st))"
    and "parse_date name = Some x" and "tm_valid x" and "raw @ [name] \<in> dirs (disk st)"
  shows "case purge_once rm iter now p st of (r, st') \<Rightarrow>
    (if tm_day x < now div 86400 - raw_days p
     then \<forall>q. below (raw @ [name]) q \<longrightarrow> files (disk st') q = None \<and> q \<notin> dirs (disk st')
     else \<forall>q. below (raw @ [name]) q \<longrightarrow>
       files (disk st') q = files (disk st) q \<and> (q \<in> dirs (disk st') \<longleftrightarrow> q \<in> dirs (disk st))) \<and>
    (let gone = filter (expired raw (cutoff_date now (raw_days p)) (disk st)) (iter raw (disk st)) in
     dirs_removed r = int (length gone) \<and> bytes_freed r = (\<Sum>n \<leftarrow> gone. dir_size (raw @ [n]) (disk st)))"
proof -
  let ?c = "cutoff_date now (raw_days p)"
  have e: "expired raw ?c (disk st) name \<longleftrightarrow> tm_day x < now div 86400 - raw_days p"
    using name_before_cutoff [OF assms(8,9,3)] assms(8,10) by (simp add: expired_def)
  define gone where "gone = filter (expired raw ?c (disk st)) (iter raw (disk st))"
  define hit where "hit q = (\<exists>n \<in> set gone. below (raw @ [n]) q)" for q
  have u: "hit q \<longleftrightarrow> tm_day x < now div 86400 - raw_days p" if "below (raw @ [name]) q" for q
    using that assms(7) [OF assms(10)] unfolding e [symmetric]
    by (auto simp: hit_def gone_def dest: below_unique [OF that])
  have "purge_once rm iter now p st =
      (let (r, s) = purge_loop rm raw ?c (iter raw (disk st)) PurgeResult_init (disk st) in (r, st\<lparr>disk := s\<rparr>))"
    using assms(2,5) by (simp add: purge_once_def fs_exists_def Let_def raw_def)
  then have "purge_once rm iter now p st =
       (\<lparr>dirs_removed = int (length gone), bytes_freed = (\<Sum>n \<leftarrow> gone. dir_size (raw @ [n]) (disk st))\<rparr>,
        st\<lparr>disk := (disk st)\<lparr>files := (\<lambda>q. if hit q then None else files (disk st) q),
          dirs := {q \<in> dirs (disk st). \<not> hit q}\<rparr>\<rparr>)"
    using purge_loop_exact [OF assms(6), of rm raw ?c PurgeResult_init "disk st"] assms(4)
    by (simp only: Let_def prod.case PurgeResult_init_def PurgeResult.simps add_0 gone_def hit_def)
  then show ?thesis by (simp add: u Let_def flip: gone_def)
qed

definition sample_archive :: LocalStore where
  "sample_archive = \<lparr>root = ''/d'', disk = \<lparr>files = [[''d'', ''raw'', ''1971-01-01'', ''f''] \<mapsto> [1, 2]],
     dirs = {[], [''d''], [''d'', ''raw''], [''d'', ''raw'', ''1971-01-01''], [''d'', ''raw'', ''1971-02-01'']}\<rparr>\<rparr>"

definition sample_iter :: "string list \<Rightarrow> fs \<Rightarrow> string list" where
  "sample_iter d s = [''1971-02-01'', ''1971-01-01'']"

text \<open>Day 400 of the epoch, with 30 days of retention: the cutoff is day 370, 1971-01-06.\<close>

lemma sample_cutoff:
  "cutoff_in_range 34560000 30"
  by (simp add: cutoff_in_range_def gmtime_def civil_from_days_def civil_year.simps year_length_def
      leap_def Let_def split: prod.split)

definition sample_tm :: tm where
  "sample_tm = \<lparr>tm_year = 1971, tm_mon = 1, tm_mday = 1, tm_hour = 0, tm_min = 0, tm_sec = 0\<rparr>"

lemma sample_date: "parse_date ''1971-01-01'' = Some sample_tm"
  by (simp add: sample_tm_def parse_date_def date_shape_def is_digit_def decimal_value_def digit_val_def substr_def)

lemma sample_day:
  "tm_valid sample_tm"
  "tm_day sample_tm = 365"
  by (simp_all add: sample_tm_def tm_valid_def valid_date_def month_length_def tm_day_def days_from_civil_def
      days_before_year_def)

lemma sample_raw: "resolve (LocalStore_abs (root sample_archive) ''raw'') = [''d'', ''raw'']"
  by (simp add: sample_archive_def LocalStore_abs_def resolve_def)

lemma sample_dirs:
  "[''d'', ''raw''] \<in> dirs (disk sample_archive)"
  "[''d'', ''raw'', n] \<in> dirs (disk sample_archive) \<longleftrightarrow> n = ''1971-01-01'' \<or> n = ''1971-02-01''"
  "files (disk sample_archive) [''d'', ''raw'', ''1971-01-01'', ''f''] = Some [1, 2]"
  by (auto simp: sample_archive_def sample_iter_def)

lemma sample_purged:
  "files (disk (snd (purge_once (\<lambda>_. None) sample_iter 34560000 \<lparr>raw_days = 30\<rparr> sample_archive)))
     [''d'', ''raw'', ''1971-01-01'', ''f''] = None"
proof -
  let ?c = "cutoff_date 34560000 30" and ?s = "disk sample_archive" and ?raw = "[''d'', ''raw'']"
  have dist: "distinct (sample_iter ?raw ?s)" and mem: "''1971-01-01'' \<in> set (sample_iter ?raw ?s)"
    by (simp_all add: sample_iter_def)
  have "''1971-01-01'' < ?c"
    using name_before_cutoff [OF sample_date sample_day(1) sample_cutoff] sample_day(2) by simp
  then have ex: "expired ?raw ?c ?s ''1971-01-01''" by (simp add: expired_def sample_dirs sample_date)
  have po: "purge_once (\<lambda>_. None) sample_iter 34560000 \<lparr>raw_days = 30\<rparr> sample_archive =
      (let (r, s) = purge_loop (\<lambda>_. None) ?raw ?c (sample_iter ?raw ?s) PurgeResult_init ?s
       in (r, sample_archive\<lparr>disk := s\<rparr>))"
    by (simp add: purge_once_def sample_raw fs_exists_def sample_dirs Let_def)
  show ?thesis
    unfolding po purge_loop_exact [OF dist refl] using ex mem by (auto simp: Let_def below_def)
qed

theorem purge_removes_expired_witness:
  "files (disk (snd (purge_once (\<lambda>_. None) sample_iter 34560000 \<lparr>raw_days = 30\<rparr> sample_archive)))
     [''d'', ''raw'', ''1971-01-01'', ''f''] = None"
proof -
  obtain r st' where res: "purge_once (\<lambda>_. None) sample_iter 34560000 \<lparr>raw_days = 30\<rparr> sample_archive = (r, st')"
    by fastforce
  have "distinct (sample_iter d s)" "''1971-01-01'' \<in> set (sample_iter d s)" for d s
    by (simp_all add: sample_iter_def)
  with purge_removes_expired [of "\<lparr>raw_days = 30\<rparr>" 34560000 "\<lambda>_. None" sample_archive sample_iter
      "''1971-01-01''", OF _ _ _ _ _ _ sample_date sample_day(1)]
  have "\<forall>q. below [''d'', ''raw'', ''1971-01-01''] q \<longrightarrow> files (disk st') q = None"
    by (auto simp: sample_raw sample_cutoff sample_day(2) sample_dirs res sample_iter_def)
  then show ?thesis by (simp add: res below_def)
qed

theorem purge_keeps_recent_witness:
  "\<exists>name x. below [''d'', ''raw'', name] [''d'', ''raw'', ''1971-01-01'', ''f''] \<and>
     parse_date name = Some x \<and> (tm_valid x \<longrightarrow> tm_day x < 370)"
proof -
  obtain r st' where res: "purge_once (\<lambda>_. None) sample_iter 34560000 \<lparr>raw_days = 30\<rparr> sample_archive = (r, st')"
    by fastforce
  then have "files (disk st') [''d'', ''raw'', ''1971-01-01'', ''f''] = None"
    using sample_purged by simp
  with purge_keeps_recent [OF _ res, of "[''d'', ''raw'', ''1971-01-01'', ''f'']"]
  show ?thesis by (simp add: sample_cutoff sample_dirs sample_raw)
qed

section \<open>Stopping the background thread\<close>

lemma purger_run_flag: "purger_run es s \<Longrightarrow> stop_flag s \<longleftrightarrow> SetFlag \<in> set es"
  by (induction rule: purger_run.induct) (auto simp: purger_start_def purger_step_simps)

definition purges_after_stop :: "purger_event list \<Rightarrow> nat" where
  "purges_after_stop es = length (filter (\<lambda>e. e = Purge) (dropWhile (\<lambda>e. e \<noteq> SetFlag) es))"

lemma purges_after_stop_none: "SetFlag \<notin> set es \<Longrightarrow> purges_after_stop es = 0"
  unfolding purges_after_stop_def by (induction es) auto

lemma purges_after_stop_snoc:
  "purges_after_stop (es @ [e]) = purges_after_stop es + (if e = Purge \<and> SetFlag \<in> set es then 1 else 0)"
proof (cases "SetFlag \<in> set es")
  case True
  then show ?thesis by (auto simp: purges_after_stop_def dropWhile_append1)
next
  case False
  then have "dropWhile (\<lambda>e. e \<noteq> SetFlag) (es @ [e]) = dropWhile (\<lambda>e. e \<noteq> SetFlag) [e]"
    by (intro dropWhile_append2) auto
  with False show ?thesis
    using purges_after_stop_none [OF False] unfolding purges_after_stop_def [of "es @ [e]"] by simp
qed

lemma purger_run_stop_inv:
  "purger_run es s \<Longrightarrow> purges_after_stop es \<le> 1 \<and> (worker s = Purging \<longrightarrow> purges_after_stop es = 0)"
proof (induction rule: purger_run.induct)
  case start
  then show ?case by (simp add: purges_after_stop_def)
next
  case (step es s e s')
  from purger_run_flag [OF step.hyps(1)] step show ?case
    by (auto simp: purger_step_simps purges_after_stop_snoc dest: purges_after_stop_none
        split: if_splits)
qed

text \<open>
  Stopping ends the purging: in every interleaving of the background thread with
  \<^verbatim>\<open>stop\<close>, at most one purge cycle (one that was already decided) completes after the flag is set.
\<close>

theorem purger_stops_purging:
  assumes "purger_run es s"
  shows "purges_after_stop es \<le> 1"
  using purger_run_stop_inv [OF assms] by simp

theorem purger_stops_purging_witness: "purges_after_stop [SetFlag, Purge] \<le> 1"
proof -
  have "purger_run ([] @ [SetFlag]) \<lparr>worker = Purging, stopper = FlagSet, stop_flag = True, purges = 0\<rparr>"
    by (rule purger_run.step [OF purger_run.start]) (simp add: purger_step_simps purger_start_def)
  then have "purger_run (([] @ [SetFlag]) @ [Purge]) \<lparr>worker = EvalPred, stopper = FlagSet, stop_flag = True, purges = 1\<rparr>"
    by (rule purger_run.step) (simp add: purger_step_simps)
  from purger_stops_purging [OF this] show ?thesis by simp
qed

text \<open>
  A stop can be lost for a day: there is a run in which \<^verbatim>\<open>stop\<close> has set the flag, has sent its
  notification and waits for the thread, while the thread, which had evaluated the predicate
  before the flag was set and blocked after the notification, can be woken only spuriously or by the
  24-hour timeout.
\<close>

theorem purger_stop_lost_wakeup:
  "\<exists>es s. purger_run es s \<and> stop_flag s \<and> stopper s = Joining \<and> worker s = Waiting \<and>
     {e. \<exists>s'. purger_step e s s'} = {Timeout, Spurious}"
proof -
  let ?s = "\<lparr>worker = Waiting, stopper = Joining, stop_flag = True, purges = 1\<rparr>"
  have "purger_run ([] @ [Purge]) \<lparr>worker = EvalPred, stopper = NotStopping, stop_flag = False, purges = 1\<rparr>"
    by (rule purger_run.step [OF purger_run.start]) (simp add: purger_step_simps purger_start_def)
  then have "purger_run (([] @ [Purge]) @ [Eval]) \<lparr>worker = Blocking, stopper = NotStopping, stop_flag = False, purges = 1\<rparr>"
    by (rule purger_run.step) (simp add: purger_step_simps)
  then have "purger_run ((([] @ [Purge]) @ [Eval]) @ [SetFlag]) \<lparr>worker = Blocking, stopper = FlagSet, stop_flag = True, purges = 1\<rparr>"
    by (rule purger_run.step) (simp add: purger_step_simps)
  then have "purger_run (((([] @ [Purge]) @ [Eval]) @ [SetFlag]) @ [Notify]) \<lparr>worker = Blocking, stopper = Joining, stop_flag = True, purges = 1\<rparr>"
    by (rule purger_run.step) (simp add: purger_step_simps)
  then have "purger_run ((((([] @ [Purge]) @ [Eval]) @ [SetFlag]) @ [Notify]) @ [Block]) ?s"
    by (rule purger_run.step) (simp add: purger_step_simps)
  moreover have "{e. \<exists>s'. purger_step e ?s s'} = {Timeout, Spurious}"
    by (auto simp: purger_step_simps)
  ultimately have "purger_run ((((([] @ [Purge]) @ [Eval]) @ [SetFlag]) @ [Notify]) @ [Block]) ?s \<and>
      stop_flag ?s \<and> stopper ?s = Joining \<and> worker ?s = Waiting \<and>
      {e. \<exists>s'. purger_step e ?s s'} = {Timeout, Spurious}" by simp
  then show ?thesis by blast
qed

section \<open>The archive and the purger agree on the date directories\<close>

definition clock_in_range :: "int \<Rightarrow> bool" where
  "clock_in_range now = (1970 \<le> tm_year (gmtime now) \<and> tm_year (gmtime now) \<le> 9999)"

lemma decimal_value_pad2: "n < 100 \<Longrightarrow> decimal_value (pad2 n) = n"
  by (simp add: decimal_value_def pad2_def digit_def)

lemma parse_date_date_text:
  assumes "1970 \<le> y" "y \<le> 9999" "1 \<le> m" "m \<le> 12" "1 \<le> d" "d \<le> 31"
  shows "parse_date (date_text y m d) =
    Some \<lparr>tm_year = int y, tm_mon = m, tm_mday = int d, tm_hour = 0, tm_min = 0, tm_sec = 0\<rparr>"
proof -
  have "length (date_text y m d) = 10" "date_shape (date_text y m d)"
    "substr (date_text y m d) 0 4 = four_digits y" "substr (date_text y m d) 5 2 = pad2 m"
    "substr (date_text y m d) 8 2 = pad2 d"
    by (simp_all add: date_text_def date_shape_def substr_def four_digits_def pad2_def digit_def)
  moreover have "decimal_value (four_digits y) = y" "decimal_value (pad2 m) = m" "decimal_value (pad2 d) = d"
    using assms by (simp_all add: decimal_value_pad2 decimal_value_to_string flip: to_string_four_digits)
  ultimately show ?thesis using assms by (simp add: parse_date_def)
qed

lemma substr_take: "i + n \<le> 10 \<Longrightarrow> substr (take 10 s) i n = substr s i n"
  by (simp add: substr_def take_drop min_def)

lemma extract_date_parse:
  "extract_date now ts =
     (if parse_date (take 10 ts) \<noteq> None then take 10 ts else strftime_date (gmtime now))"
proof (cases "length ts \<ge> 10")
  case True
  then have "date_shape (take 10 ts) = date_shape ts" by (simp add: date_shape_def)
  with True show ?thesis
    by (simp add: extract_date_def parse_date_def substr_take Let_def min_def) (auto simp: substr_def)
next
  case False
  then show ?thesis by (simp add: extract_date_def parse_date_def)
qed

text \<open>
  Everything the archive writes can expire: with a clock between the years 1970 and
  9999, the directory name the archive chooses for any timestamp text, valid or not, parses as a date in the
  purger, and a timestamp that starts with a date in range keeps that date.
\<close>

theorem archive_dates_recognised:
  assumes "clock_in_range now"
  shows "parse_date (extract_date now ts) \<noteq> None \<and>
    (parse_date (take 10 ts) \<noteq> None \<longrightarrow> extract_date now ts = take 10 ts)"
proof -
  have "tm_mday (gmtime now) \<le> 31" "1 \<le> tm_mday (gmtime now)" "1 \<le> tm_mon (gmtime now)" "tm_mon (gmtime now) \<le> 12"
    using gmtime_date(1) [of now] month_length_pos(2) [of "tm_year (gmtime now)" "tm_mon (gmtime now)"]
    by (auto simp: valid_date_def)
  moreover from this have "1970 \<le> nat (tm_year (gmtime now))" "nat (tm_year (gmtime now)) \<le> 9999"
    "1 \<le> nat (tm_mday (gmtime now))" "nat (tm_mday (gmtime now)) \<le> 31"
    using assms by (simp_all only: clock_in_range_def) linarith+
  ultimately have "parse_date (strftime_date (gmtime now)) \<noteq> None"
    using assms parse_date_date_text [of "nat (tm_year (gmtime now))" "tm_mon (gmtime now)" "nat (tm_mday (gmtime now))"]
    by (simp add: strftime_date_text clock_in_range_def)
  then show ?thesis by (simp add: extract_date_parse)
qed

theorem archive_dates_recognised_witness:
  "parse_date (extract_date 34560000 ''yesterday'') \<noteq> None"
proof -
  have "clock_in_range 34560000"
    by (simp add: clock_in_range_def gmtime_def civil_from_days_def civil_year.simps year_length_def
        leap_def Let_def split: prod.split)
  from archive_dates_recognised [OF this] show ?thesis by blast
qed

end
