(* ===== verification/Key_Service.thy ===== *)
theory Key_Service
  imports Base64
begin

text \<open>
  The key service (\<^verbatim>\<open>key-service/src\<close>): the key store and decryption entry points of
  \<^verbatim>\<open>he_context.cpp\<close>, the message handlers of \<^verbatim>\<open>handlers.cpp\<close> and the NATS lifecycle of
  \<^verbatim>\<open>nats_service.cpp\<close> and \<^verbatim>\<open>main.cpp\<close>. OpenFHE is a parameter (\<open>fhe_lib\<close>): fresh key material,
  its serialisation, and decryption. The JSON parser is a parameter; the accessors used by the
  handlers follow the documentation of nlohmann::json.
\<close>

section \<open>JSON accessors\<close>

text \<open>
  \<open>jat\<close> is the mutable \<^verbatim>\<open>j[key]\<close>: a missing member reads as null, null reads as an object,
  anything else throws. \<open>jnth\<close> is the mutable \<^verbatim>\<open>j[i]\<close>. \<open>jitems\<close> is what iterating yields: the
  elements of an array, the values of an object, nothing for null, and any other value itself.
\<close>

definition jat :: "json \<Rightarrow> string \<Rightarrow> exn + json" where
  "jat j k =
     (case j of
        JObj ms \<Rightarrow> Inr (case map_of ms k of None \<Rightarrow> JNull | Some v \<Rightarrow> v)
      | JNull \<Rightarrow> Inr JNull
      | _ \<Rightarrow> Inl TypeError)"

definition jnth :: "json \<Rightarrow> nat \<Rightarrow> exn + json" where
  "jnth j i =
     (case j of
        JArr xs \<Rightarrow> Inr (if i < length xs then xs ! i else JNull)
      | JNull \<Rightarrow> Inr JNull
      | _ \<Rightarrow> Inl TypeError)"

fun jsize :: "json \<Rightarrow> nat" where
  "jsize JNull = 0"
| "jsize (JArr xs) = length xs"
| "jsize (JObj ms) = length ms"
| "jsize _ = 1"

fun jitems :: "json \<Rightarrow> json list" where
  "jitems JNull = []"
| "jitems (JArr xs) = xs"
| "jitems (JObj ms) = map snd ms"
| "jitems j = [j]"

definition jstring :: "json \<Rightarrow> exn + string" where
  "jstring j = (case j of JStr s \<Rightarrow> Inr s | _ \<Rightarrow> Inl TypeError)"

text \<open>\<^verbatim>\<open>get<int64_t>\<close>: integers wrap to 64 bits, floating point numbers are truncated towards zero.\<close>

definition jint64 :: "json \<Rightarrow> exn + 64 word" where
  "jint64 j =
     (case j of
        JInt i \<Rightarrow> Inr (of_int i)
      | JNum r \<Rightarrow> Inr (of_int (if 0 \<le> r then \<lfloor>r\<rfloor> else \<lceil>r\<rceil>))
      | _ \<Rightarrow> Inl TypeError)"

definition jvalue_num :: "json \<Rightarrow> string \<Rightarrow> double \<Rightarrow> exn + double" where
  "jvalue_num j k d =
     (if \<not> is_object j then Inl TypeError
      else case jget j k of
             None \<Rightarrow> Inr d
           | Some v \<Rightarrow> (case v of JNum r \<Rightarrow> Inr r | JInt i \<Rightarrow> Inr (of_int i) | _ \<Rightarrow> Inl TypeError))"

section \<open>Keys\<close>

text \<open>The key directory exists and can be written to; a save can still fail file by file.\<close>

definition kIrisCodeSlots :: nat where
  "kIrisCodeSlots = 8192"

datatype key_part = ContextPart | PublicPart | SecretPart | EvalMultPart | EvalRotatePart

fun key_file :: "key_part \<Rightarrow> string" where
  "key_file ContextPart = ''cryptocontext.bin''"
| "key_file PublicPart = ''public.key''"
| "key_file SecretPart = ''secret.key''"
| "key_file EvalMultPart = ''eval_mult.key''"
| "key_file EvalRotatePart = ''eval_rotate.key''"

text \<open>
  OpenFHE: the material a key generation yields, its serialisation by part, the ring dimension
  of a context, reading a ciphertext, and decrypting one with a secret key to its slot values.
\<close>

record ('k, 'c) fhe_lib =
  gen_part :: "key_part \<Rightarrow> 'k"
  ser_part :: "key_part \<Rightarrow> 'k \<Rightarrow> bytes"
  deser_part :: "key_part \<Rightarrow> bytes \<Rightarrow> 'k option"
  ring_dimension :: "'k \<Rightarrow> nat"
  deser_ct :: "bytes \<Rightarrow> 'c option"
  decrypt_slots :: "'k \<Rightarrow> 'c \<Rightarrow> int list"

text \<open>The globals of the service and its key directory.\<close>

record 'k he_state =
  key_dir :: "string \<rightharpoonup> bytes"
  g_parts :: "key_part \<rightharpoonup> 'k"
  g_initialized :: bool

definition he_start :: "(string \<rightharpoonup> bytes) \<Rightarrow> 'k he_state" where
  "he_start d = \<lparr>key_dir = d, g_parts = Map.empty, g_initialized = False\<rparr>"

definition KeysExist :: "(string \<rightharpoonup> bytes) \<Rightarrow> bool" where
  "KeysExist d =
     (d ''cryptocontext.bin'' \<noteq> None \<and> d ''secret.key'' \<noteq> None \<and> d ''public.key'' \<noteq> None)"

text \<open>
  Saving one part: \<open>None\<close> is success, \<open>Some left\<close> a failure that leaves \<open>left\<close> (no file, or a
  partial one) in its place.
\<close>

fun save_parts ::
  "('k, 'c) fhe_lib \<Rightarrow> (key_part \<Rightarrow> bytes option option) \<Rightarrow> key_part list \<Rightarrow> (string \<rightharpoonup> bytes) \<Rightarrow> bool \<times> (string \<rightharpoonup> bytes)" where
  "save_parts lib fault [] d = (True, d)"
| "save_parts lib fault (p # ps) d =
     (case fault p of
        None \<Rightarrow> save_parts lib fault ps (d(key_file p \<mapsto> ser_part lib p (gen_part lib p)))
      | Some left \<Rightarrow> (False, d(key_file p := left)))"

definition GenerateAndSaveKeys ::
  "('k, 'c) fhe_lib \<Rightarrow> (key_part \<Rightarrow> bytes option option) \<Rightarrow> 'k he_state \<Rightarrow> bool \<times> 'k he_state" where
  "GenerateAndSaveKeys lib fault s =
     (let s = s\<lparr>g_parts := (g_parts s)(ContextPart \<mapsto> gen_part lib ContextPart)\<rparr> in
      if ring_dimension lib (gen_part lib ContextPart) < kIrisCodeSlots then (False, s)
      else
        let s = s\<lparr>g_parts := (\<lambda>p. Some (gen_part lib p))\<rparr>;
            (ok, d) = save_parts lib fault [ContextPart, PublicPart, SecretPart, EvalMultPart, EvalRotatePart] (key_dir s)
        in (ok, s\<lparr>key_dir := d\<rparr>))"

fun load_parts ::
  "('k, 'c) fhe_lib \<Rightarrow> (string \<rightharpoonup> bytes) \<Rightarrow> key_part list \<Rightarrow> (key_part \<rightharpoonup> 'k) \<Rightarrow> bool \<times> (key_part \<rightharpoonup> 'k)" where
  "load_parts lib d [] g = (True, g)"
| "load_parts lib d (p # ps) g =
     (case d (key_file p) of
        None \<Rightarrow> (False, g)
      | Some bs \<Rightarrow>
          (case deser_part lib p bs of
             None \<Rightarrow> (False, g)
           | Some k \<Rightarrow> load_parts lib d ps (g(p \<mapsto> k))))"

definition LoadKeysFromDir :: "('k, 'c) fhe_lib \<Rightarrow> 'k he_state \<Rightarrow> bool \<times> 'k he_state" where
  "LoadKeysFromDir lib s =
     (let (ok, g) = load_parts lib (key_dir s)
            [ContextPart, SecretPart, PublicPart, EvalMultPart, EvalRotatePart] (g_parts s)
      in (ok, s\<lparr>g_parts := g\<rparr>))"

definition InitContext ::
  "('k, 'c) fhe_lib \<Rightarrow> (key_part \<Rightarrow> bytes option option) \<Rightarrow> 'k he_state \<Rightarrow> bool \<times> 'k he_state" where
  "InitContext lib fault s =
     (if g_initialized s then (True, s)
      else
        let (ok, s) = (if KeysExist (key_dir s) then LoadKeysFromDir lib s else GenerateAndSaveKeys lib fault s)
        in (ok, if ok then s\<lparr>g_initialized := True\<rparr> else s))"

section \<open>Decryption\<close>

definition DeserializeCiphertext :: "('k, 'c) fhe_lib \<Rightarrow> bytes \<Rightarrow> exn + 'c" where
  "DeserializeCiphertext lib ct_bytes =
     (case deser_ct lib ct_bytes of
        None \<Rightarrow> Inl (StdException ''Failed to deserialize ciphertext'')
      | Some c \<Rightarrow> Inr c)"

definition decrypt_with :: "('k, 'c) fhe_lib \<Rightarrow> 'k he_state \<Rightarrow> bytes \<Rightarrow> exn + int list" where
  "decrypt_with lib s ct_bytes =
     (if \<not> g_initialized s then Inl (StdException ''HE context not initialized'')
      else ebind (DeserializeCiphertext lib ct_bytes) (\<lambda>ct.
        case g_parts s SecretPart of
          None \<Rightarrow> Inl (StdException ''null key'')
        | Some sk \<Rightarrow> Inr (decrypt_slots lib sk ct)))"

text \<open>\<^verbatim>\<open>Plaintext::SetLength\<close> resizes the slot vector, with zeros beyond its end.\<close>

definition SetLength :: "nat \<Rightarrow> int list \<Rightarrow> int list" where
  "SetLength n slots = take n slots @ replicate (n - length slots) 0"

definition DecryptToVector :: "('k, 'c) fhe_lib \<Rightarrow> 'k he_state \<Rightarrow> bytes \<Rightarrow> exn + int list" where
  "DecryptToVector lib s ct_bytes =
     ebind (decrypt_with lib s ct_bytes) (\<lambda>slots. Inr (SetLength kIrisCodeSlots slots))"

definition DecryptScalar :: "('k, 'c) fhe_lib \<Rightarrow> 'k he_state \<Rightarrow> bytes \<Rightarrow> exn + 64 word" where
  "DecryptScalar lib s ct_bytes = ebind (decrypt_with lib s ct_bytes) (\<lambda>slots. Inr (of_int (hd (SetLength 1 slots))))"

definition GetRingDimension :: "('k, 'c) fhe_lib \<Rightarrow> 'k he_state \<Rightarrow> nat" where
  "GetRingDimension lib s =
     (if \<not> g_initialized s then 0
      else case g_parts s ContextPart of None \<Rightarrow> 0 | Some c \<Rightarrow> ring_dimension lib c)"

definition IsReady :: "'k he_state \<Rightarrow> bool" where
  "IsReady s = g_initialized s"

section \<open>Handlers\<close>

text \<open>
  A handler answers on the message's reply subject, if it has one; the outcome is the list of
  replies, or an exception that leaves the callback. \<open>jdump\<close> is \<^verbatim>\<open>dump()\<close>, which throws on text
  that is not UTF-8.
\<close>

definition SendReply :: "(json \<Rightarrow> exn + string) \<Rightarrow> string option \<Rightarrow> json \<Rightarrow> exn + (string \<times> string) list" where
  "SendReply jdump reply response =
     (case reply of
        None \<Rightarrow> Inr []
      | Some r \<Rightarrow> ebind (jdump response) (\<lambda>body. Inr [(r, body)]))"

definition SendError :: "(json \<Rightarrow> exn + string) \<Rightarrow> string option \<Rightarrow> string \<Rightarrow> exn + (string \<times> string) list" where
  "SendError jdump reply err = SendReply jdump reply (JObj [(''error'', JStr err)])"

record MatchCandidate =
  mc_template_id :: string
  mc_identity_id :: string
  mc_identity_name :: string
  mc_distance :: double

text \<open>
  The fractional Hamming distance of one entry: over its encrypted inner products, the
  differing bits \<open>pop_a + pop_b - 2 ip\<close> in 64-bit arithmetic, summed, over 8192 bits each.
\<close>

definition pair_xor ::
  "(bytes \<Rightarrow> exn + 64 word) \<Rightarrow> json \<Rightarrow> json \<Rightarrow> json \<Rightarrow> nat \<Rightarrow> exn + int" where
  "pair_xor dec ips pops gpops i =
     ebind (jnth ips i) (\<lambda>b64j. ebind (jstring b64j) (\<lambda>b64. ebind (dec (Base64Decode b64)) (\<lambda>ip.
     ebind (jnth pops i) (\<lambda>aj. ebind (jint64 aj) (\<lambda>pop_a.
     ebind (jnth gpops i) (\<lambda>bj. ebind (jint64 bj) (\<lambda>pop_b.
       Inr (sint (pop_a + pop_b - 2 * ip)))))))))"

definition entry_fhd :: "(bytes \<Rightarrow> exn + 64 word) \<Rightarrow> json \<Rightarrow> exn + double" where
  "entry_fhd dec entry =
     ebind (jat entry ''enc_inner_products_b64'') (\<lambda>ips.
     ebind (jat entry ''probe_iris_popcount'') (\<lambda>pops.
     ebind (jat entry ''gallery_iris_popcount'') (\<lambda>gpops.
     ebind (emap (pair_xor dec ips pops gpops) [0..<jsize ips]) (\<lambda>xors.
       let total_bits = of_nat (length xors * kIrisCodeSlots)
       in Inr (if total_bits > 0 then of_int (sum_list xors) / total_bits else 1)))))"

fun batch_loop ::
  "(bytes \<Rightarrow> exn + 64 word) \<Rightarrow> json list \<Rightarrow> MatchCandidate \<Rightarrow> bool \<Rightarrow> exn + MatchCandidate \<times> bool" where
  "batch_loop dec [] best found = Inr (best, found)"
| "batch_loop dec (entry # entries) best found =
     ebind (entry_fhd dec entry) (\<lambda>fhd.
       if fhd < mc_distance best
       then ebind (jat entry ''template_id'') (\<lambda>tj. ebind (jstring tj) (\<lambda>tid.
            ebind (jat entry ''identity_id'') (\<lambda>ij. ebind (jstring ij) (\<lambda>iid.
            ebind (jvalue_str entry ''identity_name'' []) (\<lambda>nm.
              batch_loop dec entries
                \<lparr>mc_template_id = tid, mc_identity_id = iid, mc_identity_name = nm, mc_distance = fhd\<rparr> True)))))
       else batch_loop dec entries best found)"

definition no_candidate :: MatchCandidate where
  "no_candidate = \<lparr>mc_template_id = [], mc_identity_id = [], mc_identity_name = [], mc_distance = 1\<rparr>"

definition batch_response :: "double \<Rightarrow> MatchCandidate \<Rightarrow> bool \<Rightarrow> json" where
  "batch_response thr best found =
     (let is_match = (found \<and> mc_distance best < thr) in
      JObj [(''is_match'', JBool is_match), (''hamming_distance'', JNum (mc_distance best)),
            (''matched_identity_id'', if is_match then JStr (mc_identity_id best) else JNull),
            (''matched_identity_name'', if is_match then JStr (mc_identity_name best) else JNull)])"

definition decrypt_batch :: "(bytes \<Rightarrow> exn + 64 word) \<Rightarrow> json \<Rightarrow> exn + json" where
  "decrypt_batch dec req =
     ebind (jvalue_num req ''threshold'' (39 / 100)) (\<lambda>thr.
     ebind (jat req ''entries'') (\<lambda>entries.
     ebind (batch_loop dec (jitems entries) no_candidate False) (\<lambda>(best, found).
       Inr (batch_response thr best found))))"

fun what :: "exn \<Rightarrow> string" where
  "what TypeError = ''type_error''"
| "what (StdException s) = s"

definition HandleDecryptBatch ::
  "(string \<Rightarrow> exn + json) \<Rightarrow> (json \<Rightarrow> exn + string) \<Rightarrow> (bytes \<Rightarrow> exn + 64 word) \<Rightarrow> string \<Rightarrow> string option \<Rightarrow>
   exn + (string \<times> string) list" where
  "HandleDecryptBatch jparse jdump dec data reply =
     (case ebind (jparse data) (\<lambda>req. ebind (decrypt_batch dec req) (SendReply jdump reply)) of
        Inr out \<Rightarrow> Inr out
      | Inl e \<Rightarrow> SendError jdump reply (''decrypt_batch failed: '' @ what e))"

definition decrypt_list :: "(bytes \<Rightarrow> exn + int list) \<Rightarrow> json \<Rightarrow> exn + json" where
  "decrypt_list dec lst =
     ebind (emap (\<lambda>b64j. ebind (jstring b64j) (\<lambda>b64. dec (Base64Decode b64))) (jitems lst))
       (\<lambda>vs. Inr (JArr (map (\<lambda>v. JArr (map JInt v)) vs)))"

definition decrypt_template :: "(bytes \<Rightarrow> exn + int list) \<Rightarrow> json \<Rightarrow> exn + json" where
  "decrypt_template dec req =
     ebind (case jget req ''iris_codes_b64'' of
              None \<Rightarrow> Inr [] | Some l \<Rightarrow> ebind (decrypt_list dec l) (\<lambda>a. Inr [(''iris_codes'', a)])) (\<lambda>iris.
     ebind (case jget req ''mask_codes_b64'' of
              None \<Rightarrow> Inr [] | Some l \<Rightarrow> ebind (decrypt_list dec l) (\<lambda>a. Inr [(''mask_codes'', a)])) (\<lambda>mask.
       Inr (if iris @ mask = [] then JNull else JObj (iris @ mask))))"

definition HandleDecryptTemplate ::
  "(string \<Rightarrow> exn + json) \<Rightarrow> (json \<Rightarrow> exn + string) \<Rightarrow> (bytes \<Rightarrow> exn + int list) \<Rightarrow> string \<Rightarrow> string option \<Rightarrow>
   exn + (string \<times> string) list" where
  "HandleDecryptTemplate jparse jdump dec data reply =
     (case ebind (jparse data) (\<lambda>req. ebind (decrypt_template dec req) (SendReply jdump reply)) of
        Inr out \<Rightarrow> Inr out
      | Inl e \<Rightarrow> SendError jdump reply (''decrypt_template failed: '' @ what e))"

definition HandleHealth ::
  "(json \<Rightarrow> exn + string) \<Rightarrow> ('k, 'c) fhe_lib \<Rightarrow> 'k he_state \<Rightarrow> string option \<Rightarrow> exn + (string \<times> string) list" where
  "HandleHealth jdump lib s reply =
     SendReply jdump reply
       (JObj [(''status'', JStr (if IsReady s then ''ok'' else ''not_ready'')),
              (''ring_dimension'', JInt (int (GetRingDimension lib s)))])"

section \<open>NATS lifecycle\<close>

record KeyConfig =
  kc_nats_url :: string
  kc_key_dir :: string
  kc_log_level :: string

definition GetEnv :: "(string \<Rightarrow> string option) \<Rightarrow> string \<Rightarrow> string \<Rightarrow> string" where
  "GetEnv env name d = (case env name of None \<Rightarrow> d | Some v \<Rightarrow> v)"

definition LoadConfig :: "(string \<Rightarrow> string option) \<Rightarrow> KeyConfig" where
  "LoadConfig env =
     \<lparr>kc_nats_url = GetEnv env ''EYED_NATS_URL'' ''nats://nats:4222'',
      kc_key_dir = GetEnv env ''EYED_HE_KEY_DIR'' ''/keys'',
      kc_log_level = GetEnv env ''EYED_LOG_LEVEL'' ''info''\<rparr>"

definition kMaxRetries :: nat where
  "kMaxRetries = 30"

text \<open>The attempts' outcomes by number, from 1; the number of attempts made comes back too.\<close>

fun connect_attempts :: "(nat \<Rightarrow> bool) \<Rightarrow> nat \<Rightarrow> nat \<Rightarrow> bool \<times> nat" where
  "connect_attempts ok i 0 = (False, i - 1)"
| "connect_attempts ok i (Suc left) = (if ok i then (True, i) else connect_attempts ok (i + 1) left)"

definition ConnectNats :: "bool \<Rightarrow> (nat \<Rightarrow> bool) \<Rightarrow> bool \<times> nat" where
  "ConnectNats options_ok ok = (if \<not> options_ok then (False, 0) else connect_attempts ok 1 kMaxRetries)"

definition key_subjects :: "string list" where
  "key_subjects = [''eyed.key.decrypt_batch'', ''eyed.key.decrypt_template'', ''eyed.key.health'']"

fun SubscribeAll_loop :: "(string \<Rightarrow> bool) \<Rightarrow> string list \<Rightarrow> string list \<Rightarrow> bool \<times> string list" where
  "SubscribeAll_loop ok [] subs = (True, subs)"
| "SubscribeAll_loop ok (s # ss) subs =
     (if \<not> ok s then (False, subs) else SubscribeAll_loop ok ss (subs @ [s]))"

definition SubscribeAll :: "(string \<Rightarrow> bool) \<Rightarrow> bool \<times> string list" where
  "SubscribeAll ok = SubscribeAll_loop ok key_subjects []"

text \<open>
  \<^verbatim>\<open>main\<close>: the exit code, and the subscriptions that exist while it waits (\<open>None\<close> when it
  returns before); on the way out \<^verbatim>\<open>Cleanup\<close> destroys them.
\<close>

definition key_main ::
  "('k, 'c) fhe_lib \<Rightarrow> (key_part \<Rightarrow> bytes option option) \<Rightarrow> bool \<Rightarrow> (nat \<Rightarrow> bool) \<Rightarrow> (string \<Rightarrow> bool) \<Rightarrow>
   'k he_state \<Rightarrow> int \<times> string list option \<times> 'k he_state" where
  "key_main lib fault options_ok conn_ok sub_ok s =
     (let (ok, s) = InitContext lib fault s in
      if \<not> ok then (1, None, s)
      else if \<not> fst (ConnectNats options_ok conn_ok) then (1, None, s)
      else let (ok, subs) = SubscribeAll sub_ok in
           if \<not> ok then (1, None, s) else (0, Some subs, s))"

section \<open>The best match of a batch\<close>

text \<open>
  The state of the search after the entries: the least distance, and, if an entry was below
  the start value, the names of the first entry that attains it.
\<close>

definition candidate_of :: "json \<Rightarrow> MatchCandidate \<Rightarrow> bool" where
  "candidate_of entry b \<longleftrightarrow>
     jat entry ''template_id'' = Inr (JStr (mc_template_id b)) \<and>
     jat entry ''identity_id'' = Inr (JStr (mc_identity_id b)) \<and>
     jvalue_str entry ''identity_name'' [] = Inr (mc_identity_name b)"

definition first_min :: "double list \<Rightarrow> nat \<Rightarrow> bool" where
  "first_min ds i \<longleftrightarrow> i < length ds \<and> (\<forall>j < length ds. ds ! i \<le> ds ! j) \<and> (\<forall>j < i. ds ! i < ds ! j)"

lemma jstring_Inr [simp]: "jstring j = Inr s \<longleftrightarrow> j = JStr s"
  by (cases j) (simp_all add: jstring_def)

lemma first_min_Cons_0: "first_min (d # ds) 0 \<longleftrightarrow> (\<forall>x \<in> set ds. d \<le> x)"
  by (auto simp: first_min_def less_Suc_eq_0_disj all_set_conv_all_nth)

lemma first_min_Cons_Suc: "first_min (d # ds) (Suc i) \<longleftrightarrow> first_min ds i \<and> ds ! i < d"
  by (auto simp: first_min_def All_less_Suc2)

lemma first_min_Min: "first_min ds i \<Longrightarrow> ds ! i = Min (set ds)"
  by (rule sym, rule Min_eqI) (auto simp: first_min_def in_set_conv_nth)

lemma batch_loop_spec:
  assumes "batch_loop dec es best found = Inr (b, f)"
  shows "\<exists>ds. emap (entry_fhd dec) es = Inr ds \<and>
           (if \<exists>d \<in> set ds. d < mc_distance best
            then f \<and> (\<exists>i. first_min ds i \<and> mc_distance b = ds ! i \<and> candidate_of (es ! i) b)
            else b = best \<and> f = found)"
  using assms
proof (induction es arbitrary: best found)
  case Nil
  then show ?case by simp
next
  case (Cons e es)
  obtain d where d: "entry_fhd dec e = Inr d"
    using Cons.prems by (auto simp: ebind_Inr)
  show ?case
  proof (cases "d < mc_distance best")
    case True
    then obtain tid iid nm where "jat e ''template_id'' = Inr (JStr tid)" "jat e ''identity_id'' = Inr (JStr iid)"
        "jvalue_str e ''identity_name'' [] = Inr nm"
        "batch_loop dec es \<lparr>mc_template_id = tid, mc_identity_id = iid, mc_identity_name = nm, mc_distance = d\<rparr> True
         = Inr (b, f)"
      using Cons.prems d by (auto simp: ebind_Inr)
    then obtain b' where cand: "candidate_of e b'" and dist: "mc_distance b' = d"
      and loop: "batch_loop dec es b' True = Inr (b, f)"
      by (auto simp: candidate_of_def intro: that
            [of "\<lparr>mc_template_id = tid, mc_identity_id = iid, mc_identity_name = nm, mc_distance = d\<rparr>"])
    obtain ds where ds: "emap (entry_fhd dec) es = Inr ds"
      and split: "if \<exists>x \<in> set ds. x < d
                  then f \<and> (\<exists>i. first_min ds i \<and> mc_distance b = ds ! i \<and> candidate_of (es ! i) b)
                  else b = b' \<and> f"
      using Cons.IH[OF loop] by (auto simp: dist)
    have "f \<and> (\<exists>i. first_min (d # ds) i \<and> mc_distance b = (d # ds) ! i \<and> candidate_of ((e # es) ! i) b)"
    proof (cases "\<exists>x \<in> set ds. x < d")
      case True
      with split obtain i where i: "f" "first_min ds i" "mc_distance b = ds ! i" "candidate_of (es ! i) b"
        by auto
      have "ds ! i < d"
        using True i(2) by (fastforce simp: first_min_def in_set_conv_nth)
      with i show ?thesis by (intro conjI exI[of _ "Suc i"]) (simp_all add: first_min_Cons_Suc)
    next
      case False
      with split cand dist show ?thesis
        by (intro conjI exI[of _ 0]) (auto simp: first_min_Cons_0 not_less)
    qed
    with d ds True show ?thesis by (auto simp: ebind_Inr)
  next
    case False
    then have "batch_loop dec es best found = Inr (b, f)"
      using Cons.prems d by simp
    from Cons.IH[OF this] obtain ds where ds: "emap (entry_fhd dec) es = Inr ds"
      and split: "if \<exists>x \<in> set ds. x < mc_distance best
                  then f \<and> (\<exists>i. first_min ds i \<and> mc_distance b = ds ! i \<and> candidate_of (es ! i) b)
                  else b = best \<and> f = found" by auto
    show ?thesis
    proof (cases "\<exists>x \<in> set ds. x < mc_distance best")
      case True
      with split obtain i where i: "f" "first_min ds i" "mc_distance b = ds ! i" "candidate_of (es ! i) b"
        by auto
      have "ds ! i < d"
        using True False i(2) by (fastforce simp: first_min_def in_set_conv_nth)
      with i have "\<exists>i. first_min (d # ds) i \<and> mc_distance b = (d # ds) ! i \<and> candidate_of ((e # es) ! i) b"
        by (intro exI[of _ "Suc i"]) (simp add: first_min_Cons_Suc)
      with d ds i(1) True show ?thesis by (auto simp: ebind_Inr)
    next
      case no: False
      with False split d ds show ?thesis by (auto simp: ebind_Inr)
    qed
  qed
qed

text \<open>
  C10. A batch that is answered reports the least distance over its entries, 1 if none is below
  1, and a match exactly when some entry is below both 1 and the threshold; the identity it then
  names is that of the first entry with the least distance.
\<close>

theorem decrypt_batch_best:
  assumes "decrypt_batch dec req = Inr resp"
  shows "\<exists>thr es ds. jvalue_num req ''threshold'' (39 / 100) = Inr thr \<and> jat req ''entries'' = Inr es \<and>
           emap (entry_fhd dec) (jitems es) = Inr ds \<and>
           jget resp ''hamming_distance'' = Some (JNum (Min (insert 1 (set ds)))) \<and>
           jget resp ''is_match'' = Some (JBool (\<exists>d \<in> set ds. d < 1 \<and> d < thr)) \<and>
           (if \<exists>d \<in> set ds. d < 1 \<and> d < thr
            then \<exists>i iid nm. first_min ds i \<and>
                   jat (jitems es ! i) ''identity_id'' = Inr (JStr iid) \<and>
                   jvalue_str (jitems es ! i) ''identity_name'' [] = Inr nm \<and>
                   jget resp ''matched_identity_id'' = Some (JStr iid) \<and>
                   jget resp ''matched_identity_name'' = Some (JStr nm)
            else jget resp ''matched_identity_id'' = Some JNull \<and>
                 jget resp ''matched_identity_name'' = Some JNull)"
proof -
  obtain thr es b f where thr: "jvalue_num req ''threshold'' (39 / 100) = Inr thr" and es: "jat req ''entries'' = Inr es"
    and loop: "batch_loop dec (jitems es) no_candidate False = Inr (b, f)"
    and resp: "resp = batch_response thr b f"
    using assms by (auto simp: decrypt_batch_def ebind_Inr)
  have start: "mc_distance no_candidate = 1" by (simp add: no_candidate_def)
  obtain ds where ds: "emap (entry_fhd dec) (jitems es) = Inr ds"
    and split: "if \<exists>d \<in> set ds. d < 1
                then f \<and> (\<exists>i. first_min ds i \<and> mc_distance b = ds ! i \<and> candidate_of (jitems es ! i) b)
                else b = no_candidate \<and> f = False"
    using batch_loop_spec[OF loop] unfolding start by auto
  show ?thesis
  proof (cases "\<exists>d \<in> set ds. d < 1")
    case True
    with split obtain i where i: "f" "first_min ds i" "mc_distance b = ds ! i" "candidate_of (jitems es ! i) b"
      by auto
    have below: "\<forall>d \<in> set ds. ds ! i \<le> d" and mem: "ds ! i \<in> set ds"
      using i(2) by (auto simp: first_min_def in_set_conv_nth)
    have lt: "ds ! i < 1" using True below by force
    have mn: "Min (insert 1 (set ds)) = ds ! i"
      using below mem lt by (intro Min_eqI) auto
    have hit: "(\<exists>d \<in> set ds. d < 1 \<and> d < thr) \<longleftrightarrow> ds ! i < thr"
      using below mem lt by force
    show ?thesis
      using thr es ds i by (intro exI[of _ thr] exI[of _ es] exI[of _ ds])
        (auto simp: hit mn resp batch_response_def candidate_of_def Let_def)
  next
    case False
    have mn: "Min (insert 1 (set ds)) = 1"
      using False by (intro Min_eqI) (auto simp: not_less)
    from False split have "b = no_candidate" "\<not> f" by auto
    with thr es ds False mn show ?thesis
      by (intro exI[of _ thr] exI[of _ es] exI[of _ ds]) (auto simp: resp batch_response_def no_candidate_def Let_def)
  qed
qed

definition sample_entry :: "string \<Rightarrow> int \<Rightarrow> json" where
  "sample_entry iid pop =
     JObj [(''enc_inner_products_b64'', JArr [JStr ''AAAA'']), (''probe_iris_popcount'', JArr [JInt 4096]),
           (''gallery_iris_popcount'', JArr [JInt pop]), (''template_id'', JStr ''t''), (''identity_id'', JStr iid)]"

definition sample_batch :: json where
  "sample_batch = JObj [(''entries'', JArr [sample_entry ''far'' 4096, sample_entry ''near'' 2048, sample_entry ''tie'' 2048])]"

definition sample_dec :: "bytes \<Rightarrow> exn + 64 word" where
  "sample_dec bs = Inr 2048"

lemma sample_entry_fhd:
  "entry_fhd sample_dec (sample_entry ''far'' 4096) = Inr (1 / 2)"
  "entry_fhd sample_dec (sample_entry iid 2048) = Inr (1 / 4)"
  by (simp_all add: entry_fhd_def sample_entry_def sample_dec_def jat_def pair_xor_def jnth_def jstring_def jint64_def
        kIrisCodeSlots_def)

lemma sample_entry_names:
  "jat (sample_entry iid pop) ''template_id'' = Inr (JStr ''t'')"
  "jat (sample_entry iid pop) ''identity_id'' = Inr (JStr iid)"
  "jvalue_str (sample_entry iid pop) ''identity_name'' [] = Inr []"
  by (simp_all add: sample_entry_def jat_def jvalue_str_def)

lemma jat_object: "jat (JObj ms) k = Inr (case map_of ms k of None \<Rightarrow> JNull | Some v \<Rightarrow> v)"
  by (simp add: jat_def)

lemma sample_batch_answer:
  "decrypt_batch sample_dec sample_batch =
     Inr (JObj [(''is_match'', JBool True), (''hamming_distance'', JNum (1 / 4)),
                (''matched_identity_id'', JStr ''near''), (''matched_identity_name'', JStr [])])"
  by (simp add: decrypt_batch_def sample_batch_def jvalue_num_def jat_object jstring_def sample_entry_fhd
        sample_entry_names no_candidate_def batch_response_def)

theorem decrypt_batch_best_witness:
  "\<exists>ds. emap (entry_fhd sample_dec) (jitems (JArr [sample_entry ''far'' 4096, sample_entry ''near'' 2048, sample_entry ''tie'' 2048])) = Inr ds \<and>
        1 / 4 = Min (insert 1 (set ds)) \<and> (\<exists>d \<in> set ds. d < 1 \<and> d < 39 / 100)"
  using decrypt_batch_best[OF sample_batch_answer]
  by (fastforce simp: sample_batch_def jat_def jvalue_num_def)

section \<open>What a distance measures\<close>

text \<open>
  The client sends, for each pair of iris codes \<open>a\<close> and \<open>b\<close>, the encryption of their inner
  product and the numbers of ones of each.
\<close>

definition ones :: "bool list \<Rightarrow> nat" where
  "ones a = length (filter id a)"

definition inner_product :: "bool list \<Rightarrow> bool list \<Rightarrow> nat" where
  "inner_product a b = length (filter (\<lambda>(x, y). x \<and> y) (zip a b))"

definition differing :: "bool list \<Rightarrow> bool list \<Rightarrow> nat" where
  "differing a b = length (filter (\<lambda>(x, y). x \<noteq> y) (zip a b))"

lemma differing_inner_product:
  "length a = length b \<Longrightarrow> int (differing a b) = int (ones a) + int (ones b) - 2 * int (inner_product a b)"
  by (induction a b rule: list_induct2) (auto simp: differing_def ones_def inner_product_def)

lemma ones_le: "ones a \<le> length a" and differing_le: "differing a b \<le> length a"
  by (auto simp: ones_def differing_def intro: order_trans[OF length_filter_le])

lemma word64_xor_count:
  assumes "length a = kIrisCodeSlots" "length b = kIrisCodeSlots"
  shows "sint (of_int (int (ones a)) + of_int (int (ones b)) - 2 * of_nat (inner_product a b) :: 64 word)
         = int (differing a b)"
proof -
  have "differing a b \<le> 8192"
    using differing_le[of a b] assms by (simp add: kIrisCodeSlots_def)
  moreover have "(of_int (int (ones a)) + of_int (int (ones b)) - 2 * of_nat (inner_product a b) :: 64 word)
      = of_int (int (differing a b))"
    using differing_inner_product[of a b] assms by simp
  ultimately show ?thesis
    by (simp only: signed_of_int) (simp add: signed_take_bit_int_eq_self)
qed

lemma sum_differing:
  "sum_list (map (\<lambda>(t, a, b). int (differing a b)) codes) = int (\<Sum>(t, a, b) \<leftarrow> codes. differing a b)"
  by (induction codes) auto

text \<open>
  C28. When the ciphertexts of an entry decrypt to the inner products of its iris codes and the
  populations it carries are theirs, the distance computed for it is the fraction of the bits in
  which the codes differ.
\<close>

theorem entry_fhd_hamming:
  assumes "\<forall>(t, a, b) \<in> set codes. length a = kIrisCodeSlots \<and> length b = kIrisCodeSlots \<and>
             dec (Base64Decode t) = Inr (of_nat (inner_product a b))"
    and "codes \<noteq> []"
    and "jat entry ''enc_inner_products_b64'' = Inr (JArr (map (\<lambda>(t, a, b). JStr t) codes))"
    and "jat entry ''probe_iris_popcount'' = Inr (JArr (map (\<lambda>(t, a, b). JInt (int (ones a))) codes))"
    and "jat entry ''gallery_iris_popcount'' = Inr (JArr (map (\<lambda>(t, a, b). JInt (int (ones b))) codes))"
  shows "entry_fhd dec entry =
           Inr (of_nat (\<Sum>(t, a, b) \<leftarrow> codes. differing a b) / of_nat (\<Sum>(t, a, b) \<leftarrow> codes. length a))"
proof -
  define ips pops gpops where "ips = JArr (map (\<lambda>(t, a, b). JStr t) codes)"
    and "pops = JArr (map (\<lambda>(t, a, b). JInt (int (ones a))) codes)"
    and "gpops = JArr (map (\<lambda>(t, a, b). JInt (int (ones b))) codes)"
  define g where "g i = (case codes ! i of (t, a, b) \<Rightarrow> int (differing a b))" for i
  have pair: "pair_xor dec ips pops gpops i = Inr (g i)" if "i < length codes" for i
  proof -
    obtain t a b where c: "codes ! i = (t, a, b)" by (cases "codes ! i") auto
    have "length a = kIrisCodeSlots" "length b = kIrisCodeSlots"
      "dec (Base64Decode t) = Inr (of_nat (inner_product a b))"
      using assms(1) nth_mem[OF that] unfolding c by auto
    then show ?thesis
      using that c word64_xor_count[of a b]
      by (simp add: pair_xor_def ips_def pops_def gpops_def jnth_def jstring_def jint64_def g_def)
  qed
  have all: "emap (pair_xor dec ips pops gpops) [0..<jsize ips] = Inr (map g [0..<length codes])"
    using pair by (subst emap_cong_Inr[of _ _ g]) (simp_all add: ips_def)
  have "map g [0..<length codes] = map (\<lambda>(t, a, b). int (differing a b)) codes"
    by (rule nth_equalityI) (simp_all add: g_def)
  then have "sum_list (map g [0..<length codes]) = int (\<Sum>(t, a, b) \<leftarrow> codes. differing a b)"
    by (simp only: sum_differing)
  moreover have "(\<Sum>(t, a, b) \<leftarrow> codes. length a) = length codes * kIrisCodeSlots"
    using assms(1) by (induction codes) auto
  ultimately show ?thesis
    using assms(2-5) all
    by (simp add: entry_fhd_def ips_def pops_def gpops_def kIrisCodeSlots_def)
qed

theorem entry_fhd_hamming_witness:
  "entry_fhd (\<lambda>bs. Inr 0)
     (JObj [(''enc_inner_products_b64'', JArr [JStr ''AAAA'']), (''probe_iris_popcount'', JArr [JInt 8192]),
            (''gallery_iris_popcount'', JArr [JInt 0])]) = Inr 1"
  using entry_fhd_hamming[of "[(''AAAA'', replicate 8192 True, replicate 8192 False)]" "\<lambda>bs. Inr 0"
      "JObj [(''enc_inner_products_b64'', JArr [JStr ''AAAA'']), (''probe_iris_popcount'', JArr [JInt 8192]),
            (''gallery_iris_popcount'', JArr [JInt 0])]"]
  by (simp add: jat_object ones_def inner_product_def differing_def kIrisCodeSlots_def)

section \<open>Keys across restarts\<close>

lemmas key_order_simps = GenerateAndSaveKeys_def LoadKeysFromDir_def InitContext_def he_start_def KeysExist_def

lemma all_key_part: "(\<forall>p. P p) \<longleftrightarrow> P ContextPart \<and> P PublicPart \<and> P SecretPart \<and> P EvalMultPart \<and> P EvalRotatePart"
  using key_part.exhaust by metis

text \<open>The directory after a complete save, and what loading it gives.\<close>

definition saved :: "('k, 'c) fhe_lib \<Rightarrow> (string \<rightharpoonup> bytes) \<Rightarrow> bool" where
  "saved lib d \<longleftrightarrow> (\<forall>p. d (key_file p) = Some (ser_part lib p (gen_part lib p)))"

lemma load_saved:
  assumes "saved lib d" "\<forall>p. deser_part lib' p (ser_part lib p (gen_part lib p)) = Some (gen_part lib p)"
  shows "InitContext lib' fault (he_start d) =
           (True, \<lparr>key_dir = d, g_parts = (\<lambda>p. Some (gen_part lib p)), g_initialized = True\<rparr>)"
proof -
  have "d (key_file p) = Some (ser_part lib p (gen_part lib p))" for p
    using assms(1) by (simp add: saved_def)
  note f = this[of ContextPart] this[of PublicPart] this[of SecretPart] this[of EvalMultPart] this[of EvalRotatePart]
  have g: "[ContextPart \<mapsto> gen_part lib ContextPart, SecretPart \<mapsto> gen_part lib SecretPart,
         PublicPart \<mapsto> gen_part lib PublicPart, EvalMultPart \<mapsto> gen_part lib EvalMultPart,
         EvalRotatePart \<mapsto> gen_part lib EvalRotatePart] = (\<lambda>p. Some (gen_part lib p))"
    by (rule ext) (rename_tac p, case_tac p, simp_all)
  show ?thesis
    using f assms(2) g by (simp add: key_order_simps)
qed

lemma generate_saves:
  assumes "\<not> KeysExist d" "ring_dimension lib (gen_part lib ContextPart) \<ge> kIrisCodeSlots" "\<forall>p. fault p = None"
  shows "\<exists>d'. InitContext lib fault (he_start d) =
           (True, \<lparr>key_dir = d', g_parts = (\<lambda>p. Some (gen_part lib p)), g_initialized = True\<rparr>) \<and> saved lib d' \<and>
           (\<forall>f. f \<notin> range key_file \<longrightarrow> d' f = d f)"
proof -
  have nf: "f \<notin> range key_file \<longleftrightarrow> f \<noteq> ''cryptocontext.bin'' \<and> f \<noteq> ''public.key'' \<and> f \<noteq> ''secret.key'' \<and>
      f \<noteq> ''eval_mult.key'' \<and> f \<noteq> ''eval_rotate.key''" for f
    by (auto simp: image_iff all_key_part)
  show ?thesis
    using assms by (simp add: InitContext_def he_start_def GenerateAndSaveKeys_def saved_def all_key_part nf)
qed


definition sample_lib :: "(nat, nat) fhe_lib" where
  "sample_lib =
     \<lparr>gen_part = (\<lambda>p. case p of ContextPart \<Rightarrow> 16384 | _ \<Rightarrow> 3),
      ser_part = (\<lambda>p k. replicate k 7), deser_part = (\<lambda>p bs. Some (length bs)),
      ring_dimension = id, deser_ct = (\<lambda>bs. Some (length bs)), decrypt_slots = (\<lambda>k c. [int c])\<rparr>"


section \<open>The ciphertext file under concurrent handlers\<close>

text \<open>
  \<^verbatim>\<open>DeserializeCiphertext\<close> passes the bytes through the one file \<^verbatim>\<open>eyed_ct_tmp.bin\<close>: open
  (truncating), write, read back, remove. Each subscription of the NATS client delivers on its
  own thread, so two handlers may be in the routine together. The name refers to an inode; an
  open file keeps its inode when the name is removed.
\<close>

datatype 'c ct_pc = AtOpen | AtWrite nat | AtRead | AtRemove "exn + 'c" | Finished "exn + 'c"

record 'c ct_state =
  tmp_name :: "nat option"
  tmp_inode :: "nat \<Rightarrow> bytes"
  next_inode :: nat
  ct_thread :: "nat \<Rightarrow> bytes \<times> 'c ct_pc"

definition ct_goto :: "nat \<Rightarrow> 'c ct_pc \<Rightarrow> 'c ct_state \<Rightarrow> 'c ct_state" where
  "ct_goto i pc st = st\<lparr>ct_thread := (ct_thread st)(i := (fst (ct_thread st i), pc))\<rparr>"

definition ct_step :: "('k, 'c) fhe_lib \<Rightarrow> nat \<Rightarrow> 'c ct_state \<Rightarrow> 'c ct_state" where
  "ct_step lib i st =
     (case ct_thread st i of (ct_bytes, pc) \<Rightarrow>
       (case pc of
          AtOpen \<Rightarrow>
            (case tmp_name st of
               Some n \<Rightarrow> ct_goto i (AtWrite n) (st\<lparr>tmp_inode := (tmp_inode st)(n := [])\<rparr>)
             | None \<Rightarrow> ct_goto i (AtWrite (next_inode st))
                 (st\<lparr>tmp_name := Some (next_inode st), tmp_inode := (tmp_inode st)(next_inode st := []),
                     next_inode := next_inode st + 1\<rparr>))
        | AtWrite n \<Rightarrow>
            ct_goto i AtRead (st\<lparr>tmp_inode := (tmp_inode st)(n := ct_bytes @ drop (length ct_bytes) (tmp_inode st n))\<rparr>)
        | AtRead \<Rightarrow>
            ct_goto i (AtRemove (case tmp_name st of
                                   None \<Rightarrow> Inl (StdException ''Failed to deserialize ciphertext'')
                                 | Some n \<Rightarrow> DeserializeCiphertext lib (tmp_inode st n))) st
        | AtRemove r \<Rightarrow> ct_goto i (Finished r) (st\<lparr>tmp_name := None\<rparr>)
        | Finished r \<Rightarrow> st))"

definition ct_run :: "('k, 'c) fhe_lib \<Rightarrow> nat list \<Rightarrow> 'c ct_state \<Rightarrow> 'c ct_state" where
  "ct_run lib sched st = fold (ct_step lib) sched st"

definition ct_result :: "'c ct_state \<Rightarrow> nat \<Rightarrow> 'c ct_pc" where
  "ct_result st i = snd (ct_thread st i)"



end
