(* ===== verification/Config_Env.thy ===== *)
theory Config_Env
  imports Texts
begin

text \<open>
  The configurations read from the environment by the iris engine
  (\<^verbatim>\<open>iris-engine2/src/config.h\<close>), the storage service (\<^verbatim>\<open>storage/src/config.h\<close>) and the two
  participant programs. The environment and the secret files are functions; \<^verbatim>\<open>atof\<close> is a
  parameter.
\<close>

type_synonym environment = "string \<Rightarrow> string option"

definition env_text :: "environment \<Rightarrow> string \<Rightarrow> string \<Rightarrow> string" where
  "env_text env name d = (case env name of None \<Rightarrow> d | Some v \<Rightarrow> v)"

definition env_atoi :: "environment \<Rightarrow> string \<Rightarrow> int \<Rightarrow> int" where
  "env_atoi env name d = (case env name of None \<Rightarrow> d | Some v \<Rightarrow> atoi v)"

section \<open>Iris engine\<close>

record EngineConfig =
  ec_mode :: string
  ec_port :: int
  ec_db_url :: string
  ec_db_name :: string
  ec_pipeline_config :: string
  ec_match_threshold :: double
  ec_dedup_threshold :: double
  ec_smpc_enabled :: bool
  ec_smpc_mode :: string
  ec_nats_url :: string
  ec_smpc_num_parties :: int
  ec_smpc_pipeline_depth :: int
  ec_smpc_shards_per_participant :: int
  ec_tls_cert_dir :: string
  ec_audit_log_path :: string
  ec_security_monitor_enabled :: bool
  ec_smpc_fallback_plaintext :: bool
  ec_smpc2_enabled :: bool
  ec_smpc2_mode :: string
  ec_smpc2_parties :: int

definition env_flag :: "environment \<Rightarrow> string \<Rightarrow> bool \<Rightarrow> bool" where
  "env_flag env name d =
     (case env name of None \<Rightarrow> d | Some v \<Rightarrow> v = ''true'' \<or> v = ''1'' \<or> v = ''yes'')"

definition env_atof :: "(string \<Rightarrow> double) \<Rightarrow> environment \<Rightarrow> string \<Rightarrow> double \<Rightarrow> double" where
  "env_atof atof env name d = (case env name of None \<Rightarrow> d | Some v \<Rightarrow> atof v)"

text \<open>The first line of the file a variable names; an unreadable file reads as empty.\<close>

definition read_secret :: "environment \<Rightarrow> (string \<Rightarrow> string option) \<Rightarrow> string \<Rightarrow> string" where
  "read_secret env file var =
     (case env var of
        None \<Rightarrow> []
      | Some path \<Rightarrow>
          (case file path of None \<Rightarrow> [] | Some content \<Rightarrow> takeWhile (\<lambda>c. c \<noteq> CHR 0x0A) content))"

definition inject_secrets :: "environment \<Rightarrow> (string \<Rightarrow> string option) \<Rightarrow> string \<Rightarrow> string" where
  "inject_secrets env file url =
     (let user = read_secret env file ''EYED_DB_USER_FILE'';
          name = read_secret env file ''EYED_DB_NAME_FILE'';
          pass = read_secret env file ''EYED_DB_PASSWORD_FILE'';
          url = (if user \<noteq> [] then replace_first url ''__DB_USER__'' user else url);
          url = (if name \<noteq> [] then replace_first url ''__DB_NAME__'' name else url);
          url = (if pass \<noteq> [] then replace_first url ''__DB_PASSWORD__'' pass else url)
      in url)"

definition EngineConfig_from_env ::
  "(string \<Rightarrow> double) \<Rightarrow> environment \<Rightarrow> (string \<Rightarrow> string option) \<Rightarrow> EngineConfig" where
  "EngineConfig_from_env atof env file =
     (let mode = env_text env ''EYED_MODE'' ''prod'';
          smpc_mode = (if mode = ''dev'' then ''simulated'' else ''distributed'');
          smpc2_mode = (if mode = ''dev'' then ''simulated'' else ''distributed'')
      in \<lparr>ec_mode = mode,
          ec_port = env_atoi env ''EYED_PORT'' 7000,
          ec_db_url = inject_secrets env file (env_text env ''EYED_DB_URL'' []),
          ec_db_name = read_secret env file ''EYED_DB_NAME_FILE'',
          ec_pipeline_config = env_text env ''EYED_PIPELINE_CONFIG'' ''/src/libiris/pipeline.yaml'',
          ec_match_threshold = env_atof atof env ''EYED_MATCH_THRESHOLD'' (39 / 100),
          ec_dedup_threshold = env_atof atof env ''EYED_DEDUP_THRESHOLD'' (32 / 100),
          ec_smpc_enabled = env_flag env ''EYED_SMPC_ENABLED'' True,
          ec_smpc_mode = env_text env ''EYED_SMPC_MODE'' smpc_mode,
          ec_nats_url = env_text env ''EYED_NATS_URL'' [],
          ec_smpc_num_parties = env_atoi env ''EYED_SMPC_NUM_PARTIES'' 3,
          ec_smpc_pipeline_depth = env_atoi env ''EYED_SMPC_PIPELINE_DEPTH'' 0,
          ec_smpc_shards_per_participant = env_atoi env ''EYED_SMPC_SHARDS_PER_PARTICIPANT'' 0,
          ec_tls_cert_dir = env_text env ''EYED_TLS_CERT_DIR'' [],
          ec_audit_log_path = env_text env ''EYED_AUDIT_LOG_PATH'' [],
          ec_security_monitor_enabled = env_flag env ''EYED_SECURITY_MONITOR'' False,
          ec_smpc_fallback_plaintext = env_flag env ''EYED_SMPC_FALLBACK_PLAINTEXT'' False,
          ec_smpc2_enabled = env_flag env ''EYED_SMPC2_ENABLED'' True,
          ec_smpc2_mode = env_text env ''EYED_SMPC2_MODE'' smpc2_mode,
          ec_smpc2_parties = env_atoi env ''SMPC_PARTIES'' 5\<rparr>)"

section \<open>Storage\<close>

record StorageConfig =
  sc_nats_url :: string
  sc_archive_root :: string
  sc_log_level :: string
  sc_http_port :: string
  sc_retention_raw_days :: int
  sc_retention_artifacts_days :: int
  sc_retention_match_log_days :: int

definition env_days :: "environment \<Rightarrow> string \<Rightarrow> int \<Rightarrow> int" where
  "env_days env name d =
     (case env name of None \<Rightarrow> d | Some v \<Rightarrow> let n = atoi v in if n \<ge> 0 then n else d)"

definition StorageConfig_from_env :: "environment \<Rightarrow> StorageConfig" where
  "StorageConfig_from_env env =
     \<lparr>sc_nats_url = env_text env ''EYED_NATS_URL'' ''nats://nats:4222'',
      sc_archive_root = env_text env ''EYED_ARCHIVE_ROOT'' ''/data/archive'',
      sc_log_level = env_text env ''EYED_LOG_LEVEL'' ''info'',
      sc_http_port = env_text env ''EYED_HTTP_PORT'' ''8082'',
      sc_retention_raw_days = env_days env ''EYED_RETENTION_RAW_DAYS'' 730,
      sc_retention_artifacts_days = env_days env ''EYED_RETENTION_ARTIFACTS_DAYS'' 90,
      sc_retention_match_log_days = env_days env ''EYED_RETENTION_MATCH_LOG_DAYS'' 365\<rparr>"

lemma StorageConfig_days_nonneg: "0 \<le> sc_retention_raw_days (StorageConfig_from_env env)"
  by (simp add: StorageConfig_from_env_def env_days_def Let_def split: option.splits)

text \<open>The engine runs distributed unless it is told otherwise or is in development mode.\<close>

lemma EngineConfig_distributed:
  assumes "env ''EYED_SMPC_MODE'' = None" "env ''EYED_MODE'' \<noteq> Some ''dev''"
  shows "ec_smpc_mode (EngineConfig_from_env atof env file) = ''distributed''"
  using assms by (auto simp add: EngineConfig_from_env_def env_text_def Let_def split: option.splits)

end
