(* ===== verification/Storage_Main.thy ===== *)
theory Storage_Main
  imports Retention Key_Service Config_Env
begin

text \<open>
  The storage service as a whole (\<^verbatim>\<open>storage/src/main.cpp\<close>): start-up, the two health routes, and
  the service while it runs, as the sequence of what happens to it: messages that NATS
  delivers to the archive handler, purge cycles of the background thread, and requests. An
  archived message or a purge cycle is one step; what the steps do inside is in the theories
  of the handler and the purger. The exceptions of the handler end the process.
\<close>

section \<open>Start-up\<close>

definition storage_connect_nats :: "(nat \<Rightarrow> bool) \<Rightarrow> bool \<times> nat" where
  "storage_connect_nats ok = connect_attempts ok 1 30"

record storage_service =
  sv_handler :: "LocalStore ArchiveHandler"
  sv_purger :: RetentionPurger

text \<open>
  Everything up to the main loop: the service that runs, or how the program ended. The port is
  parsed after the subscription and the purger have started.
\<close>

definition storage_start ::
  "environment \<Rightarrow> (nat \<Rightarrow> bool) \<Rightarrow> bool \<Rightarrow> fs \<Rightarrow> ending + storage_service" where
  "storage_start env conn_ok sub_ok s =
     (let cfg = StorageConfig_from_env env in
      case LocalStore_new (sc_archive_root cfg) s of
        Inl x \<Rightarrow> Inl (Terminated x)
      | Inr st \<Rightarrow>
          let sv = \<lparr>sv_handler = \<lparr>store = st, archived = 0, errors = 0\<rparr>,
                    sv_purger = \<lparr>raw_days = sc_retention_raw_days cfg\<rparr>\<rparr> in
          if \<not> fst (storage_connect_nats conn_ok) then Inl (ExitCode 1)
          else if \<not> sub_ok then Inl (ExitCode 1)
          else (case stoi (sc_http_port cfg) of
                  Inl x \<Rightarrow> Inl (Terminated x)
                | Inr port \<Rightarrow> Inr sv))"

section \<open>The running service\<close>

definition storage_alive :: string where
  "storage_alive = ''{'' @ [CHR 0x22] @ ''alive'' @ [CHR 0x22] @ '':true}''"

definition storage_ready :: "(json \<Rightarrow> string) \<Rightarrow> bool \<Rightarrow> storage_service \<Rightarrow> string" where
  "storage_ready dump conn sv =
     dump (JObj [(''alive'', JBool True), (''ready'', JBool conn), (''nats_connected'', JBool conn),
       (''archived'', JInt (uint (archived (sv_handler sv)))), (''errors'', JInt (uint (errors (sv_handler sv)))),
       (''version'', JStr ''0.1.0'')])"

datatype storage_event =
    Deliver io int "bytes option"
  | Cycle "string list \<Rightarrow> string list set option" "string list \<Rightarrow> fs \<Rightarrow> string list" int
  | GetAlive
  | GetReady bool

fun storage_step ::
  "(bytes \<Rightarrow> json option) \<Rightarrow> (json \<Rightarrow> string) \<Rightarrow> storage_event \<Rightarrow> storage_service \<Rightarrow>
   exn + (string list \<times> storage_service)" where
  "storage_step jparse dump (Deliver io now payload) sv =
     (case nats_archive_cb (put io) jparse dump now payload (sv_handler sv) of
        Inl x \<Rightarrow> Inl x
      | Inr h \<Rightarrow> Inr ([], sv\<lparr>sv_handler := h\<rparr>))"
| "storage_step jparse dump (Cycle rm iter now) sv =
     (let h = sv_handler sv; (r, st) = purge_once rm iter now (sv_purger sv) (store h)
      in Inr ([], sv\<lparr>sv_handler := h\<lparr>store := st\<rparr>\<rparr>))"
| "storage_step jparse dump GetAlive sv = Inr ([storage_alive], sv)"
| "storage_step jparse dump (GetReady conn) sv = Inr ([storage_ready dump conn sv], sv)"

text \<open>
  The events until the signal, with the responses given; an exception ends the process, and
  what is on the disk then stays.
\<close>

fun storage_loop ::
  "(bytes \<Rightarrow> json option) \<Rightarrow> (json \<Rightarrow> string) \<Rightarrow> storage_event list \<Rightarrow> storage_service \<Rightarrow>
   ending \<times> string list \<times> storage_service" where
  "storage_loop jparse dump [] sv = (ExitCode 0, [], sv)"
| "storage_loop jparse dump (ev # evs) sv =
     (case storage_step jparse dump ev sv of
        Inl x \<Rightarrow> (Terminated x, [], sv)
      | Inr (out, sv) \<Rightarrow> (let (e, outs, sv) = storage_loop jparse dump evs sv in (e, out @ outs, sv)))"

definition storage_main ::
  "(bytes \<Rightarrow> json option) \<Rightarrow> (json \<Rightarrow> string) \<Rightarrow> environment \<Rightarrow> (nat \<Rightarrow> bool) \<Rightarrow> bool \<Rightarrow> fs \<Rightarrow>
   storage_event list \<Rightarrow> ending \<times> string list \<times> storage_service option" where
  "storage_main jparse dump env conn_ok sub_ok s evs =
     (case storage_start env conn_ok sub_ok s of
        Inl e \<Rightarrow> (e, [], None)
      | Inr sv \<Rightarrow> (let (e, outs, sv) = storage_loop jparse dump evs sv in (e, outs, Some sv)))"

section \<open>Objects of the archive\<close>

text \<open>
  What leaves the object with the given base path and day in place: a message stored
  elsewhere, without a lost flush, and a purge with the day inside its window.
\<close>

fun leaves_object ::
  "(bytes \<Rightarrow> json option) \<Rightarrow> (json \<Rightarrow> string) \<Rightarrow> int \<Rightarrow> string \<Rightarrow> int \<Rightarrow> storage_event \<Rightarrow> bool" where
  "leaves_object jparse dump days base day (Deliver io now payload) =
     (close_fails io = None \<and>
      (case payload of
         None \<Rightarrow> True
       | Some data \<Rightarrow> (case ArchiveHandler_parse jparse dump data of
             Inr (Some msg) \<Rightarrow> base_path now msg \<noteq> base
           | _ \<Rightarrow> True)))"
| "leaves_object jparse dump days base day (Cycle rm iter now) =
     (cutoff_in_range now days \<and> now div 86400 - days \<le> day)"
| "leaves_object jparse dump days base day GetAlive = True"
| "leaves_object jparse dump days base day (GetReady conn) = True"

lemma object_ext_cases:
  assumes "ext = ''.jpg'' \<or> ext = ''.meta.json''" "base \<noteq> base'"
  shows "base @ ext \<noteq> base' @ ''.jpg''" "base @ ext \<noteq> base' @ ''.meta.json''"
proof -
  have "rev (base @ ''.jpg'') \<noteq> rev (base' @ ''.meta.json'')" "rev (base @ ''.meta.json'') \<noteq> rev (base' @ ''.jpg'')"
    by simp_all
  with assms show "base @ ext \<noteq> base' @ ''.jpg''" "base @ ext \<noteq> base' @ ''.meta.json''"
    by (metis append_same_eq)+
qed

lemma object_ext_ok: "ext = ''.jpg'' \<or> ext = ''.meta.json'' \<Longrightarrow> ok_path (base_path now msg @ ext)"
  using object_paths_ok by auto

lemma raw_resolved: "resolve (LocalStore_abs rt ''raw'') = resolve rt @ [''raw'']"
proof -
  have "ok_path ''raw''"
    by (auto simp: ok_path_def plain_def split_path_single append_eq_Cons_conv Cons_eq_append_conv)
  then show ?thesis by (simp add: resolve_abs split_path_single)
qed

lemma deliver_keeps:
  assumes "nats_archive_cb (put io) jparse dump now payload h = Inr h'"
    and "leaves_object jparse dump days (base_path t msg) day (Deliver io now payload)"
    and "ext = ''.jpg'' \<or> ext = ''.meta.json''"
  shows "store_get (store h') (base_path t msg @ ext) = store_get (store h) (base_path t msg @ ext)"
proof -
  have "store_get (snd (ArchiveHandler_write (put io) now m (store h))) (base_path t msg @ ext) =
      store_get (store h) (base_path t msg @ ext)" if "base_path now m \<noteq> base_path t msg" for m
    using that assms(2) object_ext_cases [OF assms(3), of "base_path t msg" "base_path now m"]
    by (intro local_store.write_frame) (auto simp: object_paths_ok object_ext_ok [OF assms(3)])
  with assms(1,2) show ?thesis
    by (force simp: nats_archive_cb_def handle_message_def Let_def
        split: option.splits if_splits sum.splits prod.splits)
qed

lemma cycle_keeps:
  assumes "purge_once rm iter now p st = (r, st')"
    and "parse_date (extract_date t (timestamp msg)) = Some x" "tm_valid x"
    and "cutoff_in_range now (raw_days p)" "now div 86400 - raw_days p \<le> tm_day x"
    and "ext = ''.jpg'' \<or> ext = ''.meta.json''"
  shows "store_get st' (base_path t msg @ ext) = store_get st (base_path t msg @ ext)"
proof (rule ccontr)
  let ?q = "resolve (root st) @ split_path (base_path t msg @ ext)"
  have rt: "root st' = root st"
    using assms(1) by (auto simp: purge_once_def Let_def split: if_splits prod.splits)
  have q: "?q = (resolve (root st) @ [''raw'']) @ extract_date t (timestamp msg) #
      [sanitize_path (device_id msg), sanitize_path (frame_id msg) @ ext]"
    using assms(6) base_path_split [of ext t msg] by (auto simp: object_dirs_def)
  assume "store_get st' (base_path t msg @ ext) \<noteq> store_get st (base_path t msg @ ext)"
  then have "files (disk st') ?q \<noteq> files (disk st) ?q"
    by (simp add: store_get_def rt resolve_abs [OF object_ext_ok [OF assms(6)]])
  from purge_once_only [OF assms(1) this] obtain name where
    "below ((resolve (root st) @ [''raw'']) @ [name]) ?q" "name < cutoff_date now (raw_days p)"
    by (auto simp: raw_resolved)
  with q have "extract_date t (timestamp msg) < cutoff_date now (raw_days p)"
    by (simp add: below_def)
  with name_before_cutoff [OF assms(2,3,4)] assms(5) show False by simp
qed

lemma storage_step_keeps:
  assumes "storage_step jparse dump ev sv = Inr (out, sv')"
    and "leaves_object jparse dump (raw_days (sv_purger sv)) (base_path t msg) (tm_day x) ev"
    and "parse_date (extract_date t (timestamp msg)) = Some x" "tm_valid x"
    and "ext = ''.jpg'' \<or> ext = ''.meta.json''"
  shows "sv_purger sv' = sv_purger sv"
    and "store_get (store (sv_handler sv')) (base_path t msg @ ext) =
      store_get (store (sv_handler sv)) (base_path t msg @ ext)"
proof -
  show "sv_purger sv' = sv_purger sv"
    using assms(1) by (cases ev) (auto simp: Let_def split: sum.splits prod.splits)
  show "store_get (store (sv_handler sv')) (base_path t msg @ ext) =
      store_get (store (sv_handler sv)) (base_path t msg @ ext)"
  proof (cases ev)
    case (Deliver io now payload)
    with assms(1) obtain h where "nats_archive_cb (put io) jparse dump now payload (sv_handler sv) = Inr h"
      "sv' = sv\<lparr>sv_handler := h\<rparr>" by (auto split: sum.splits)
    with deliver_keeps [OF _ assms(2) [unfolded Deliver] assms(5)] show ?thesis by simp
  next
    case (Cycle rm iter now)
    obtain r st where p: "purge_once rm iter now (sv_purger sv) (store (sv_handler sv)) = (r, st)" by fastforce
    with assms(1) Cycle have "store (sv_handler sv') = st" by auto
    with cycle_keeps [OF p assms(3,4) _ _ assms(5)] assms(2) Cycle show ?thesis by simp
  qed (use assms(1) in auto)
qed

lemma storage_loop_keeps:
  assumes "storage_loop jparse dump evs sv = (e, outs, sv')"
    and "\<forall>ev \<in> set evs. leaves_object jparse dump (raw_days (sv_purger sv)) (base_path t msg) (tm_day x) ev"
    and "parse_date (extract_date t (timestamp msg)) = Some x" "tm_valid x"
    and "ext = ''.jpg'' \<or> ext = ''.meta.json''"
  shows "store_get (store (sv_handler sv')) (base_path t msg @ ext) =
      store_get (store (sv_handler sv)) (base_path t msg @ ext)"
  using assms(1,2)
proof (induction evs arbitrary: sv e outs)
  case (Cons ev evs)
  show ?case
  proof (cases "storage_step jparse dump ev sv")
    case (Inl x)
    with Cons.prems show ?thesis by simp
  next
    case (Inr r)
    obtain out sv1 where r: "r = (out, sv1)" by (cases r)
    note step = storage_step_keeps [OF Inr [unfolded r] _ assms(3,4,5)]
    from Cons.prems Inr r obtain outs' where "storage_loop jparse dump evs sv1 = (e, outs', sv')"
      by (auto split: prod.splits)
    from Cons.IH [OF this] Cons.prems(2) step show ?thesis by simp
  qed
qed simp

lemma storage_loop_append:
  "storage_loop jparse dump (evs1 @ evs2) sv =
     (case storage_loop jparse dump evs1 sv of
        (ExitCode c, outs1, sv1) \<Rightarrow>
          (let (e, outs2, sv2) = storage_loop jparse dump evs2 sv1 in (e, outs1 @ outs2, sv2))
      | (e, outs1, sv1) \<Rightarrow> (e, outs1, sv1))"
  by (induction evs1 arbitrary: sv) (auto simp: Let_def split: sum.splits prod.splits ending.splits)

lemma storage_loop_purger:
  "storage_loop jparse dump evs sv = (e, outs, sv') \<Longrightarrow> sv_purger sv' = sv_purger sv"
proof (induction evs arbitrary: sv e outs)
  case (Cons ev evs)
  have "sv_purger sv1 = sv_purger sv" if "storage_step jparse dump ev sv = Inr (out, sv1)" for out sv1
    using that by (cases ev) (auto simp: Let_def split: sum.splits prod.splits)
  with Cons show ?case by (fastforce split: sum.splits prod.splits)
qed simp

lemma deliver_stores:
  assumes "nats_archive_cb (put io) jparse dump now (Some data) h = Inr h'"
    and "ArchiveHandler_parse jparse dump data = Inr (Some msg)" "close_fails io = None"
    and "archived h' \<noteq> archived h"
  shows "store_get (store h') (base_path now msg @ ''.meta.json'') = Some (bytes_of_string (metadata_json msg))"
    and "has_jpeg msg \<Longrightarrow> store_get (store h') (base_path now msg @ ''.jpg'') = Some (jpeg msg)"
proof -
  have w: "ArchiveHandler_write (put io) now msg (store h) = (True, store h')"
    using assms by (auto simp: nats_archive_cb_def handle_message_def split: if_splits prod.splits)
  note ok = local_store.write_success [OF _ _ w]
  show "store_get (store h') (base_path now msg @ ''.meta.json'') = Some (bytes_of_string (metadata_json msg))"
    and "has_jpeg msg \<Longrightarrow> store_get (store h') (base_path now msg @ ''.jpg'') = Some (jpeg msg)"
    using ok object_paths_ok assms(3) by auto
qed

lemma storage_start_purger:
  "storage_start env conn_ok sub_ok s = Inr sv \<Longrightarrow>
     sv_purger sv = \<lparr>raw_days = sc_retention_raw_days (StorageConfig_from_env env)\<rparr>"
  by (auto simp: storage_start_def Let_def split: sum.splits if_splits)

lemma storage_main_started:
  "storage_start env conn_ok sub_ok s = Inr sv0 \<Longrightarrow>
     \<exists>e outs sv. storage_main jparse dump env conn_ok sub_ok s evs = (e, outs, Some sv)"
  by (cases "storage_loop jparse dump evs sv0") (simp add: storage_main_def)

section \<open>Properties of the storage service\<close>

text \<open>
  C7. An archived message is kept for the whole retention period: in a run of the service from
  its start, with any events before, let a delivery be counted as archived. If its day is a
  calendar date, no later message has the same date, device and frame, no final flush is lost and every later purge
  falls within the configured number of days after that day, then, whatever else happens
  (failing system calls, failing removals, messages that end the process), the metadata and
  the image of the message are on the disk at the end, byte for byte.
\<close>

theorem storage_retains_archived:
  assumes "storage_start env conn_ok sub_ok s = Inr sv0"
    and "storage_loop jparse dump evs1 sv0 = (ExitCode 0, outs1, sv1)"
    and "storage_step jparse dump (Deliver io t (Some data)) sv1 = Inr (out, sv2)"
    and "ArchiveHandler_parse jparse dump data = Inr (Some msg)" and "close_fails io = None"
    and "archived (sv_handler sv2) \<noteq> archived (sv_handler sv1)"
    and "parse_date (extract_date t (timestamp msg)) = Some x" and "tm_valid x"
    and "\<forall>ev \<in> set evs2. leaves_object jparse dump (sc_retention_raw_days (StorageConfig_from_env env))
           (base_path t msg) (tm_day x) ev"
    and "storage_main jparse dump env conn_ok sub_ok s (evs1 @ Deliver io t (Some data) # evs2) = (e, outs, Some sv)"
  shows "store_get (store (sv_handler sv)) (base_path t msg @ ''.meta.json'') =
           Some (bytes_of_string (metadata_json msg)) \<and>
         (has_jpeg msg \<longrightarrow> store_get (store (sv_handler sv)) (base_path t msg @ ''.jpg'') = Some (jpeg msg))"
proof -
  from assms(3) have cb: "nats_archive_cb (put io) jparse dump t (Some data) (sv_handler sv1) = Inr (sv_handler sv2)"
    and p2: "sv_purger sv2 = sv_purger sv1" by (auto split: sum.splits)
  from assms(1,2,3,10) obtain outs2 where l2: "storage_loop jparse dump evs2 sv2 = (e, outs2, sv)"
    by (auto simp: storage_main_def storage_loop_append split: prod.splits)
  have days: "raw_days (sv_purger sv2) = sc_retention_raw_days (StorageConfig_from_env env)"
    using p2 storage_loop_purger [OF assms(2)] storage_start_purger [OF assms(1)] by simp
  note kept = storage_loop_keeps [OF l2 assms(9) [folded days] assms(7,8)]
  from kept [of "''.meta.json''"] kept [of "''.jpg''"] deliver_stores [OF cb assms(4,5,6)] show ?thesis by simp
qed

text \<open>A frame of 1 January 1971, thirty days of retention, and a purge on 16 January.\<close>

definition sample_env :: environment where
  "sample_env = [''EYED_RETENTION_RAW_DAYS'' \<mapsto> ''30'']"

definition sample_frame_msg :: json where
  "sample_frame_msg = JObj [(''frame_id'', JStr ''f1''), (''device_id'', JStr ''cam''),
     (''timestamp'', JStr ''1971-01-01T00:00:00Z''), (''raw_jpeg_b64'', JStr ''QUI='')]"

definition sample_frame_parsed :: ParsedMessage where
  "sample_frame_parsed = \<lparr>frame_id = ''f1'', device_id = ''cam'', timestamp = ''1971-01-01T00:00:00Z'',
     jpeg = [65, 66], has_jpeg = True, metadata_json = ''m''\<rparr>"

definition sample_purge :: storage_event where
  "sample_purge = Cycle (\<lambda>_. None) sample_iter 32832000"

lemma sample_frame_parse:
  "ArchiveHandler_parse (\<lambda>_. Some sample_frame_msg) (\<lambda>_. ''m'') data = Inr (Some sample_frame_parsed)"
  by (simp add: ArchiveHandler_parse_def sample_frame_msg_def sample_frame_parsed_def jvalue_str_def parse_jpeg_def
      Let_def base64_decode_def kBase64Table_eq)

lemma sample_frame_date: "extract_date t (timestamp sample_frame_parsed) = ''1971-01-01''"
  by (simp add: sample_frame_parsed_def extract_date_def date_shape_def is_digit_def substr_def decimal_value_def
      digit_val_def)

lemma sample_frame_base: "base_path t sample_frame_parsed = ''raw/1971-01-01/cam/f1''"
  by (simp add: base_path_def sample_frame_date)
     (simp add: sample_frame_parsed_def sanitize_path_def unsafe_char_def)

lemma sample_days: "sc_retention_raw_days (StorageConfig_from_env sample_env) = 30"
  by (simp add: StorageConfig_from_env_def sample_env_def env_days_def atoi_def is_space_def decimal_value_def
      is_digit_def digit_val_def)

lemma sample_purge_leaves:
  "leaves_object jparse dump 30 base (tm_day sample_tm) sample_purge"
  by (simp add: sample_purge_def sample_day cutoff_in_range_def gmtime_def civil_from_days_def civil_year.simps
      year_length_def leap_def Let_def split: prod.split)

lemma sample_start:
  "\<exists>sv. storage_start sample_env (\<lambda>_. True) True \<lparr>files = Map.empty, dirs = {[]}\<rparr> = Inr sv \<and>
     store (sv_handler sv) = \<lparr>root = ''/data/archive'',
       disk = \<lparr>files = Map.empty, dirs = {[], [''data''], [''data'', ''archive'']}\<rparr>\<rparr> \<and> archived (sv_handler sv) = 0"
  by (simp add: storage_start_def StorageConfig_from_env_def sample_env_def env_text_def LocalStore_new_def
      create_directories_def resolve_def storage_connect_nats_def numeral_eq_Suc stoi_def atoi_def is_space_def
      decimal_value_def is_digit_def digit_val_def Let_def insert_commute)

lemma sample_delivered:
  assumes "store (sv_handler sv) = \<lparr>root = ''/data/archive'',
       disk = \<lparr>files = Map.empty, dirs = {[], [''data''], [''data'', ''archive'']}\<rparr>\<rparr>" "archived (sv_handler sv) = 0"
  shows "\<exists>sv2. storage_step (\<lambda>_. Some sample_frame_msg) (\<lambda>_. ''m'') (Deliver io_ok 0 (Some [0])) sv = Inr ([], sv2) \<and>
     archived (sv_handler sv2) = 1"
  by (simp add: assms nats_archive_cb_def handle_message_def sample_frame_parse ArchiveHandler_write_def sample_frame_base
      put_def put_trace_def create_directories_def fs_rename_def LocalStore_abs_def resolve_def resolve_parent_def
      io_ok_def Let_def)

theorem storage_retains_archived_witness:
  "\<exists>e outs sv. storage_main (\<lambda>_. Some sample_frame_msg) (\<lambda>_. ''m'') sample_env (\<lambda>_. True) True
       \<lparr>files = Map.empty, dirs = {[]}\<rparr> [Deliver io_ok 0 (Some [0]), sample_purge] = (e, outs, Some sv) \<and>
     store_get (store (sv_handler sv)) ''raw/1971-01-01/cam/f1.jpg'' = Some [65, 66]"
proof -
  let ?s = "\<lparr>files = Map.empty, dirs = {[]}\<rparr> :: fs" and ?jp = "\<lambda>_. Some sample_frame_msg" and ?d = "\<lambda>_. ''m''"
  obtain sv0 where s0: "storage_start sample_env (\<lambda>_. True) True ?s = Inr sv0"
    and st: "store (sv_handler sv0) = \<lparr>root = ''/data/archive'',
       disk = \<lparr>files = Map.empty, dirs = {[], [''data''], [''data'', ''archive'']}\<rparr>\<rparr>" "archived (sv_handler sv0) = 0"
    using sample_start by blast
  obtain sv2 where s2: "storage_step ?jp ?d (Deliver io_ok 0 (Some [0])) sv0 = Inr ([], sv2)"
    and a2: "archived (sv_handler sv2) \<noteq> archived (sv_handler sv0)"
    using sample_delivered [OF st] st(2) by force
  obtain e outs sv where r: "storage_main ?jp ?d sample_env (\<lambda>_. True) True ?s
      ([] @ Deliver io_ok 0 (Some [0]) # [sample_purge]) = (e, outs, Some sv)"
    using storage_main_started [OF s0] by blast
  have "store_get (store (sv_handler sv)) (base_path 0 sample_frame_parsed @ ''.jpg'') = Some (jpeg sample_frame_parsed)"
    using storage_retains_archived [OF s0 _ s2 sample_frame_parse _ a2 _ sample_day(1) _ r] sample_date
      sample_purge_leaves
    by (simp add: sample_frame_date sample_days io_ok_def) (simp add: sample_frame_parsed_def)
  with r show ?thesis by (simp add: sample_frame_base) (simp add: sample_frame_parsed_def)
qed

end
