(* ===== verification/Ring_Buffer.thy ===== *)
theory Ring_Buffer
  imports EyeD_Prelude
begin

text \<open>
  The single-producer single-consumer ring buffer of the capture device
  (\<^verbatim>\<open>capture/src/ring_buffer.h\<close>), for any capacity \<open>N = 2^k\<close>: its two operations, their
  refinement of a bounded queue, and the two threads' interleavings of the atomic accesses the
  operations make. The release stores and acquire loads order the slot accesses around them,
  so the interleavings of the accesses are the executions.
\<close>

section \<open>The buffer\<close>

record 'a RingBuffer =
  slots :: "'a list"
  head_pos :: nat
  tail_pos :: nat

definition MASK :: "nat \<Rightarrow> nat" where
  "MASK k = 2 ^ k - 1"

definition RingBuffer_init :: "nat \<Rightarrow> 'a \<Rightarrow> 'a RingBuffer" where
  "RingBuffer_init k d = \<lparr>slots = replicate (2 ^ k) d, head_pos = 0, tail_pos = 0\<rparr>"

definition try_push :: "nat \<Rightarrow> 'a \<Rightarrow> 'a RingBuffer \<Rightarrow> bool \<times> 'a RingBuffer" where
  "try_push k value b =
     (let h = head_pos b; nxt = (h + 1) AND MASK k in
      if nxt = tail_pos b then (False, b)
      else (True, b\<lparr>slots := (slots b)[h := value], head_pos := nxt\<rparr>))"

definition try_pop :: "nat \<Rightarrow> 'a RingBuffer \<Rightarrow> 'a option \<times> 'a RingBuffer" where
  "try_pop k b =
     (let t = tail_pos b in
      if t = head_pos b then (None, b)
      else (Some (slots b ! t), b\<lparr>tail_pos := (t + 1) AND MASK k\<rparr>))"

section \<open>The two threads\<close>

text \<open>
  Where each thread is inside its operation, with the local values it holds; \<open>pushed\<close> and
  \<open>popped\<close> record the values whose push or pop has committed.
\<close>

datatype 'a producer = PIdle | PLoaded 'a nat | PChecked 'a nat | PWritten 'a nat
datatype 'a consumer = CIdle | CLoaded nat | CChecked nat | CTaken nat 'a

record 'a ring_state =
  buf :: "'a RingBuffer"
  producer :: "'a producer"
  consumer :: "'a consumer"
  pushed :: "'a list"
  popped :: "'a list"

inductive ring_step :: "nat \<Rightarrow> 'a ring_state \<Rightarrow> 'a ring_state \<Rightarrow> bool" for k where
  p_load: "producer s = PIdle \<Longrightarrow> ring_step k s (s\<lparr>producer := PLoaded v (head_pos (buf s))\<rparr>)"
| p_full: "producer s = PLoaded v h \<Longrightarrow> (h + 1) AND MASK k = tail_pos (buf s) \<Longrightarrow>
    ring_step k s (s\<lparr>producer := PIdle\<rparr>)"
| p_room: "producer s = PLoaded v h \<Longrightarrow> (h + 1) AND MASK k \<noteq> tail_pos (buf s) \<Longrightarrow>
    ring_step k s (s\<lparr>producer := PChecked v h\<rparr>)"
| p_write: "producer s = PChecked v h \<Longrightarrow>
    ring_step k s (s\<lparr>buf := (buf s)\<lparr>slots := (slots (buf s))[h := v]\<rparr>, producer := PWritten v h\<rparr>)"
| p_commit: "producer s = PWritten v h \<Longrightarrow>
    ring_step k s (s\<lparr>buf := (buf s)\<lparr>head_pos := (h + 1) AND MASK k\<rparr>, producer := PIdle, pushed := pushed s @ [v]\<rparr>)"
| c_load: "consumer s = CIdle \<Longrightarrow> ring_step k s (s\<lparr>consumer := CLoaded (tail_pos (buf s))\<rparr>)"
| c_empty: "consumer s = CLoaded t \<Longrightarrow> t = head_pos (buf s) \<Longrightarrow> ring_step k s (s\<lparr>consumer := CIdle\<rparr>)"
| c_some: "consumer s = CLoaded t \<Longrightarrow> t \<noteq> head_pos (buf s) \<Longrightarrow> ring_step k s (s\<lparr>consumer := CChecked t\<rparr>)"
| c_take: "consumer s = CChecked t \<Longrightarrow>
    ring_step k s (s\<lparr>consumer := CTaken t (slots (buf s) ! t)\<rparr>)"
| c_commit: "consumer s = CTaken t v \<Longrightarrow>
    ring_step k s (s\<lparr>buf := (buf s)\<lparr>tail_pos := (t + 1) AND MASK k\<rparr>, consumer := CIdle, popped := popped s @ [v]\<rparr>)"

inductive ring_reachable :: "nat \<Rightarrow> 'a \<Rightarrow> 'a ring_state \<Rightarrow> bool" for k d where
  init: "ring_reachable k d
    \<lparr>buf = RingBuffer_init k d, producer = PIdle, consumer = CIdle, pushed = [], popped = []\<rparr>"
| step: "ring_reachable k d s \<Longrightarrow> ring_step k s s' \<Longrightarrow> ring_reachable k d s'"

section \<open>Contents\<close>

lemma and_MASK: "n AND MASK k = n mod 2 ^ k"
  by (simp only: MASK_def take_bit_eq_mod [symmetric] take_bit_eq_mask mask_eq_exp_minus_1)

definition ring_count :: "nat \<Rightarrow> 'a RingBuffer \<Rightarrow> nat" where
  "ring_count k b = (head_pos b + 2 ^ k - tail_pos b) mod 2 ^ k"

text \<open>The values between the tail and the head, oldest first: what the buffer stands for.\<close>

definition contents :: "nat \<Rightarrow> 'a RingBuffer \<Rightarrow> 'a list" where
  "contents k b = map (\<lambda>i. slots b ! ((tail_pos b + i) mod 2 ^ k)) [0..<ring_count k b]"

definition ring_inv :: "nat \<Rightarrow> 'a RingBuffer \<Rightarrow> bool" where
  "ring_inv k b = (length (slots b) = 2 ^ k \<and> head_pos b < 2 ^ k \<and> tail_pos b < 2 ^ k)"

lemma count_less: "ring_count k b < 2 ^ k"
  by (simp add: ring_count_def)

lemma length_contents [simp]: "length (contents k b) = ring_count k b"
  by (simp add: contents_def)

lemma head_from_tail:
  assumes "ring_inv k b"
  shows "head_pos b = (tail_pos b + ring_count k b) mod 2 ^ k"
proof -
  have "(tail_pos b + ring_count k b) mod 2 ^ k = (tail_pos b + (head_pos b + 2 ^ k - tail_pos b)) mod 2 ^ k"
    by (simp add: ring_count_def mod_add_right_eq)
  also have "\<dots> = (head_pos b + 2 ^ k) mod 2 ^ k" using assms by (simp add: ring_inv_def)
  also have "\<dots> = head_pos b" using assms by (simp add: ring_inv_def)
  finally show ?thesis by simp
qed

lemma mod_offset_inject:
  fixes t i j n :: nat
  assumes "i < n" "j < n" "(t + i) mod n = (t + j) mod n"
  shows "i = j"
proof -
  have "int n dvd int (t + i) - int (t + j)"
    using assms(3) by (metis mod_eq_dvd_iff of_nat_mod)
  then have "int n dvd int i - int j" by simp
  then show ?thesis using dvd_imp_le_int [of "int i - int j" "int n"] assms(1,2) by fastforce
qed

lemma contents_pop:
  assumes "ring_inv k b" "0 < ring_count k b"
  shows "ring_count k (b\<lparr>tail_pos := (tail_pos b + 1) mod 2 ^ k\<rparr>) = ring_count k b - 1"
    and "contents k (b\<lparr>tail_pos := (tail_pos b + 1) mod 2 ^ k\<rparr>) = tl (contents k b)"
    and "hd (contents k b) = slots b ! tail_pos b"
proof -
  let ?b = "b\<lparr>tail_pos := (tail_pos b + 1) mod 2 ^ k\<rparr>"
  have inv: "ring_inv k ?b" using assms(1) by (simp add: ring_inv_def)
  have "(tail_pos b + (1 + ring_count k ?b)) mod 2 ^ k = head_pos b"
    using head_from_tail [OF inv] by (simp add: mod_add_left_eq flip: add.assoc)
  also have "\<dots> = (tail_pos b + ring_count k b) mod 2 ^ k" by (rule head_from_tail [OF assms(1)])
  finally have e: "(tail_pos b + (1 + ring_count k ?b)) mod 2 ^ k = (tail_pos b + ring_count k b) mod 2 ^ k" .
  show c: "ring_count k ?b = ring_count k b - 1"
  proof (cases "1 + ring_count k ?b < 2 ^ k")
    case True
    with mod_offset_inject [OF True count_less e] show ?thesis by simp
  next
    case False
    then have "1 + ring_count k ?b = 2 ^ k" using count_less [of k ?b] by simp
    then have "(tail_pos b + 2 ^ k) mod 2 ^ k = (tail_pos b + ring_count k b) mod 2 ^ k" using e by (simp only:)
    then have "(tail_pos b + 0) mod 2 ^ k = (tail_pos b + ring_count k b) mod 2 ^ k" by simp
    from mod_offset_inject [OF _ count_less this] assms(2) show ?thesis by simp
  qed
  obtain m where m: "ring_count k b = Suc m" using assms(2) by (cases "ring_count k b") auto
  have "[0..<Suc m] = 0 # map Suc [0..<m]" by (simp add: upt_conv_Cons map_Suc_upt)
  then show "contents k ?b = tl (contents k b)"
    unfolding contents_def c m by (simp add: mod_add_left_eq)
  show "hd (contents k b) = slots b ! tail_pos b"
    using assms by (simp add: contents_def hd_map ring_inv_def)
qed

lemma contents_push:
  assumes "ring_inv k b" "ring_count k b < 2 ^ k - 1"
  shows "contents k (b\<lparr>slots := (slots b)[head_pos b := v], head_pos := (head_pos b + 1) mod 2 ^ k\<rparr>) = contents k b @ [v]"
proof -
  let ?b = "b\<lparr>slots := (slots b)[head_pos b := v], head_pos := (head_pos b + 1) mod 2 ^ k\<rparr>"
  have inv: "ring_inv k ?b" using assms(1) by (simp add: ring_inv_def)
  have lt: "Suc (ring_count k b) < 2 ^ k" using assms(2) by simp
  have "(tail_pos b + ring_count k ?b) mod 2 ^ k = (head_pos b + 1) mod 2 ^ k"
    using head_from_tail [OF inv] by simp
  also have "\<dots> = (tail_pos b + Suc (ring_count k b)) mod 2 ^ k"
    using head_from_tail [OF assms(1)] by (simp add: mod_Suc_eq)
  finally have c: "ring_count k ?b = Suc (ring_count k b)"
    by (rule mod_offset_inject [OF count_less lt])
  have other: "(slots b)[head_pos b := v] ! ((tail_pos b + i) mod 2 ^ k) = slots b ! ((tail_pos b + i) mod 2 ^ k)"
    if "i < ring_count k b" for i
    using mod_offset_inject [of i "2 ^ k" "ring_count k b" "tail_pos b"] that lt head_from_tail [OF assms(1)]
    by (intro nth_list_update_neq) auto
  have "(slots b)[head_pos b := v] ! ((tail_pos b + ring_count k b) mod 2 ^ k) = v"
    using assms(1) head_from_tail [OF assms(1)] by (simp add: ring_inv_def)
  then show ?thesis
    unfolding contents_def c using other by simp
qed

section \<open>A bounded queue\<close>

text \<open>
  The contract of a bounded queue seen through an abstraction to lists: a push is refused
  exactly when the queue is full and otherwise appends, a pop returns the oldest value. What
  a client derives from it: any sequence of pushes and pops returns the accepted values in
  order.
\<close>

datatype 'a queue_op = QPush 'a | QPop

locale bounded_queue =
  fixes push :: "'a \<Rightarrow> 'q \<Rightarrow> bool \<times> 'q"
    and pop :: "'q \<Rightarrow> 'a option \<times> 'q"
    and elems :: "'q \<Rightarrow> 'a list"
    and wf :: "'q \<Rightarrow> bool"
    and capacity :: nat
  assumes push_full: "wf q \<Longrightarrow> length (elems q) = capacity \<Longrightarrow> push v q = (False, q)"
    and push_room: "wf q \<Longrightarrow> length (elems q) < capacity \<Longrightarrow>
      fst (push v q) \<and> wf (snd (push v q)) \<and> elems (snd (push v q)) = elems q @ [v]"
    and elems_bound: "wf q \<Longrightarrow> length (elems q) \<le> capacity"
    and pop_empty: "wf q \<Longrightarrow> elems q = [] \<Longrightarrow> pop q = (None, q)"
    and pop_some: "wf q \<Longrightarrow> elems q \<noteq> [] \<Longrightarrow>
      fst (pop q) = Some (hd (elems q)) \<and> wf (snd (pop q)) \<and> elems (snd (pop q)) = tl (elems q)"
begin

fun q_run :: "'a queue_op list \<Rightarrow> 'q \<Rightarrow> 'a list \<times> 'a list \<times> 'q" where
  "q_run [] q = ([], [], q)"
| "q_run (QPush v # ops) q =
     (let (ok, q) = push v q; (ins, outs, q) = q_run ops q in ((if ok then v # ins else ins), outs, q))"
| "q_run (QPop # ops) q =
     (let (r, q) = pop q; (ins, outs, q) = q_run ops q
      in (ins, (case r of None \<Rightarrow> outs | Some v \<Rightarrow> v # outs), q))"

lemma run_fifo:
  "wf q \<Longrightarrow> q_run ops q = (ins, outs, q') \<Longrightarrow> wf q' \<and> outs @ elems q' = elems q @ ins"
proof (induction ops q arbitrary: ins outs q' rule: q_run.induct)
  case (2 v ops q)
  obtain ok q1 where p: "push v q = (ok, q1)" by fastforce
  obtain ins1 outs1 where r: "q_run ops q1 = (ins1, outs1, q')"
    and io: "ins = (if ok then v # ins1 else ins1)" "outs = outs1"
    using "2.prems"(2) p by (auto split: prod.splits)
  have "wf q1 \<and> elems q1 = (if ok then elems q @ [v] else elems q)"
    using push_full [of q v] push_room [of q v] elems_bound [of q] "2.prems"(1) p
    by (cases "length (elems q) = capacity") auto
  with "2.IH" [OF p [symmetric], of ok q1 ins1 outs1 q'] r io show ?case by auto
next
  case (3 ops q)
  obtain r q1 where p: "pop q = (r, q1)" by fastforce
  obtain ins1 outs1 where s: "q_run ops q1 = (ins1, outs1, q')"
    and io: "ins = ins1" "outs = (case r of None \<Rightarrow> outs1 | Some v \<Rightarrow> v # outs1)"
    using "3.prems"(2) p by (auto split: prod.splits)
  have "wf q1 \<and> elems q = (case r of None \<Rightarrow> elems q1 | Some v \<Rightarrow> v # elems q1)"
    using pop_empty [of q] pop_some [of q] "3.prems"(1) p by (cases "elems q") auto
  with "3.IH" [OF p [symmetric], of r q1 ins1 outs1 q'] s io show ?case by (cases r) auto
qed simp

end

interpretation ring: bounded_queue "try_push k" "try_pop k" "contents k" "ring_inv k" "2 ^ k - 1" for k
proof
  fix q :: "'a RingBuffer" and v :: 'a
  assume inv: "ring_inv k q"
  note h = head_from_tail [OF inv]
  have full: "(head_pos q + 1) mod 2 ^ k = tail_pos q \<longleftrightarrow> ring_count k q = 2 ^ k - 1"
  proof -
    have "(head_pos q + 1) mod 2 ^ k = (tail_pos q + Suc (ring_count k q)) mod 2 ^ k"
      using h by (simp add: mod_Suc_eq)
    moreover have "tail_pos q = (tail_pos q + 0) mod 2 ^ k" using inv by (simp add: ring_inv_def)
    ultimately show ?thesis
      using mod_offset_inject [of "Suc (ring_count k q)" "2 ^ k" 0 "tail_pos q"] count_less [of k q] inv
      by (cases "Suc (ring_count k q) = 2 ^ k") (auto simp: ring_inv_def)
  qed
  have empty: "tail_pos q = head_pos q \<longleftrightarrow> ring_count k q = 0"
    using h inv mod_offset_inject [of 0 "2 ^ k" "ring_count k q" "tail_pos q"] count_less [of k q]
    by (auto simp: ring_inv_def)
  show "length (contents k q) \<le> 2 ^ k - 1" using count_less [of k q] by simp
  show "try_push k v q = (False, q)" if "length (contents k q) = 2 ^ k - 1"
    using that full by (simp add: try_push_def and_MASK)
  show "fst (try_push k v q) \<and> ring_inv k (snd (try_push k v q)) \<and> contents k (snd (try_push k v q)) = contents k q @ [v]"
    if "length (contents k q) < 2 ^ k - 1"
  proof -
    have "try_push k v q = (True, q\<lparr>slots := (slots q)[head_pos q := v], head_pos := (head_pos q + 1) mod 2 ^ k\<rparr>)"
      using that full by (simp add: try_push_def and_MASK Let_def)
    moreover have "ring_inv k (q\<lparr>slots := (slots q)[head_pos q := v], head_pos := (head_pos q + 1) mod 2 ^ k\<rparr>)"
      using inv by (simp add: ring_inv_def)
    ultimately show ?thesis using contents_push [OF inv] that by simp
  qed
  show "try_pop k q = (None, q)" if "contents k q = []"
  proof -
    from that have "ring_count k q = 0" by (simp flip: length_contents)
    then show ?thesis using empty by (simp add: try_pop_def)
  qed
  show "fst (try_pop k q) = Some (hd (contents k q)) \<and> ring_inv k (snd (try_pop k q)) \<and>
      contents k (snd (try_pop k q)) = tl (contents k q)" if "contents k q \<noteq> []"
  proof -
    from that have c: "0 < ring_count k q" by (metis length_contents length_greater_0_conv)
    have "try_pop k q = (Some (slots q ! tail_pos q), q\<lparr>tail_pos := (tail_pos q + 1) mod 2 ^ k\<rparr>)"
      using empty c by (simp add: try_pop_def and_MASK Let_def)
    moreover have "ring_inv k (q\<lparr>tail_pos := (tail_pos q + 1) mod 2 ^ k\<rparr>)" using inv by (simp add: ring_inv_def)
    ultimately show ?thesis using contents_pop(2,3) [OF inv c] by simp
  qed
qed

section \<open>Interleavings\<close>

text \<open>
  The invariant of the two threads. The producer's head is its own, the consumer's tail is its
  own; once the producer has seen room, there is room until it commits, because the consumer
  only makes more; once the consumer has seen a value, it stays until it commits.
\<close>

fun producer_ok :: "nat \<Rightarrow> 'a RingBuffer \<Rightarrow> 'a producer \<Rightarrow> bool" where
  "producer_ok k b PIdle = True"
| "producer_ok k b (PLoaded v h) = (h = head_pos b)"
| "producer_ok k b (PChecked v h) = (h = head_pos b \<and> ring_count k b < 2 ^ k - 1)"
| "producer_ok k b (PWritten v h) = (h = head_pos b \<and> ring_count k b < 2 ^ k - 1 \<and> slots b ! h = v)"

fun consumer_ok :: "nat \<Rightarrow> 'a RingBuffer \<Rightarrow> 'a consumer \<Rightarrow> bool" where
  "consumer_ok k b CIdle = True"
| "consumer_ok k b (CLoaded t) = (t = tail_pos b)"
| "consumer_ok k b (CChecked t) = (t = tail_pos b \<and> 0 < ring_count k b)"
| "consumer_ok k b (CTaken t v) = (t = tail_pos b \<and> 0 < ring_count k b \<and> v = slots b ! t)"

definition ring_threads_inv :: "nat \<Rightarrow> 'a ring_state \<Rightarrow> bool" where
  "ring_threads_inv k s =
     (ring_inv k (buf s) \<and> pushed s = popped s @ contents k (buf s) \<and>
      producer_ok k (buf s) (producer s) \<and> consumer_ok k (buf s) (consumer s))"

lemma head_tail_count:
  assumes "ring_inv k b"
  shows "tail_pos b = head_pos b \<longleftrightarrow> ring_count k b = 0"
    and "(head_pos b + 1) mod 2 ^ k = tail_pos b \<longleftrightarrow> ring_count k b = 2 ^ k - 1"
proof -
  note h = head_from_tail [OF assms]
  have t: "tail_pos b = (tail_pos b + 0) mod 2 ^ k" using assms by (simp add: ring_inv_def)
  show "tail_pos b = head_pos b \<longleftrightarrow> ring_count k b = 0"
    using h t mod_offset_inject [of 0 "2 ^ k" "ring_count k b" "tail_pos b"] count_less [of k b] by auto
  have "(head_pos b + 1) mod 2 ^ k = (tail_pos b + Suc (ring_count k b)) mod 2 ^ k"
    using h by (simp add: mod_Suc_eq)
  then show "(head_pos b + 1) mod 2 ^ k = tail_pos b \<longleftrightarrow> ring_count k b = 2 ^ k - 1"
    using mod_offset_inject [of "Suc (ring_count k b)" "2 ^ k" 0 "tail_pos b"] count_less [of k b] t assms
    by (cases "Suc (ring_count k b) = 2 ^ k") (auto simp: ring_inv_def)
qed

text \<open>Writing the free slot at the head changes no stored value.\<close>

lemma write_head:
  assumes "ring_inv k b"
  shows "ring_count k (b\<lparr>slots := (slots b)[head_pos b := v]\<rparr>) = ring_count k b"
    and "contents k (b\<lparr>slots := (slots b)[head_pos b := v]\<rparr>) = contents k b"
    and "0 < ring_count k b \<Longrightarrow> (slots b)[head_pos b := v] ! tail_pos b = slots b ! tail_pos b"
proof -
  show c: "ring_count k (b\<lparr>slots := (slots b)[head_pos b := v]\<rparr>) = ring_count k b"
    by (simp add: ring_count_def)
  have "(slots b)[head_pos b := v] ! ((tail_pos b + i) mod 2 ^ k) = slots b ! ((tail_pos b + i) mod 2 ^ k)"
    if "i < ring_count k b" for i
    using mod_offset_inject [of i "2 ^ k" "ring_count k b" "tail_pos b"] that count_less [of k b] head_from_tail [OF assms]
    by (intro nth_list_update_neq) auto
  then show "contents k (b\<lparr>slots := (slots b)[head_pos b := v]\<rparr>) = contents k b"
    unfolding contents_def c by simp
  show "(slots b)[head_pos b := v] ! tail_pos b = slots b ! tail_pos b" if "0 < ring_count k b"
    using that head_tail_count(1) [OF assms] by (intro nth_list_update_neq) auto
qed

lemma move_head:
  assumes "ring_inv k b" "ring_count k b < 2 ^ k - 1" "slots b ! head_pos b = v"
  shows "contents k (b\<lparr>head_pos := (head_pos b + 1) mod 2 ^ k\<rparr>) = contents k b @ [v]"
proof -
  have "(slots b)[head_pos b := v] = slots b" using assms(3) by (metis list_update_id)
  then have "b\<lparr>slots := (slots b)[head_pos b := v], head_pos := (head_pos b + 1) mod 2 ^ k\<rparr> =
      b\<lparr>head_pos := (head_pos b + 1) mod 2 ^ k\<rparr>"
    by (cases b) simp
  with contents_push [OF assms(1,2), of v] show ?thesis by simp
qed

lemma ring_step_inv:
  assumes "ring_step k s s'" "ring_threads_inv k s"
  shows "ring_threads_inv k s'"
  using assms
proof cases
  case (p_commit v h)
  with assms(2) have "ring_inv k (buf s)" "ring_count k (buf s) < 2 ^ k - 1" "slots (buf s) ! head_pos (buf s) = v"
    "h = head_pos (buf s)"
    by (auto simp: ring_threads_inv_def)
  note c = move_head [OF this(1-3)] and this
  have "ring_count k ((buf s)\<lparr>head_pos := (head_pos (buf s) + 1) mod 2 ^ k\<rparr>) = Suc (ring_count k (buf s))"
    using arg_cong [OF c(1), of length] by simp
  with p_commit assms(2) c show ?thesis
    by (cases "consumer s") (auto simp: ring_threads_inv_def ring_inv_def and_MASK)
next
  case (c_commit t v)
  with assms(2) have i: "ring_inv k (buf s)" "0 < ring_count k (buf s)" "t = tail_pos (buf s)"
    and v: "v = slots (buf s) ! tail_pos (buf s)"
    by (auto simp: ring_threads_inv_def)
  note c = contents_pop [OF i(1,2)]
  have "contents k (buf s) = v # tl (contents k (buf s))"
    using c(3) v i(2) by (metis length_contents length_greater_0_conv list.collapse)
  with c_commit assms(2) c i show ?thesis
    by (cases "producer s") (auto simp: ring_threads_inv_def ring_inv_def and_MASK)
next
  case (p_room v h)
  with assms(2) have "ring_inv k (buf s)" "h = head_pos (buf s)" by (simp_all add: ring_threads_inv_def)
  with head_tail_count(2) [of k "buf s"] count_less [of k "buf s"] p_room
  have "ring_count k (buf s) < 2 ^ k - 1" by (simp add: and_MASK)
  with p_room assms(2) show ?thesis by (simp add: ring_threads_inv_def)
next
  case (p_write v h)
  with assms(2) have "ring_inv k (buf s)" "h = head_pos (buf s)" by (simp_all add: ring_threads_inv_def)
  note w = write_head [OF this(1), of v] and this
  from p_write assms(2) w show ?thesis
    by (cases "consumer s") (simp_all add: ring_threads_inv_def ring_inv_def)
next
  case (c_some t)
  with assms(2) head_tail_count(1) [of k "buf s"] show ?thesis by (simp add: ring_threads_inv_def)
qed (simp_all add: ring_threads_inv_def)

lemma ring_reachable_inv: "ring_reachable k d s \<Longrightarrow> ring_threads_inv k s"
proof (induction rule: ring_reachable.induct)
  case init
  show ?case
    by (simp add: ring_threads_inv_def ring_inv_def RingBuffer_init_def contents_def ring_count_def)
next
  case (step s s')
  then show ?case using ring_step_inv by blast
qed

section \<open>Properties of the ring buffer\<close>

text \<open>
  C9. The ring buffer of \<open>2^k\<close> slots is a FIFO queue of capacity \<open>2^k - 1\<close>: a push is refused exactly
  when that many values are stored and otherwise appends; and over any sequence of pushes and
  pops on an empty buffer, the values returned, followed by the values still stored, are the
  accepted values in order.
\<close>

theorem ring_buffer_fifo:
  "(case ring.q_run k ops (RingBuffer_init k d) of (ins, outs, b) \<Rightarrow>
      outs @ contents k b = ins \<and> ring_count k b \<le> 2 ^ k - 1 \<and>
      (fst (try_push k v b) \<longleftrightarrow> ring_count k b < 2 ^ k - 1))"
proof -
  have i: "ring_inv k (RingBuffer_init k d)" and c: "contents k (RingBuffer_init k d) = []"
    by (simp_all add: ring_inv_def RingBuffer_init_def contents_def ring_count_def)
  obtain ins outs b where r: "ring.q_run k ops (RingBuffer_init k d) = (ins, outs, b)"
    by (metis prod_cases3)
  from ring.run_fifo [OF i r] have b: "ring_inv k b" and e: "outs @ contents k b = ins" by (simp_all add: c)
  have "fst (try_push k v b) \<longleftrightarrow> ring_count k b < 2 ^ k - 1"
    using ring.push_full [OF b, of v] ring.push_room [OF b, of v] ring.elems_bound [OF b]
    by (cases "ring_count k b = 2 ^ k - 1") auto
  with e ring.elems_bound [OF b] r show ?thesis by simp
qed

text \<open>
  C25. In every interleaving of the producer's and the consumer's accesses, at every moment,
  the values taken out are a prefix of the values put in: nothing is lost, duplicated, reordered
  or read before it was written; at most \<open>2^k - 1\<close> values are in between, and a value the
  consumer has read but not yet released is the next one in order.
\<close>

theorem ring_buffer_interleavings:
  assumes "ring_reachable k d s"
  shows "\<exists>rest. pushed s = popped s @ rest \<and> length rest \<le> 2 ^ k - 1 \<and>
    (case consumer s of CTaken t v \<Rightarrow> rest \<noteq> [] \<and> v = hd rest | _ \<Rightarrow> True)"
proof -
  from ring_reachable_inv [OF assms] have inv: "ring_inv k (buf s)" and p: "pushed s = popped s @ contents k (buf s)"
    and c: "consumer_ok k (buf s) (consumer s)"
    by (simp_all add: ring_threads_inv_def)
  have "case consumer s of CTaken t v \<Rightarrow> contents k (buf s) \<noteq> [] \<and> v = hd (contents k (buf s)) | _ \<Rightarrow> True"
    using c contents_pop(3) [OF inv] by (cases "consumer s") (auto simp flip: length_greater_0_conv)
  moreover have "length (contents k (buf s)) \<le> 2 ^ k - 1" using ring.elems_bound [OF inv] .
  ultimately show ?thesis using p by blast
qed

theorem ring_buffer_interleavings_witness:
  "\<exists>s. ring_reachable 2 0 s \<and> pushed s = [7 :: nat] \<and> (\<exists>rest. pushed s = popped s @ rest \<and> length rest \<le> 3)"
proof -
  let ?s0 = "\<lparr>buf = RingBuffer_init 2 0, producer = PIdle, consumer = CIdle, pushed = [], popped = []\<rparr> :: nat ring_state"
  let ?s1 = "?s0\<lparr>producer := PLoaded 7 0\<rparr>"
  let ?s2 = "?s0\<lparr>producer := PChecked 7 0\<rparr>"
  let ?s3 = "?s0\<lparr>buf := (buf ?s0)\<lparr>slots := (slots (buf ?s0))[0 := 7]\<rparr>, producer := PWritten 7 0\<rparr>"
  let ?s4 = "?s3\<lparr>buf := (buf ?s3)\<lparr>head_pos := (0 + 1) AND MASK 2\<rparr>, producer := PIdle, pushed := pushed ?s3 @ [7]\<rparr>"
  have r0: "ring_reachable 2 0 ?s0" by (rule ring_reachable.init)
  have "ring_step 2 ?s0 ?s1" using ring_step.p_load [of ?s0 2 7] by (simp add: RingBuffer_init_def)
  with r0 have r1: "ring_reachable 2 0 ?s1" by (rule ring_reachable.step)
  have "ring_step 2 ?s1 ?s2" using ring_step.p_room [of ?s1 7 0 2] by (simp add: RingBuffer_init_def and_MASK)
  with r1 have r2: "ring_reachable 2 0 ?s2" by (rule ring_reachable.step)
  have "ring_step 2 ?s2 ?s3" using ring_step.p_write [of ?s2 7 0 2] by simp
  with r2 have r3: "ring_reachable 2 0 ?s3" by (rule ring_reachable.step)
  have "ring_step 2 ?s3 ?s4" using ring_step.p_commit [of ?s3 7 0 2] by simp
  with r3 have r4: "ring_reachable 2 0 ?s4" by (rule ring_reachable.step)
  from ring_buffer_interleavings [OF r4] have "\<exists>rest. pushed ?s4 = popped ?s4 @ rest \<and> length rest \<le> 3" by auto
  moreover have "pushed ?s4 = [7]" by simp
  ultimately show ?thesis using r4 by blast
qed

end
