(* ===== verification/Capture.thy ===== *)
theory Capture
  imports Ring_Buffer
begin

text \<open>
  The capture device (\<^verbatim>\<open>capture/src\<close>): configuration, camera, quality gate, gRPC client with
  its reconnection loop, the capture thread and the sending loop of \<^verbatim>\<open>main\<close>. OpenCV, gRPC and
  toml++ are parameters: an image is a value of type \<open>'i\<close>, scoring, reading and encoding are
  functions or outcomes passed in; clock values are microseconds.
\<close>

section \<open>Configuration\<close>

record CaptureGatewayConfig =
  address :: string
  connect_timeout_ms :: int
  reconnect_base_ms :: int
  reconnect_max_ms :: int

record CameraConfig =
  source :: string
  image_dir :: string
  device :: string
  width :: int
  height :: int
  frame_rate_fps :: int
  cam_eye_side :: string
  cam_is_nir :: bool

record QualityConfig =
  threshold :: double
  jpeg_quality :: int

record CaptureConfig =
  gateway_cfg :: CaptureGatewayConfig
  camera_cfg :: CameraConfig
  quality_cfg :: QualityConfig
  device_name :: string
  capture_log_level :: string

text \<open>A parsed TOML table, by section and key, with its typed values.\<close>

record toml =
  toml_str :: "string \<Rightarrow> string \<Rightarrow> string option"
  toml_int :: "string \<Rightarrow> string \<Rightarrow> int option"
  toml_float :: "string \<Rightarrow> string \<Rightarrow> double option"
  toml_bool :: "string \<Rightarrow> string \<Rightarrow> bool option"

definition value_or :: "'a option \<Rightarrow> 'a \<Rightarrow> 'a" where
  "value_or v d = (case v of None \<Rightarrow> d | Some x \<Rightarrow> x)"

definition config_defaults :: CaptureConfig where
  "config_defaults =
     \<lparr>gateway_cfg = \<lparr>address = ''gateway:50051'', connect_timeout_ms = 5000,
        reconnect_base_ms = 500, reconnect_max_ms = 30000\<rparr>,
      camera_cfg = \<lparr>source = ''directory'', image_dir = ''/data/Iris/CASIA1'', device = ''/dev/video0'',
        width = 640, height = 480, frame_rate_fps = 30, cam_eye_side = ''left'', cam_is_nir = False\<rparr>,
      quality_cfg = \<lparr>threshold = 30 / 100, jpeg_quality = 85\<rparr>,
      device_name = ''capture-01'', capture_log_level = ''info''\<rparr>"

definition config_from_toml :: "toml \<Rightarrow> CaptureConfig" where
  "config_from_toml t =
     \<lparr>gateway_cfg = \<lparr>address = value_or (toml_str t ''gateway'' ''address'') ''gateway:50051'',
        connect_timeout_ms = value_or (toml_int t ''gateway'' ''connect_timeout_ms'') 5000,
        reconnect_base_ms = value_or (toml_int t ''gateway'' ''reconnect_base_ms'') 500,
        reconnect_max_ms = value_or (toml_int t ''gateway'' ''reconnect_max_ms'') 30000\<rparr>,
      camera_cfg = \<lparr>source = value_or (toml_str t ''camera'' ''source'') ''directory'',
        image_dir = value_or (toml_str t ''camera'' ''image_dir'') ''/data/Iris/CASIA1'',
        device = value_or (toml_str t ''camera'' ''device'') ''/dev/video0'',
        width = value_or (toml_int t ''camera'' ''width'') 640,
        height = value_or (toml_int t ''camera'' ''height'') 480,
        frame_rate_fps = value_or (toml_int t ''camera'' ''frame_rate_fps'') 30,
        cam_eye_side = value_or (toml_str t ''camera'' ''eye_side'') ''left'',
        cam_is_nir = value_or (toml_bool t ''camera'' ''is_nir'') False\<rparr>,
      quality_cfg = \<lparr>threshold = value_or (toml_float t ''quality'' ''threshold'') (30 / 100),
        jpeg_quality = value_or (toml_int t ''quality'' ''jpeg_quality'') 85\<rparr>,
      device_name = value_or (toml_str t ''device'' ''id'') ''capture-01'',
      capture_log_level = value_or (toml_str t ''device'' ''log_level'') ''info''\<rparr>"

definition env_or :: "(string \<Rightarrow> string option) \<Rightarrow> string \<Rightarrow> string \<Rightarrow> string" where
  "env_or env name d = (case env name of None \<Rightarrow> d | Some v \<Rightarrow> v)"

definition env_or_float ::
  "(string \<Rightarrow> exn + double) \<Rightarrow> (string \<Rightarrow> string option) \<Rightarrow> string \<Rightarrow> double \<Rightarrow> exn + double" where
  "env_or_float stof env name d = (case env name of None \<Rightarrow> Inr d | Some v \<Rightarrow> stof v)"

text \<open>
  A file that does not parse leaves the defaults; the environment overrides both. A threshold
  variable that is not a number throws.
\<close>

definition load_config ::
  "(string \<Rightarrow> toml option) \<Rightarrow> (string \<Rightarrow> exn + double) \<Rightarrow> (string \<Rightarrow> string option) \<Rightarrow> string \<Rightarrow> exn + CaptureConfig" where
  "load_config parse_file stof env path =
     (let c = (case parse_file path of None \<Rightarrow> config_defaults | Some t \<Rightarrow> config_from_toml t);
          gw = gateway_cfg c; cam = camera_cfg c; q = quality_cfg c in
      case env_or_float stof env ''EYED_QUALITY_THRESHOLD'' (threshold q) of
        Inl e \<Rightarrow> Inl e
      | Inr th \<Rightarrow>
          Inr (c\<lparr>gateway_cfg := gw\<lparr>address := env_or env ''EYED_GATEWAY_ADDR'' (address gw)\<rparr>,
                 device_name := env_or env ''EYED_DEVICE_ID'' (device_name c),
                 capture_log_level := env_or env ''EYED_LOG_LEVEL'' (capture_log_level c),
                 camera_cfg := cam\<lparr>source := env_or env ''EYED_CAMERA_SOURCE'' (source cam),
                   device := env_or env ''EYED_CAMERA_DEVICE'' (device cam),
                   image_dir := env_or env ''EYED_IMAGE_DIR'' (image_dir cam)\<rparr>,
                 quality_cfg := q\<lparr>threshold := th\<rparr>\<rparr>))"

section \<open>Camera\<close>

record Camera =
  cam_cfg :: CameraConfig
  image_paths :: "string list"
  dir_index :: nat
  last_frame_time :: "int option"
  frame_interval_us :: int
  cap_opened :: bool

definition tolower :: "char \<Rightarrow> char" where
  "tolower c = (if 65 \<le> (of_char c :: nat) \<and> (of_char c :: nat) \<le> 90 then char_of (of_char c + 32 :: nat) else c)"

text \<open>\<^verbatim>\<open>path::extension\<close> of a file name: from its last dot, unless the name starts with it.\<close>

definition file_name :: "string \<Rightarrow> string" where
  "file_name p = rev (takeWhile (\<lambda>c. c \<noteq> CHR ''/'') (rev p))"

definition extension :: "string \<Rightarrow> string" where
  "extension p =
     (let f = file_name p; e = rev (takeWhile (\<lambda>c. c \<noteq> CHR ''.'') (rev f)) in
      if f = ''.'' \<or> f = ''..'' \<or> length e + 1 \<ge> length f then [] else CHR ''.'' # e)"

definition is_image_file :: "string \<Rightarrow> bool" where
  "is_image_file p =
     (let ext = map tolower (extension p)
      in ext = ''.jpg'' \<or> ext = ''.jpeg'' \<or> ext = ''.bmp'' \<or> ext = ''.png'')"

definition load_directory_images :: "string list \<Rightarrow> string list" where
  "load_directory_images regular_files = sort (filter is_image_file regular_files)"

text \<open>The constructor; \<open>files\<close> are the regular files found, \<open>opened\<close> whether the device opened. A rate of zero divides by zero.\<close>

definition Camera_new :: "string list \<Rightarrow> bool \<Rightarrow> CameraConfig \<Rightarrow> Camera option" where
  "Camera_new fls opened cfg =
     (if frame_rate_fps cfg = 0 then None
      else Some \<lparr>cam_cfg = cfg,
        image_paths = (if source cfg = ''directory'' then load_directory_images fls else []),
        dir_index = 0, last_frame_time = None,
        frame_interval_us = (if frame_rate_fps cfg > 0 then 1000000 div frame_rate_fps cfg
                             else - (1000000 div - frame_rate_fps cfg)),
        cap_opened = (source cfg = ''webcam'' \<and> opened)\<rparr>)"

definition is_available :: "Camera \<Rightarrow> bool" where
  "is_available c =
     (if source (cam_cfg c) = ''directory'' then image_paths c \<noteq> []
      else if source (cam_cfg c) = ''webcam'' then cap_opened c else False)"

text \<open>
  A frame from the directory: \<open>now\<close> is the clock on entry, \<open>late\<close> how long after the due time
  (or after \<open>now\<close>) the clock is read again; \<open>imread\<close> yields no image for an unreadable file,
  in which case the call succeeds with an empty image.
\<close>

definition capture_from_directory ::
  "(string \<Rightarrow> 'i option) \<Rightarrow> int \<Rightarrow> nat \<Rightarrow> Camera \<Rightarrow> 'i option option \<times> Camera" where
  "capture_from_directory imread now late c =
     (if image_paths c = [] then (None, c)
      else
        let woken = (case last_frame_time c of
                       None \<Rightarrow> now
                     | Some l \<Rightarrow> if now < l + frame_interval_us c then l + frame_interval_us c else now);
            c1 = c\<lparr>last_frame_time := Some (woken + int late)\<rparr>;
            path = image_paths c ! dir_index c
        in (Some (imread path), c1\<lparr>dir_index := (dir_index c + 1) mod length (image_paths c)\<rparr>))"

text \<open>A frame from the webcam: \<open>None\<close> a failed read, \<open>Some None\<close> an empty frame.\<close>

definition capture_from_webcam :: "'i option option \<Rightarrow> Camera \<Rightarrow> 'i option option \<times> Camera" where
  "capture_from_webcam read c =
     (if \<not> cap_opened c then (None, c)
      else case read of None \<Rightarrow> (None, c) | Some fr \<Rightarrow> (Some fr, c))"

definition next_frame ::
  "(string \<Rightarrow> 'i option) \<Rightarrow> 'i option option \<Rightarrow> int \<Rightarrow> nat \<Rightarrow> Camera \<Rightarrow> 'i option option \<times> Camera" where
  "next_frame imread read now late c =
     (if source (cam_cfg c) = ''directory'' then capture_from_directory imread now late c
      else if source (cam_cfg c) = ''webcam'' then capture_from_webcam read c
      else (None, c))"

section \<open>Quality gate\<close>

definition passes :: "QualityConfig \<Rightarrow> double \<Rightarrow> bool" where
  "passes q s = (s \<ge> threshold q)"

text \<open>\<open>imencode\<close> fails with no buffer, in which case the buffer is cleared.\<close>

definition encode_jpeg :: "('i \<Rightarrow> int \<Rightarrow> bytes option) \<Rightarrow> QualityConfig \<Rightarrow> 'i \<Rightarrow> bytes" where
  "encode_jpeg imencode q img = (case imencode img (jpeg_quality q) of None \<Rightarrow> [] | Some jb \<Rightarrow> jb)"

section \<open>gRPC client\<close>

record GrpcClient =
  cl_device_id :: string
  cl_stream :: bool
  cl_connected :: bool

record SendResult =
  sr_accepted :: bool
  sr_queue_depth :: u32
  connection_ok :: bool

definition GrpcClient_init :: "string \<Rightarrow> GrpcClient" where
  "GrpcClient_init d = \<lparr>cl_device_id = d, cl_stream = False, cl_connected = False\<rparr>"

definition teardown_stream :: "GrpcClient \<Rightarrow> GrpcClient" where
  "teardown_stream c = c\<lparr>cl_stream := False, cl_connected := False\<rparr>"

definition open_stream :: "bool \<Rightarrow> GrpcClient \<Rightarrow> bool \<times> GrpcClient" where
  "open_stream stream_ok c =
     (if \<not> stream_ok then (False, c\<lparr>cl_stream := False, cl_connected := False\<rparr>)
      else (True, c\<lparr>cl_stream := True\<rparr>))"

definition GrpcClient_connect :: "bool \<times> bool \<Rightarrow> GrpcClient \<Rightarrow> bool \<times> GrpcClient" where
  "GrpcClient_connect outcome c =
     (let (channel_ok, stream_ok) = outcome;
          c = teardown_stream c;
          c = c\<lparr>cl_connected := channel_ok\<rparr>
      in if channel_ok then open_stream stream_ok c else (False, c))"

record wire_frame =
  wf_jpeg :: bytes
  wf_quality :: double
  wf_timestamp :: u64
  wf_frame_id :: u32
  wf_device_id :: string
  wf_is_nir :: bool
  wf_eye_side :: string

text \<open>The gateway's side of one exchange: whether the write works and the acknowledgement read back.\<close>

definition send_frame ::
  "bool \<Rightarrow> (bool \<times> u32) option \<Rightarrow> u32 \<Rightarrow> bytes \<Rightarrow> double \<Rightarrow> u64 \<Rightarrow> string \<Rightarrow> bool \<Rightarrow> GrpcClient \<Rightarrow>
   SendResult \<times> wire_frame option \<times> GrpcClient" where
  "send_frame write_ok ack fid jpg q ts side nir c =
     (let failed = \<lparr>sr_accepted = False, sr_queue_depth = 0, connection_ok = False\<rparr> in
      if \<not> cl_stream c then (failed, None, c)
      else
        let frame = \<lparr>wf_jpeg = jpg, wf_quality = q, wf_timestamp = ts, wf_frame_id = fid,
                     wf_device_id = cl_device_id c, wf_is_nir = nir, wf_eye_side = side\<rparr> in
        if \<not> write_ok then (failed, None, teardown_stream c)
        else case ack of
               None \<Rightarrow> (failed, Some frame, teardown_stream c)
             | Some (acc, depth) \<Rightarrow>
                 (\<lparr>sr_accepted = acc, sr_queue_depth = depth, connection_ok = True\<rparr>, Some frame, c))"

text \<open>
  The reconnection loop over the outcomes of the successive connection attempts: the sleeps in
  milliseconds and the client when it returns. It tests nothing but the attempt.
\<close>

partial_function (option) reconnect_loop ::
  "(nat \<Rightarrow> bool \<times> bool) \<Rightarrow> int \<Rightarrow> nat \<Rightarrow> int \<Rightarrow> GrpcClient \<Rightarrow> (int list \<times> GrpcClient) option" where
  "reconnect_loop outcomes max_ms n backoff_ms c =
     (if fst (GrpcClient_connect (outcomes n) c) then Some ([], snd (GrpcClient_connect (outcomes n) c))
      else Option.bind
             (reconnect_loop outcomes max_ms (Suc n) (min (backoff_ms * 2) max_ms)
                (snd (GrpcClient_connect (outcomes n) c)))
             (\<lambda>(sleeps, c'). Some (backoff_ms # sleeps, c')))"

definition reconnect_with_backoff ::
  "(nat \<Rightarrow> bool \<times> bool) \<Rightarrow> CaptureGatewayConfig \<Rightarrow> GrpcClient \<Rightarrow> (int list \<times> GrpcClient) option" where
  "reconnect_with_backoff outcomes cfg c =
     reconnect_loop outcomes (reconnect_max_ms cfg) 0 (reconnect_base_ms cfg) c"

section \<open>The two threads of main\<close>

record 'i Frame =
  fr_image :: 'i
  fr_id :: u32
  fr_timestamp :: u64

text \<open>
  One turn of the capture thread: a failed camera ends it (\<open>None\<close>), an empty image is skipped,
  any other image takes the next number and is pushed; a full buffer drops it.
\<close>

definition capture_turn ::
  "nat \<Rightarrow> 'i option option \<Rightarrow> u64 \<Rightarrow> u32 \<times> 'i Frame RingBuffer \<Rightarrow> (u32 \<times> 'i Frame RingBuffer) option" where
  "capture_turn k outcome ts s =
     (let (fid, b) = s in
      case outcome of
        None \<Rightarrow> None
      | Some None \<Rightarrow> Some (fid, b)
      | Some (Some img) \<Rightarrow> Some (fid + 1, snd (try_push k \<lparr>fr_image = img, fr_id = fid, fr_timestamp = ts\<rparr> b)))"

record send_counters =
  sent :: u64
  rejected_quality :: u64
  rejected_gw :: u64

record 'i capture_state =
  capturing :: bool
  next_id :: u32
  ring :: "'i Frame RingBuffer"
  client :: GrpcClient
  counters :: send_counters
  wire :: "wire_frame list"

text \<open>The circumstances of one turn of the sending loop.\<close>

record turn_env =
  te_write_ok :: bool
  te_ack :: "(bool \<times> u32) option"
  te_reconnect :: "nat \<Rightarrow> bool \<times> bool"

text \<open>One turn of the sending loop; \<open>None\<close> where the reconnection loop does not return.\<close>

definition send_turn ::
  "('i \<Rightarrow> double) \<Rightarrow> ('i \<Rightarrow> int \<Rightarrow> bytes option) \<Rightarrow> CaptureConfig \<Rightarrow> nat \<Rightarrow> turn_env \<Rightarrow>
   'i capture_state \<Rightarrow> 'i capture_state option" where
  "send_turn score imencode cfg k te s =
     (case try_pop k (ring s) of
        (None, b) \<Rightarrow> Some s
      | (Some frame, b) \<Rightarrow>
          let s = s\<lparr>ring := b\<rparr>; q = score (fr_image frame); n = counters s in
          if \<not> passes (quality_cfg cfg) q
          then Some (s\<lparr>counters := n\<lparr>rejected_quality := rejected_quality n + 1\<rparr>\<rparr>)
          else
            let jpg = encode_jpeg imencode (quality_cfg cfg) (fr_image frame) in
            if jpg = [] then Some s
            else
              let (r, w, c) = send_frame (te_write_ok te) (te_ack te) (fr_id frame) jpg q (fr_timestamp frame)
                    (cam_eye_side (camera_cfg cfg)) (cam_is_nir (camera_cfg cfg)) (client s);
                  s = s\<lparr>client := c, wire := wire s @ (case w of None \<Rightarrow> [] | Some f \<Rightarrow> [f])\<rparr>
              in if \<not> connection_ok r
                 then (case reconnect_with_backoff (te_reconnect te) (gateway_cfg cfg) c of
                         None \<Rightarrow> None
                       | Some (sleeps, c') \<Rightarrow> Some (s\<lparr>client := c'\<rparr>))
                 else if \<not> sr_accepted r
                 then Some (s\<lparr>counters := n\<lparr>rejected_gw := rejected_gw n + 1\<rparr>\<rparr>)
                 else Some (s\<lparr>counters := n\<lparr>sent := sent n + 1\<rparr>\<rparr>))"

text \<open>
  The threads' turns in any order, up to the shutdown. A failed camera ends the capture thread
  only: the sending loop goes on with what is in the buffer, and then idles. Where a
  reconnection hangs the result is \<open>None\<close>.
\<close>

datatype 'i turn = Produce "'i option option" u64 | Consume turn_env

fun capture_run ::
  "('i \<Rightarrow> double) \<Rightarrow> ('i \<Rightarrow> int \<Rightarrow> bytes option) \<Rightarrow> CaptureConfig \<Rightarrow> nat \<Rightarrow> 'i turn list \<Rightarrow>
   'i capture_state \<Rightarrow> 'i capture_state option" where
  "capture_run score imencode cfg k [] s = Some s"
| "capture_run score imencode cfg k (Produce outcome ts # es) s =
     (if \<not> capturing s then capture_run score imencode cfg k es s
      else case capture_turn k outcome ts (next_id s, ring s) of
        None \<Rightarrow> capture_run score imencode cfg k es (s\<lparr>capturing := False\<rparr>)
      | Some (fid, b) \<Rightarrow> capture_run score imencode cfg k es (s\<lparr>next_id := fid, ring := b\<rparr>))"
| "capture_run score imencode cfg k (Consume te # es) s =
     (case send_turn score imencode cfg k te s of
        None \<Rightarrow> None
      | Some s' \<Rightarrow> capture_run score imencode cfg k es s')"

definition capture_start :: "nat \<Rightarrow> 'i Frame \<Rightarrow> GrpcClient \<Rightarrow> 'i capture_state" where
  "capture_start k d c =
     \<lparr>capturing = True, next_id = 0, ring = RingBuffer_init k d, client = c,
      counters = \<lparr>sent = 0, rejected_quality = 0, rejected_gw = 0\<rparr>, wire = []\<rparr>"

text \<open>
  \<^verbatim>\<open>main\<close>: how the program ends, with the state of its two threads if it started them; \<open>None\<close>
  where a reconnection, the first one included, does not return. The buffer has four slots.
  \<open>d\<close> is the empty frame its slots start with.
\<close>

definition capture_main ::
  "(string \<Rightarrow> toml option) \<Rightarrow> (string \<Rightarrow> exn + double) \<Rightarrow> (string \<Rightarrow> string option) \<Rightarrow> string option \<Rightarrow>
   string list \<Rightarrow> bool \<Rightarrow> (nat \<Rightarrow> bool \<times> bool) \<Rightarrow> ('i \<Rightarrow> double) \<Rightarrow> ('i \<Rightarrow> int \<Rightarrow> bytes option) \<Rightarrow>
   'i Frame \<Rightarrow> 'i turn list \<Rightarrow> (ending \<times> 'i capture_state option) option" where
  "capture_main parse_file stof env arg fls opened outcomes score imencode d turns =
     (let path = (case arg of None \<Rightarrow> env_or env ''CAPTURE_CONFIG'' ''/app/config/capture.toml'' | Some a \<Rightarrow> a) in
      case load_config parse_file stof env path of
        Inl x \<Rightarrow> Some (Terminated x, None)
      | Inr cfg \<Rightarrow>
          (case Camera_new fls opened (camera_cfg cfg) of
             None \<Rightarrow> Some (Crash, None)
           | Some cam \<Rightarrow>
               if \<not> is_available cam then Some (ExitCode 1, None)
               else case reconnect_with_backoff outcomes (gateway_cfg cfg) (GrpcClient_init (device_name cfg)) of
                      None \<Rightarrow> None
                    | Some (sleeps, c) \<Rightarrow>
                        (case capture_run score imencode cfg 2 turns (capture_start 2 d c) of
                           None \<Rightarrow> None
                         | Some s \<Rightarrow> Some (ExitCode 0, Some s))))"

section \<open>Reconnection\<close>

lemma connect_result:
  "fst (GrpcClient_connect (a, b) c) = (a \<and> b)"
  "GrpcClient_connect (True, True) c = (True, c\<lparr>cl_stream := True, cl_connected := True\<rparr>)"
  by (auto simp: GrpcClient_connect_def open_stream_def teardown_stream_def Let_def)

lemma connect_device: "cl_device_id (snd (GrpcClient_connect o' c)) = cl_device_id c"
  by (auto simp: GrpcClient_connect_def open_stream_def teardown_stream_def Let_def split: prod.splits)

definition attempt_ok :: "(nat \<Rightarrow> bool \<times> bool) \<Rightarrow> nat \<Rightarrow> bool" where
  "attempt_ok outcomes n = (outcomes n = (True, True))"

lemma reconnect_now:
  "attempt_ok outcomes n \<Longrightarrow>
   reconnect_loop outcomes mx n b c = Some ([], c\<lparr>cl_stream := True, cl_connected := True\<rparr>)"
  by (subst reconnect_loop.simps) (simp add: attempt_ok_def connect_result)

lemma reconnect_later:
  assumes "\<not> attempt_ok outcomes n"
  shows "reconnect_loop outcomes mx n b c =
    map_option (\<lambda>(sl, c'). (b # sl, c'))
      (reconnect_loop outcomes mx (Suc n) (min (b * 2) mx) (snd (GrpcClient_connect (outcomes n) c)))"
proof -
  have "\<not> fst (GrpcClient_connect (outcomes n) c)"
    using connect_result(1) [of "fst (outcomes n)" "snd (outcomes n)" c] assms
    by (cases "outcomes n") (auto simp: attempt_ok_def)
  then show ?thesis by (subst reconnect_loop.simps) (auto simp: bind_eq_Some_conv split: option.splits bind_splits)
qed

lemma reconnect_succeeds:
  assumes "attempt_ok outcomes (n + m)" "\<And>i. i < m \<Longrightarrow> \<not> attempt_ok outcomes (n + i)" "0 \<le> b" "b \<le> mx"
  shows "\<exists>c'. reconnect_loop outcomes mx n b c =
      Some (map (\<lambda>i. min (b * 2 ^ i) mx) [0..<m], c') \<and>
    cl_stream c' \<and> cl_connected c' \<and> cl_device_id c' = cl_device_id c"
  using assms
proof (induction m arbitrary: n b c)
  case 0
  then show ?case by (simp add: reconnect_now)
next
  case (Suc m)
  let ?c = "snd (GrpcClient_connect (outcomes n) c)" and ?b = "min (b * 2) mx"
  have "\<not> attempt_ok outcomes n" using Suc.prems(2) [of 0] by simp
  moreover have "\<exists>c'. reconnect_loop outcomes mx (Suc n) ?b ?c =
      Some (map (\<lambda>i. min (?b * 2 ^ i) mx) [0..<m], c') \<and>
    cl_stream c' \<and> cl_connected c' \<and> cl_device_id c' = cl_device_id ?c"
    using Suc.prems Suc.prems(2) [of "Suc i" for i] by (intro Suc.IH) auto
  moreover have "min (?b * 2 ^ i) mx = min (b * 2 ^ Suc i) mx" for i
  proof (cases "b * 2 \<le> mx")
    case False
    have "mx * 1 \<le> mx * 2 ^ i" "b * 2 * 1 \<le> b * 2 * 2 ^ i"
      using Suc.prems(3,4) by (intro mult_left_mono; simp)+
    with False have "mx \<le> mx * 2 ^ i" "mx \<le> b * 2 ^ Suc i" by (simp_all add: algebra_simps)
    with False show ?thesis by simp
  qed (simp add: algebra_simps)
  moreover have "[0..<Suc m] = 0 # map Suc [0..<m]" by (simp add: upt_conv_Cons map_Suc_upt)
  ultimately show ?case
    using Suc.prems(3,4) by (auto simp: reconnect_later [of outcomes n mx b c] connect_device comp_def)
qed

lemma reconnect_diverges:
  assumes "\<And>i. \<not> attempt_ok outcomes i"
  shows "reconnect_loop outcomes mx n b c = None"
proof -
  have "reconnect_loop outcomes mx n b c \<noteq> Some (sl, c')" for sl c'
  proof (induction sl arbitrary: n b c)
    case Nil
    show ?case unfolding reconnect_later [OF assms, of mx n b c] by auto
  next
    case (Cons x sl)
    then show ?case unfolding reconnect_later [OF assms, of mx n b c] by auto
  qed
  then show ?thesis by (cases "reconnect_loop outcomes mx n b c") auto
qed

section \<open>Order of the frames\<close>

definition ring_ids :: "nat \<Rightarrow> 'i capture_state \<Rightarrow> u32 list" where
  "ring_ids k s = map fr_id (contents k (ring s))"

text \<open>
  The numbers sent so far, then those in the buffer, increase strictly and are below the next
  number; every frame sent carries the device's name.
\<close>

definition capture_inv :: "CaptureConfig \<Rightarrow> nat \<Rightarrow> string \<Rightarrow> 'i capture_state \<Rightarrow> bool" where
  "capture_inv cfg k d s =
     (ring_inv k (ring s) \<and> cl_device_id (client s) = d \<and>
      sorted_wrt (<) (map unat (map wf_frame_id (wire s) @ ring_ids k s)) \<and>
      (\<forall>n \<in> set (map wf_frame_id (wire s) @ ring_ids k s). unat n < unat (next_id s)) \<and>
      (\<forall>f \<in> set (wire s). wf_device_id f = d \<and> wf_jpeg f \<noteq> [] \<and> threshold (quality_cfg cfg) \<le> wf_quality f))"

lemma unat_plus_1: "unat n < 2 ^ 32 - 1 \<Longrightarrow> unat (n + 1 :: u32) = Suc (unat n)"
  by (simp add: unat_word_ariths unat_of_nat)

lemma capture_turn_inv:
  assumes "capture_inv cfg k d s" "capture_turn k outcome ts (next_id s, ring s) = Some (fid, b)"
    "unat (next_id s) < 2 ^ 32 - 1"
  shows "capture_inv cfg k d (s\<lparr>next_id := fid, ring := b\<rparr>)"
    and "unat fid \<le> Suc (unat (next_id s))"
proof -
  have inv: "ring_inv k (ring s)" using assms(1) by (simp add: capture_inv_def)
  show "unat fid \<le> Suc (unat (next_id s))"
    using assms(2) unat_plus_1 [OF assms(3)]
    by (auto simp: capture_turn_def Let_def split: option.splits)
  consider (skip) "fid = next_id s" "b = ring s"
    | (push) img where "fid = next_id s + 1"
      "b = snd (try_push k \<lparr>fr_image = img, fr_id = next_id s, fr_timestamp = ts\<rparr> (ring s))"
    using assms(2) by (auto simp: capture_turn_def Let_def split: option.splits)
  then show "capture_inv cfg k d (s\<lparr>next_id := fid, ring := b\<rparr>)"
  proof cases
    case skip
    then show ?thesis using assms(1) by (simp add: capture_inv_def ring_ids_def)
  next
    case push
    let ?f = "\<lparr>fr_image = img, fr_id = next_id s, fr_timestamp = ts\<rparr>"
    have "ring_inv k b \<and> (contents k b = contents k (ring s) \<or> contents k b = contents k (ring s) @ [?f])"
      using ring.push_full [OF inv, of ?f] ring.push_room [OF inv, of ?f] ring.elems_bound [OF inv] inv push(2)
      by (cases "ring_count k (ring s) = 2 ^ k - 1") auto
    then show ?thesis
      using assms(1) push(1) unat_plus_1 [OF assms(3)]
      by (auto simp: capture_inv_def ring_ids_def sorted_wrt_append less_Suc_eq)
  qed
qed

lemma reconnect_device:
  "reconnect_loop outcomes mx n b c = Some (sl, c') \<Longrightarrow> cl_device_id c' = cl_device_id c"
proof (induction sl arbitrary: n b c)
  case Nil
  then show ?case
    by (cases "attempt_ok outcomes n") (auto simp: reconnect_now reconnect_later [of outcomes n mx b c])
next
  case (Cons x sl)
  then show ?case
    by (cases "attempt_ok outcomes n")
       (fastforce simp: reconnect_now reconnect_later [of outcomes n mx b c] connect_device)+
qed

lemma send_frame_wire:
  assumes "send_frame w a fid jpg q ts side nir c = (r, f, c')"
  shows "cl_device_id c' = cl_device_id c"
    and "f = Some x \<Longrightarrow> wf_frame_id x = fid \<and> wf_jpeg x = jpg \<and> wf_quality x = q \<and> wf_device_id x = cl_device_id c"
  using assms
  by (auto simp: send_frame_def teardown_stream_def Let_def split: if_splits option.splits)

text \<open>
  What a turn of the sending loop can do to the wire and the buffer: nothing; drop the oldest
  frame; or put the oldest frame on the wire.
\<close>

lemma send_turn_cases:
  assumes "send_turn score imencode cfg k te s = Some s'" "ring_inv k (ring s)"
  obtains (idle) "ring s' = ring s" "wire s' = wire s" "client s' = client s" "next_id s' = next_id s"
  | (drop) "contents k (ring s) \<noteq> []" "contents k (ring s') = tl (contents k (ring s))" "ring_inv k (ring s')"
      "wire s' = wire s" "cl_device_id (client s') = cl_device_id (client s)" "next_id s' = next_id s"
  | (send) f where "contents k (ring s) \<noteq> []" "contents k (ring s') = tl (contents k (ring s))" "ring_inv k (ring s')"
      "wire s' = wire s @ [f]" "wf_frame_id f = fr_id (hd (contents k (ring s)))" "wf_jpeg f \<noteq> []"
      "threshold (quality_cfg cfg) \<le> wf_quality f" "wf_device_id f = cl_device_id (client s)"
      "cl_device_id (client s') = cl_device_id (client s)" "next_id s' = next_id s"
proof (cases "contents k (ring s) = []")
  case True
  with assms ring.pop_empty [OF assms(2)] have "s' = s" by (simp add: send_turn_def)
  then show ?thesis by (intro idle) simp_all
next
  case False
  obtain b where pop: "try_pop k (ring s) = (Some (hd (contents k (ring s))), b)"
    and b: "ring_inv k b" "contents k b = tl (contents k (ring s))"
    using ring.pop_some [OF assms(2) False] by (cases "try_pop k (ring s)") auto
  let ?fr = "hd (contents k (ring s))"
  let ?q = "score (fr_image ?fr)" and ?jpg = "encode_jpeg imencode (quality_cfg cfg) (fr_image ?fr)"
  obtain r w c where sf: "send_frame (te_write_ok te) (te_ack te) (fr_id ?fr) ?jpg ?q (fr_timestamp ?fr)
      (cam_eye_side (camera_cfg cfg)) (cam_is_nir (camera_cfg cfg)) (client s) = (r, w, c)"
    by (metis prod_cases3)
  note W = send_frame_wire [OF sf]
  have ring': "ring s' = b" "next_id s' = next_id s"
    using assms(1) pop sf by (auto simp: send_turn_def Let_def split: if_splits option.splits prod.splits)
  have dev: "cl_device_id (client s') = cl_device_id (client s)"
    using assms(1) pop sf W(1)
    by (auto simp: send_turn_def Let_def reconnect_with_backoff_def dest!: reconnect_device
        split: if_splits option.splits prod.splits)
  have "wire s' = wire s \<or> (\<exists>f. w = Some f \<and> wire s' = wire s @ [f] \<and> ?jpg \<noteq> [] \<and> passes (quality_cfg cfg) ?q)"
    using assms(1) pop sf by (auto simp: send_turn_def Let_def split: if_splits option.splits prod.splits)
  then show ?thesis
    using drop send False b ring' dev W(2) by (auto simp: passes_def)
qed

lemma send_turn_inv:
  assumes "capture_inv cfg k d s" "send_turn score imencode cfg k te s = Some s'"
  shows "capture_inv cfg k d s' \<and> next_id s' = next_id s"
proof -
  have "ring_inv k (ring s)" using assms(1) by (simp add: capture_inv_def)
  with assms(2) show ?thesis
  proof (cases rule: send_turn_cases)
    case idle
    with assms(1) show ?thesis by (simp add: capture_inv_def ring_ids_def)
  next
    case drop
    then obtain x xs where "contents k (ring s) = x # xs" by (cases "contents k (ring s)") auto
    with drop assms(1) show ?thesis by (auto simp: capture_inv_def ring_ids_def sorted_wrt_append)
  next
    case (send f)
    then obtain x xs where "contents k (ring s) = x # xs" by (cases "contents k (ring s)") auto
    with send assms(1) show ?thesis by (auto simp: capture_inv_def ring_ids_def sorted_wrt_append)
  qed
qed

lemma capture_start_inv: "capture_inv cfg k (cl_device_id c) (capture_start k d c)"
  by (simp add: capture_inv_def capture_start_def ring_ids_def ring_inv_def RingBuffer_init_def contents_def ring_count_def)

lemma capture_run_inv:
  assumes "capture_run score imencode cfg k es s = Some s'" "capture_inv cfg k d s"
    "unat (next_id s) + length es < 2 ^ 32"
  shows "capture_inv cfg k d s'"
  using assms
proof (induction score imencode cfg k es s rule: capture_run.induct)
  case (2 score imencode cfg k outcome ts es s)
  show ?case
  proof (cases "capturing s")
    case False
    with 2 show ?thesis by simp
  next
    case True
    show ?thesis
    proof (cases "capture_turn k outcome ts (next_id s, ring s)")
      case None
      have "capture_inv cfg k d (s\<lparr>capturing := False\<rparr>)"
        using "2.prems"(2) by (simp add: capture_inv_def ring_ids_def)
      with "2.IH"(2) [OF _ None] "2.prems" True None show ?thesis by simp
    next
      case (Some p)
      obtain fid b where p: "p = (fid, b)" by fastforce
      have "unat (next_id s) < 2 ^ 32 - 1" using "2.prems"(3) by simp
      note T = capture_turn_inv [OF "2.prems"(2) Some [unfolded p] this]
      show ?thesis
        using "2.IH"(3) [OF _ Some [unfolded p] refl] "2.prems" T Some p True by simp
    qed
  qed
next
  case (3 score imencode cfg k te es s)
  then show ?case by (auto split: option.splits dest: send_turn_inv)
qed simp

section \<open>Properties of the capture device\<close>



text \<open>
  The gateway receives frames in capture order, at most once each: over any interleaving of the
  capture thread's and the sending loop's turns (fewer than \<open>2^32\<close> of them), whatever fails, the
  numbers of the frames put on the wire increase strictly, every such frame carries the
  device's name, a non-empty image and a quality at least the threshold.
\<close>

theorem capture_sends_in_order:
  assumes "capture_run score imencode cfg k es (capture_start k d c) = Some s" and "length es < 2 ^ 32"
  shows "sorted_wrt (<) (map (\<lambda>f. unat (wf_frame_id f)) (wire s)) \<and>
    (\<forall>f \<in> set (wire s). wf_device_id f = cl_device_id c \<and> wf_jpeg f \<noteq> [] \<and> threshold (quality_cfg cfg) \<le> wf_quality f)"
  using capture_run_inv [OF assms(1) capture_start_inv] assms(2)
  by (simp add: capture_start_def capture_inv_def sorted_wrt_append comp_def)

definition sample_client :: GrpcClient where
  "sample_client = \<lparr>cl_device_id = ''cam'', cl_stream = True, cl_connected = True\<rparr>"

lemma sample_capture:
  "\<exists>s. capture_run (\<lambda>_. 1) (\<lambda>_ _. Some [9]) config_defaults 2
     [Produce (Some (Some True)) 5, Consume \<lparr>te_write_ok = True, te_ack = Some (True, 0), te_reconnect = \<lambda>_. (True, True)\<rparr>]
     (capture_start 2 \<lparr>fr_image = False, fr_id = 0, fr_timestamp = 0\<rparr> sample_client) = Some s \<and> length (wire s) = 1"
  by (simp add: capture_start_def capture_turn_def send_turn_def try_push_def try_pop_def RingBuffer_init_def
      and_MASK passes_def config_defaults_def encode_jpeg_def send_frame_def sample_client_def Let_def numeral_2_eq_2)

theorem capture_sends_in_order_witness:
  "\<exists>s. length (wire s) = 1 \<and> (\<forall>f \<in> set (wire (s :: bool capture_state)). wf_device_id f = ''cam'')"
proof -
  obtain s where s: "capture_run (\<lambda>_. 1) (\<lambda>_ _. Some [9]) config_defaults 2
     [Produce (Some (Some True)) 5, Consume \<lparr>te_write_ok = True, te_ack = Some (True, 0), te_reconnect = \<lambda>_. (True, True)\<rparr>]
     (capture_start 2 \<lparr>fr_image = False, fr_id = 0, fr_timestamp = 0\<rparr> sample_client) = Some s" and l: "length (wire s) = 1"
    using sample_capture by blast
  from capture_sends_in_order [OF s] l show ?thesis by (auto simp: sample_client_def intro!: exI [of _ s])
qed

section \<open>The directory camera\<close>

text \<open>Successive frames with the clock of each call: the time a frame was taken and its image.\<close>

fun camera_run :: "(string \<Rightarrow> 'i option) \<Rightarrow> (int \<times> nat) list \<Rightarrow> Camera \<Rightarrow> (int \<times> 'i option) list" where
  "camera_run imread [] c = []"
| "camera_run imread ((now, late) # ts) c =
     (case capture_from_directory imread now late c of
        (Some img, c') \<Rightarrow> (the (last_frame_time c'), img) # camera_run imread ts c'
      | (None, c') \<Rightarrow> [])"

fun paced :: "int \<Rightarrow> int list \<Rightarrow> bool" where
  "paced d (a # b # ts) = (a + d \<le> b \<and> paced d (b # ts))"
| "paced d ts = True"

lemma capture_from_directory_step:
  assumes "image_paths c \<noteq> []"
  shows "\<exists>t. capture_from_directory imread now late c =
      (Some (imread (image_paths c ! dir_index c)),
       c\<lparr>last_frame_time := Some t, dir_index := (dir_index c + 1) mod length (image_paths c)\<rparr>) \<and>
    (\<forall>l. last_frame_time c = Some l \<longrightarrow> l + frame_interval_us c \<le> t)"
  using assms by (auto simp: capture_from_directory_def Let_def split: option.splits)

lemma camera_run_spec:
  assumes "image_paths c \<noteq> []" "dir_index c < length (image_paths c)"
  shows "map snd (camera_run imread ts c) =
      map (\<lambda>i. imread (image_paths c ! ((dir_index c + i) mod length (image_paths c)))) [0..<length ts] \<and>
    paced (frame_interval_us c) ((case last_frame_time c of None \<Rightarrow> [] | Some l \<Rightarrow> [l]) @ map fst (camera_run imread ts c))"
  using assms
proof (induction imread ts c rule: camera_run.induct)
  case (2 imread now late ts c)
  obtain t where step: "capture_from_directory imread now late c = (Some (imread (image_paths c ! dir_index c)),
      c\<lparr>last_frame_time := Some t, dir_index := (dir_index c + 1) mod length (image_paths c)\<rparr>)"
    and t: "\<forall>l. last_frame_time c = Some l \<longrightarrow> l + frame_interval_us c \<le> t"
    using capture_from_directory_step [OF "2.prems"(1)] by blast
  let ?c = "c\<lparr>last_frame_time := Some t, dir_index := (dir_index c + 1) mod length (image_paths c)\<rparr>"
  have up: "[0..<length ((now, late) # ts)] = 0 # map Suc [0..<length ts]"
    using upt_conv_Cons [of 0 "Suc (length ts)"] by (simp add: map_Suc_upt del: upt_Suc)
  have IH: "map snd (camera_run imread ts ?c) =
      map (\<lambda>i. imread (image_paths c ! ((dir_index c + 1 + i) mod length (image_paths c)))) [0..<length ts]"
    "paced (frame_interval_us c) (t # map fst (camera_run imread ts ?c))"
    using "2.IH" [OF step [symmetric] refl] "2.prems" by (simp_all add: mod_add_left_eq)
  from IH(2) t have "paced (frame_interval_us c)
      ((case last_frame_time c of None \<Rightarrow> [] | Some l \<Rightarrow> [l]) @ t # map fst (camera_run imread ts ?c))"
    by (auto split: option.splits)
  with IH(1) "2.prems"(2) show ?case unfolding up by (simp add: step)
qed (auto split: option.splits)

text \<open>
  The directory camera shows its images in name order, over and over, and never faster
  than its frame rate: the \<open>i\<close>-th frame is the image at position \<open>i\<close> modulo their number
  (or an empty frame where it cannot be read), however the clock and the scheduler behave, and
  the times at which successive frames are taken are at least one frame interval apart.
\<close>

theorem camera_paces_and_cycles:
  assumes "Camera_new fls opened cfg = Some c" and "source cfg = ''directory''"
    and "filter is_image_file fls \<noteq> []"
  shows "let paths = sort (filter is_image_file fls); out = camera_run imread ts c in
    map snd out = map (\<lambda>i. imread (paths ! (i mod length paths))) [0..<length ts] \<and>
    paced (frame_interval_us c) (map fst out)"
proof -
  have c: "image_paths c = sort (filter is_image_file fls)" "dir_index c = 0" "last_frame_time c = None"
    using assms(1,2) by (auto simp: Camera_new_def load_directory_images_def split: if_splits)
  have ne: "sort (filter is_image_file fls) \<noteq> []" using assms(3) by (metis length_0_conv length_sort)
  from camera_run_spec [of c imread ts] c ne assms(3) show ?thesis by (simp add: Let_def)
qed

theorem camera_paces_and_cycles_witness:
  "\<exists>c. Camera_new [''b.png'', ''x.txt'', ''a.JPG''] False (camera_cfg config_defaults) = Some c \<and>
     map snd (camera_run Some [(0, 0), (7, 1), (9, 0)] c) = [Some ''a.JPG'', Some ''b.png'', Some ''a.JPG'']"
proof -
  have f: "filter is_image_file [''b.png'', ''x.txt'', ''a.JPG''] = [''b.png'', ''a.JPG'']"
    by code_simp
  have s: "sort [''b.png'', ''a.JPG''] = [''a.JPG'', ''b.png'']" by (simp add: less_eq_list_code less_char_def)
  obtain c where c: "Camera_new [''b.png'', ''x.txt'', ''a.JPG''] False (camera_cfg config_defaults) = Some c"
    by (simp add: Camera_new_def config_defaults_def)
  have src: "source (camera_cfg config_defaults) = ''directory''" by (simp add: config_defaults_def)
  from camera_paces_and_cycles [OF c src, unfolded f s, of Some "[(0, 0), (7, 1), (9, 0)]"] c show ?thesis
    by (auto simp: Let_def upt_rec)
qed

end
