(* ===== verification/Quality_Gate.thy ===== *)
theory Quality_Gate
  imports EyeD_Prelude
begin

text \<open>
  The score of the quality gate (\<^verbatim>\<open>capture/src/quality_gate.cpp\<close>). The operations of OpenCV are
  parameters; what their documentation says of them is \<open>documented\<close>. Values are real numbers.
\<close>

section \<open>Images\<close>

record cvmat =
  mt_rows :: nat
  mt_cols :: nat
  mt_channels :: nat
  mt_at :: "nat \<Rightarrow> int \<Rightarrow> int \<Rightarrow> real"

record opencv =
  cvt_gray :: "cvmat \<Rightarrow> cvmat"
  sobel3 :: "nat \<Rightarrow> nat \<Rightarrow> cvmat \<Rightarrow> cvmat"
  magnitude :: "cvmat \<Rightarrow> cvmat \<Rightarrow> cvmat"
  mean0 :: "cvmat \<Rightarrow> real"

definition gate_score :: "opencv \<Rightarrow> cvmat \<Rightarrow> real" where
  "gate_score cv img =
     (let gray = (if mt_channels img > 1 then cvt_gray cv img else img);
          gx = sobel3 cv 1 0 gray;
          gy = sobel3 cv 0 1 gray;
          mag = magnitude cv gx gy
      in mean0 cv mag / (255 * sqrt 2))"

section \<open>What OpenCV documents\<close>

text \<open>A non-empty image of bytes.\<close>

definition byte_image :: "cvmat \<Rightarrow> bool" where
  "byte_image m \<longleftrightarrow> 0 < mt_rows m \<and> 0 < mt_cols m \<and> (\<forall>ch r c. 0 \<le> mt_at m ch r c \<and> mt_at m ch r c \<le> 255)"

text \<open>The default border: the image is mirrored at its outermost pixels.\<close>

definition mirror :: "nat \<Rightarrow> int \<Rightarrow> int" where
  "mirror n i = (if n = 1 then 0 else if i < 0 then - i else if int n \<le> i then 2 * int n - 2 - i else i)"

definition pixel :: "cvmat \<Rightarrow> int \<Rightarrow> int \<Rightarrow> real" where
  "pixel m r c = mt_at m 0 (mirror (mt_rows m) r) (mirror (mt_cols m) c)"

definition sobel_x :: "cvmat \<Rightarrow> int \<Rightarrow> int \<Rightarrow> real" where
  "sobel_x m r c =
     (pixel m (r - 1) (c + 1) - pixel m (r - 1) (c - 1)) + 2 * (pixel m r (c + 1) - pixel m r (c - 1)) +
     (pixel m (r + 1) (c + 1) - pixel m (r + 1) (c - 1))"

definition sobel_y :: "cvmat \<Rightarrow> int \<Rightarrow> int \<Rightarrow> real" where
  "sobel_y m r c =
     (pixel m (r + 1) (c - 1) - pixel m (r - 1) (c - 1)) + 2 * (pixel m (r + 1) c - pixel m (r - 1) c) +
     (pixel m (r + 1) (c + 1) - pixel m (r - 1) (c + 1))"

definition pixel_mean :: "cvmat \<Rightarrow> real" where
  "pixel_mean m =
     (\<Sum>r < mt_rows m. \<Sum>c < mt_cols m. mt_at m 0 (int r) (int c)) / (real (mt_rows m) * real (mt_cols m))"

definition documented :: "opencv \<Rightarrow> bool" where
  "documented cv \<longleftrightarrow>
     (\<forall>m. byte_image m \<longrightarrow> byte_image (cvt_gray cv m) \<and> mt_channels (cvt_gray cv m) = 1) \<and>
     (\<forall>m. sobel3 cv 1 0 m = m\<lparr>mt_at := (\<lambda>ch. sobel_x m)\<rparr> \<and> sobel3 cv 0 1 m = m\<lparr>mt_at := (\<lambda>ch. sobel_y m)\<rparr>) \<and>
     (\<forall>x y. magnitude cv x y = x\<lparr>mt_at := (\<lambda>ch r c. sqrt ((mt_at x ch r c)\<^sup>2 + (mt_at y ch r c)\<^sup>2))\<rparr>) \<and>
     mean0 cv = pixel_mean"

section \<open>Bounds\<close>

lemma pixel_bounds: "byte_image m \<Longrightarrow> 0 \<le> pixel m r c \<and> pixel m r c \<le> 255"
  by (simp add: byte_image_def pixel_def)

lemma weighted_bound:
  assumes "0 \<le> a \<and> a \<le> 255" "0 \<le> b \<and> b \<le> 255" "0 \<le> c \<and> c \<le> 255" "0 \<le> d \<and> d \<le> 255"
    "0 \<le> e \<and> e \<le> 255" "0 \<le> f \<and> f \<le> (255 :: real)"
  shows "\<bar>(a - b) + 2 * (c - d) + (e - f)\<bar> \<le> 4 * 255"
  using assms unfolding abs_le_iff by auto

lemma sobel_bounds:
  assumes "byte_image m"
  shows "\<bar>sobel_x m r c\<bar> \<le> 4 * 255" "\<bar>sobel_y m r c\<bar> \<le> 4 * 255"
  unfolding sobel_x_def sobel_y_def by (rule weighted_bound; rule pixel_bounds [OF assms])+

lemma magnitude_bound:
  assumes "\<bar>x\<bar> \<le> 4 * 255" "\<bar>y\<bar> \<le> 4 * 255"
  shows "sqrt (x\<^sup>2 + y\<^sup>2) \<le> 4 * (255 * sqrt 2)"
proof -
  have "x\<^sup>2 \<le> (4 * 255)\<^sup>2" "y\<^sup>2 \<le> (4 * 255)\<^sup>2" 
    using assms by (intro iffD1 [OF abs_le_square_iff]; simp)+
  then have "x\<^sup>2 + y\<^sup>2 \<le> (4 * (255 * sqrt 2))\<^sup>2" by (simp add: power_mult_distrib)
  then show ?thesis by (intro real_le_lsqrt) simp_all
qed

lemma mean_bounds:
  assumes "0 < mt_rows m" "0 < mt_cols m" "\<And>r c. lo \<le> mt_at m 0 r c \<and> mt_at m 0 r c \<le> hi"
  shows "lo \<le> pixel_mean m \<and> pixel_mean m \<le> hi"
proof -
  let ?s = "\<Sum>r < mt_rows m. \<Sum>c < mt_cols m. mt_at m 0 (int r) (int c)"
  have "(\<Sum>r < mt_rows m. \<Sum>c < mt_cols m. lo) \<le> ?s" "?s \<le> (\<Sum>r < mt_rows m. \<Sum>c < mt_cols m. hi)"
    using assms(3) by (intro sum_mono; simp)+
  moreover have "0 < real (mt_rows m) * real (mt_cols m)" using assms by simp
  ultimately show ?thesis by (simp add: pixel_mean_def field_simps)
qed

lemma gate_score_documented:
  assumes "documented cv" "byte_image img"
  shows "\<exists>gray. byte_image gray \<and> (mt_channels img \<le> 1 \<longrightarrow> gray = img) \<and>
    gate_score cv img = pixel_mean (gray\<lparr>mt_at := (\<lambda>ch r c. sqrt ((sobel_x gray r c)\<^sup>2 + (sobel_y gray r c)\<^sup>2))\<rparr>) / (255 * sqrt 2)"
  using assms
  by (intro exI [of _ "if mt_channels img > 1 then cvt_gray cv img else img"]) (auto simp: documented_def gate_score_def Let_def)


definition sample_cv :: opencv where
  "sample_cv =
     \<lparr>cvt_gray = (\<lambda>m. m\<lparr>mt_channels := 1\<rparr>),
      sobel3 = (\<lambda>dx dy m. m\<lparr>mt_at := (\<lambda>ch. if dx = 1 then sobel_x m else sobel_y m)\<rparr>),
      magnitude = (\<lambda>x y. x\<lparr>mt_at := (\<lambda>ch r c. sqrt ((mt_at x ch r c)\<^sup>2 + (mt_at y ch r c)\<^sup>2))\<rparr>),
      mean0 = pixel_mean\<rparr>"

text \<open>One row of four pixels: two black, two white.\<close>

definition stripes :: cvmat where
  "stripes = \<lparr>mt_rows = 1, mt_cols = 4, mt_channels = 1, mt_at = (\<lambda>ch r c. if c < 2 then 0 else 255)\<rparr>"

lemma sample_documented: "documented sample_cv" "byte_image stripes"
  by (simp_all add: documented_def sample_cv_def byte_image_def stripes_def)


text \<open>The score is not confined to the range from 0 to 1: a single edge across four pixels scores \<open>sqrt 2\<close>.\<close>

lemma score_above_one: "gate_score sample_cv stripes = sqrt 2" "gate_score sample_cv stripes > 1"
proof -
  have "gate_score sample_cv stripes = 510 / (255 * sqrt 2)"
    by (simp add: gate_score_def sample_cv_def stripes_def pixel_mean_def sobel_x_def sobel_y_def pixel_def mirror_def
        Let_def lessThan_nat_numeral lessThan_Suc numeral_eq_Suc)
  then show "gate_score sample_cv stripes = sqrt 2" by (simp add: real_div_sqrt)
  then show "gate_score sample_cv stripes > 1" by simp
qed

end
