(* ===== verification/Smpc2_Bus.thy ===== *)
theory Smpc2_Bus
  imports Smpc2_Codec Config_Env
begin

text \<open>
  How the engine and the participants of the Shamir protocol talk: the NATS client of the engine
  (\<^verbatim>\<open>iris-engine2/src/nats_client.cpp\<close>), the message bus over it (\<^verbatim>\<open>nats_smpc2_bus.cpp\<close>), and the
  participant programs (\<^verbatim>\<open>smpc2-party/main.cpp\<close>, \<^verbatim>\<open>smpc-party/main.cpp\<close>). The nats.c library is
  a parameter: the status of each call, and what a request returns. The participant service of
  libiris is a parameter too.

  The locale \<open>rpc\<close> is the contract of one request and reply: both codecs read back what they
  wrote, and then a request answered by the handler of the other side returns the handler's
  answer.
\<close>

section \<open>CNatsClient\<close>

text \<open>
  The two handles of the client, and how many of each the library has handed out and not taken
  back.
\<close>

record CNatsClient =
  cn_conn :: bool
  cn_opts :: bool
  cn_url :: string
  cn_live_conns :: int
  cn_live_opts :: int

definition CNatsClient_init :: CNatsClient where
  "CNatsClient_init = \<lparr>cn_conn = False, cn_opts = False, cn_url = [], cn_live_conns = 0, cn_live_opts = 0\<rparr>"

definition natsOptions_Destroy :: "CNatsClient \<Rightarrow> CNatsClient" where
  "natsOptions_Destroy c = c\<lparr>cn_live_opts := cn_live_opts c - 1, cn_opts := False\<rparr>"

definition CNatsClient_disconnect :: "CNatsClient \<Rightarrow> CNatsClient" where
  "CNatsClient_disconnect c =
     (let c = (if cn_conn c then c\<lparr>cn_live_conns := cn_live_conns c - 1, cn_conn := False\<rparr> else c)
      in if cn_opts c then natsOptions_Destroy c else c)"

record NatsTLSConfig =
  ca_cert_path :: string
  cert_path :: string
  key_path :: string

record nats_status =
  st_options :: bool
  st_secure :: bool
  st_ca :: bool
  st_chain :: bool
  st_connect :: bool

text \<open>The part both overloads of \<^verbatim>\<open>connect\<close> begin with: \<open>None\<close> when the options cannot be created.\<close>

definition connect_options :: "nats_status \<Rightarrow> string \<Rightarrow> CNatsClient \<Rightarrow> bool \<times> CNatsClient" where
  "connect_options st url c =
     (let c = (if cn_conn c then CNatsClient_disconnect c else c);
          c = c\<lparr>cn_url := url\<rparr>
      in if st_options st then (True, c\<lparr>cn_opts := True, cn_live_opts := cn_live_opts c + 1\<rparr>) else (False, c))"

definition connect_finish :: "nats_status \<Rightarrow> CNatsClient \<Rightarrow> bool \<times> CNatsClient" where
  "connect_finish st c =
     (if st_connect st then (True, c\<lparr>cn_conn := True, cn_live_conns := cn_live_conns c + 1\<rparr>)
      else (False, natsOptions_Destroy c))"

definition CNatsClient_connect :: "nats_status \<Rightarrow> string \<Rightarrow> CNatsClient \<Rightarrow> bool \<times> CNatsClient" where
  "CNatsClient_connect st url c =
     (let (ok, c) = connect_options st url c in
      if \<not> ok then (False, c) else connect_finish st c)"

definition CNatsClient_connect_tls ::
  "nats_status \<Rightarrow> string \<Rightarrow> NatsTLSConfig \<Rightarrow> CNatsClient \<Rightarrow> bool \<times> CNatsClient" where
  "CNatsClient_connect_tls st url tls c =
     (let (ok, c) = connect_options st url c in
      if \<not> ok then (False, c)
      else if \<not> st_secure st then (False, natsOptions_Destroy c)
      else if ca_cert_path tls \<noteq> [] \<and> \<not> st_ca st then (False, natsOptions_Destroy c)
      else if cert_path tls \<noteq> [] \<and> key_path tls \<noteq> [] \<and> \<not> st_chain st then (False, natsOptions_Destroy c)
      else connect_finish st c)"

definition CNatsClient_is_connected :: "bool \<Rightarrow> CNatsClient \<Rightarrow> bool" where
  "CNatsClient_is_connected status_connected c = (cn_conn c \<and> status_connected)"

text \<open>The library's answers: \<open>Inl text\<close> is a status other than \<^verbatim>\<open>NATS_OK\<close> with its text.\<close>

definition CNatsClient_publish ::
  "(string \<Rightarrow> bytes \<Rightarrow> string + unit) \<Rightarrow> CNatsClient \<Rightarrow> string \<Rightarrow> bytes \<Rightarrow> unit Result" where
  "CNatsClient_publish net c subject payload =
     (if \<not> cn_conn c then make_error IoFailed ''NATS client not connected''
      else case net subject payload of
        Inl text \<Rightarrow> make_error IoFailed (''NATS publish failed: '' @ text)
      | Inr _ \<Rightarrow> Inr ())"

definition CNatsClient_request ::
  "(string \<Rightarrow> bytes \<Rightarrow> string + bytes) \<Rightarrow> CNatsClient \<Rightarrow> string \<Rightarrow> bytes \<Rightarrow> bytes Result" where
  "CNatsClient_request net c subject payload =
     (if \<not> cn_conn c then make_error IoFailed ''NATS client not connected''
      else case net subject payload of
        Inl text \<Rightarrow> make_error IoFailed (''NATS request failed: '' @ text)
      | Inr reply \<Rightarrow> Inr reply)"

section \<open>NatsSMPC2Bus\<close>

definition share_subject :: "string \<Rightarrow> string \<Rightarrow> string" where
  "share_subject prefix pid = prefix @ ''.party.'' @ pid @ ''.share_sync''"

definition match_subject :: "string \<Rightarrow> string \<Rightarrow> string" where
  "match_subject prefix pid = prefix @ ''.party.'' @ pid @ ''.match''"

definition publish_share_sync ::
  "(string \<Rightarrow> bytes \<Rightarrow> unit Result) \<Rightarrow> string \<Rightarrow> ShamirShareSyncJob \<Rightarrow> unit Result" where
  "publish_share_sync client_publish prefix job =
     (case encode_shamir_share_sync_job job of
        Inl e \<Rightarrow> Inl e
      | Inr payload \<Rightarrow> client_publish (share_subject prefix (to_string (unat (ssj_participant_id job)))) payload)"

definition request_match ::
  "(string \<Rightarrow> bytes \<Rightarrow> bytes Result) \<Rightarrow> string \<Rightarrow> ShamirMatchJob \<Rightarrow> ShamirMatchResponse Result" where
  "request_match client_request prefix job =
     (case encode_shamir_match_job job of
        Inl e \<Rightarrow> Inl e
      | Inr payload \<Rightarrow>
          (case client_request (match_subject prefix (to_string (unat (smj_participant_id job)))) payload of
             Inl e \<Rightarrow> Inl e
           | Inr resp_payload \<Rightarrow> decode_shamir_match_response resp_payload))"

section \<open>The Shamir participant\<close>

text \<open>
  \<open>handle_share_sync\<close> and \<open>handle_match\<close> are the service of libiris on its state. A handler
  returns the messages it publishes and the new state of the service.
\<close>

definition on_share_sync ::
  "(ShamirShareSyncJob \<Rightarrow> 's \<Rightarrow> unit Result \<times> 's) \<Rightarrow> bytes \<Rightarrow> 's \<Rightarrow> (string \<times> bytes) list \<times> 's" where
  "on_share_sync handle payload svc =
     (case decode_shamir_share_sync_job payload of
        Inl e \<Rightarrow> ([], svc)
      | Inr job \<Rightarrow> (case handle job svc of (result, svc) \<Rightarrow> ([], svc)))"

definition publish_reply :: "string option \<Rightarrow> bytes \<Rightarrow> (string \<times> bytes) list" where
  "publish_reply reply_to body =
     (case reply_to of None \<Rightarrow> [] | Some r \<Rightarrow> if r = [] then [] else [(r, body)])"

definition on_match ::
  "(ShamirMatchJob \<Rightarrow> 's \<Rightarrow> ShamirMatchResponse Result \<times> 's) \<Rightarrow> bytes \<Rightarrow> string option \<Rightarrow> 's \<Rightarrow>
   (string \<times> bytes) list \<times> 's" where
  "on_match handle payload reply_to svc =
     (case decode_shamir_match_job payload of
        Inl e \<Rightarrow> ([], svc)
      | Inr job \<Rightarrow>
          (case handle job svc of
             (Inl e, svc) \<Rightarrow> ([], svc)
           | (Inr resp, svc) \<Rightarrow>
               (case encode_shamir_match_response resp of
                  Inl e \<Rightarrow> ([], svc)
                | Inr enc \<Rightarrow> (publish_reply reply_to enc, svc))))"

record PartyConfig =
  pc_party_id :: int
  pc_nats_url :: string
  pc_prefix :: string
  pc_tls_dir :: string

definition PartyConfig_from_env :: "environment \<Rightarrow> PartyConfig" where
  "PartyConfig_from_env env =
     \<lparr>pc_party_id = env_atoi env ''PARTY_ID'' 1,
      pc_nats_url = env_text env ''NATS_URL'' ''nats://localhost:4222'',
      pc_prefix = env_text env ''NATS_SUBJECT_PREFIX'' ''smpc2'',
      pc_tls_dir = env_text env ''TLS_CERT_DIR'' []\<rparr>"

text \<open>
  \<^verbatim>\<open>main\<close>: the exit code, the identity the service is created with, and while it serves the
  subjects of its two subscriptions (\<open>None\<close> when it returns before). The statuses of the option
  setters, those of TLS included, are not looked at.
\<close>

definition party_subjects :: "PartyConfig \<Rightarrow> string \<times> string" where
  "party_subjects pc =
     (share_subject (pc_prefix pc) (to_string_int (pc_party_id pc)),
      match_subject (pc_prefix pc) (to_string_int (pc_party_id pc)))"

definition party2_main :: "bool \<Rightarrow> (string \<Rightarrow> bool) \<Rightarrow> environment \<Rightarrow> int \<times> u8 \<times> (string \<times> string) option" where
  "party2_main connect_ok sub_ok env =
     (let pc = PartyConfig_from_env env;
          service_id = of_int (pc_party_id pc);
          (share_subj, match_subj) = party_subjects pc
      in if \<not> connect_ok then (1, service_id, None)
         else if \<not> sub_ok share_subj then (1, service_id, None)
         else if \<not> sub_ok match_subj then (1, service_id, None)
         else (0, service_id, Some (share_subj, match_subj)))"

section \<open>The participant of the three-party protocol\<close>

text \<open>
  \<^verbatim>\<open>smpc-party/main.cpp\<close> has the same handlers over the codec of libiris, which is a parameter:
  \<open>dec\<close> and \<open>enc\<close>. \<open>participant_on_reply\<close> is both \<^verbatim>\<open>on_match\<close> and \<^verbatim>\<open>on_batch_match\<close>.
\<close>

definition participant_on_share_sync ::
  "(bytes \<Rightarrow> 'j Result) \<Rightarrow> ('j \<Rightarrow> 's \<Rightarrow> unit Result \<times> 's) \<Rightarrow> bytes \<Rightarrow> 's \<Rightarrow> (string \<times> bytes) list \<times> 's" where
  "participant_on_share_sync dec handle payload svc =
     (case dec payload of
        Inl e \<Rightarrow> ([], svc)
      | Inr job \<Rightarrow> (case handle job svc of (result, svc) \<Rightarrow> ([], svc)))"

definition participant_on_reply ::
  "(bytes \<Rightarrow> 'j Result) \<Rightarrow> ('r \<Rightarrow> bytes Result) \<Rightarrow> ('j \<Rightarrow> 's \<Rightarrow> 'r Result \<times> 's) \<Rightarrow> bytes \<Rightarrow> string option \<Rightarrow> 's \<Rightarrow>
   (string \<times> bytes) list \<times> 's" where
  "participant_on_reply dec enc handle payload reply_to svc =
     (case dec payload of
        Inl e \<Rightarrow> ([], svc)
      | Inr job \<Rightarrow>
          (case handle job svc of
             (Inl e, svc) \<Rightarrow> ([], svc)
           | (Inr resp, svc) \<Rightarrow>
               (case enc resp of
                  Inl e \<Rightarrow> ([], svc)
                | Inr body \<Rightarrow> (publish_reply reply_to body, svc))))"

datatype participant_service = StandardService u8 | ShardedService u8 u8 nat

record ParticipantConfig =
  pp_party_id :: int
  pp_nats_url :: string
  pp_prefix :: string
  pp_shard_id :: int
  pp_total_shards :: int
  pp_tls_cert_dir :: string

definition ParticipantConfig_from_env :: "environment \<Rightarrow> ParticipantConfig" where
  "ParticipantConfig_from_env env =
     \<lparr>pp_party_id = env_atoi env ''PARTY_ID'' 1,
      pp_nats_url = env_text env ''NATS_URL'' ''nats://localhost:4222'',
      pp_prefix = env_text env ''NATS_SUBJECT_PREFIX'' ''smpc'',
      pp_shard_id = env_atoi env ''SHARD_ID'' 0,
      pp_total_shards = env_atoi env ''TOTAL_SHARDS'' 0,
      pp_tls_cert_dir = env_text env ''TLS_CERT_DIR'' []\<rparr>"

definition participant_service_of :: "ParticipantConfig \<Rightarrow> participant_service" where
  "participant_service_of pc =
     (if pp_total_shards pc > 0
      then ShardedService (of_int (pp_party_id pc)) (of_int (pp_shard_id pc)) (nat (pp_total_shards pc))
      else StandardService (of_int (pp_party_id pc)))"

definition participant_subjects :: "ParticipantConfig \<Rightarrow> string list" where
  "participant_subjects pc =
     map (\<lambda>kind. pp_prefix pc @ ''.participant.'' @ to_string_int (pp_party_id pc) @ kind)
       [''.share_sync'', ''.match'', ''.batch_match'']"

fun subscribe_in_order :: "(string \<Rightarrow> bool) \<Rightarrow> string list \<Rightarrow> bool" where
  "subscribe_in_order sub_ok [] = True"
| "subscribe_in_order sub_ok (s # ss) = (if \<not> sub_ok s then False else subscribe_in_order sub_ok ss)"

definition participant_main ::
  "nats_status \<Rightarrow> (string \<Rightarrow> bool) \<Rightarrow> environment \<Rightarrow> int \<times> participant_service \<times> string list option" where
  "participant_main st sub_ok env =
     (let pc = ParticipantConfig_from_env env; svc = participant_service_of pc in
      if \<not> st_options st then (1, svc, None)
      else if pp_tls_cert_dir pc \<noteq> [] \<and> \<not> st_secure st then (1, svc, None)
      else if pp_tls_cert_dir pc \<noteq> [] \<and> \<not> st_ca st then (1, svc, None)
      else if pp_tls_cert_dir pc \<noteq> [] \<and> \<not> st_chain st then (1, svc, None)
      else if \<not> st_connect st then (1, svc, None)
      else if \<not> subscribe_in_order sub_ok (participant_subjects pc) then (1, svc, None)
      else (0, svc, Some (participant_subjects pc)))"

section \<open>Handles are not leaked\<close>

text \<open>The client owns one connection and one option handle, both or neither.\<close>

definition handles_ok :: "CNatsClient \<Rightarrow> bool" where
  "handles_ok c \<longleftrightarrow> cn_live_conns c = of_bool (cn_conn c) \<and> cn_live_opts c = of_bool (cn_opts c) \<and> cn_conn c = cn_opts c"

datatype client_call = Connect nats_status string | ConnectTls nats_status string NatsTLSConfig | Disconnect

fun client_step :: "client_call \<Rightarrow> CNatsClient \<Rightarrow> CNatsClient" where
  "client_step (Connect st url) c = snd (CNatsClient_connect st url c)"
| "client_step (ConnectTls st url tls) c = snd (CNatsClient_connect_tls st url tls c)"
| "client_step Disconnect c = CNatsClient_disconnect c"

lemmas client_defs = CNatsClient_connect_def CNatsClient_connect_tls_def CNatsClient_disconnect_def connect_options_def
  connect_finish_def natsOptions_Destroy_def handles_ok_def

lemma client_step_handles: "handles_ok c \<Longrightarrow> handles_ok (client_step call c)"
  by (cases call; cases c) (auto simp: client_defs Let_def)

interpretation client_handles: step_machine client_step handles_ok
  by unfold_locales (rule client_step_handles)

lemma client_init_handles [simp]: "handles_ok CNatsClient_init"
  by (simp add: handles_ok_def CNatsClient_init_def)

lemma disconnect_frees: "handles_ok c \<Longrightarrow> cn_live_conns (CNatsClient_disconnect c) = 0 \<and> cn_live_opts (CNatsClient_disconnect c) = 0"
  by (cases c) (auto simp: client_defs Let_def)

text \<open>
  However a client is connected (with or without TLS, whichever call of the library fails)
  and disconnected, it never holds more handles than its fields show, a failed connection leaves
  none behind, and disconnecting, as its destructor does, gives every handle back.
\<close>

theorem nats_client_handles:
  "let c = fold client_step calls CNatsClient_init in
     cn_live_conns c = of_bool (cn_conn c) \<and> cn_live_opts c = of_bool (cn_conn c) \<and>
     cn_live_conns (CNatsClient_disconnect c) = 0 \<and> cn_live_opts (CNatsClient_disconnect c) = 0"
proof -
  have ok: "handles_ok (fold client_step calls CNatsClient_init)"
    by (rule client_handles.run_keeps) simp
  then show ?thesis
    using disconnect_frees[OF ok] by (simp add: Let_def handles_ok_def)
qed

section \<open>A request and its answer\<close>

locale rpc =
  fixes enc_req :: "'q \<Rightarrow> bytes Result" and dec_req :: "bytes \<Rightarrow> 'q Result" and wf_req :: "'q \<Rightarrow> bool"
    and enc_resp :: "'r \<Rightarrow> bytes Result" and dec_resp :: "bytes \<Rightarrow> 'r Result" and wf_resp :: "'r \<Rightarrow> bool"
  assumes req_back: "wf_req q \<Longrightarrow> \<exists>p. enc_req q = Inr p \<and> dec_req p = Inr q"
    and resp_back: "wf_resp r \<Longrightarrow> \<exists>p. enc_resp r = Inr p \<and> dec_resp p = Inr r"
begin

lemma answered:
  assumes "wf_req q" "handle q svc = (Inr r, svc')" "wf_resp r" "inbox \<noteq> []"
  shows "\<exists>p b. enc_req q = Inr p \<and> participant_on_reply dec_req enc_resp handle p (Some inbox) svc = ([(inbox, b)], svc') \<and>
               dec_resp b = Inr r"
  using req_back[OF assms(1)] resp_back[OF assms(3)] assms(2,4)
  by (auto simp: participant_on_reply_def publish_reply_def)

lemma unanswered:
  assumes "wf_req q" "handle q svc = (Inl e, svc')"
  shows "\<exists>p. enc_req q = Inr p \<and> participant_on_reply dec_req enc_resp handle p reply_to svc = ([], svc')"
  using req_back[OF assms(1)] assms(2) by (auto simp: participant_on_reply_def)

end

interpretation shamir_match: rpc encode_shamir_match_job decode_shamir_match_job wf_match_job
  encode_shamir_match_response decode_shamir_match_response wf_match_response
  by unfold_locales
    (auto simp: decode_match_job_iff decode_match_response_iff encode_shamir_match_job_def encode_shamir_match_response_def)

lemma on_match_participant: "on_match = participant_on_reply decode_shamir_match_job encode_shamir_match_response"
  by (intro ext) (simp add: on_match_def participant_on_reply_def)

lemma share_sync_delivered:
  assumes "wf_sync_job job"
  shows "\<exists>p. encode_shamir_share_sync_job job = Inr p \<and> on_share_sync handle p svc = ([], snd (handle job svc))"
proof -
  obtain p where p: "encode_shamir_share_sync_job job = Inr p"
    by (auto simp: encode_shamir_share_sync_job_def)
  then have "decode_shamir_share_sync_job p = Inr job"
    using assms by (auto simp: decode_sync_job_iff)
  with p show ?thesis by (auto simp: on_share_sync_def split: prod.splits)
qed

lemma party_subjects_match:
  assumes "env ''PARTY_ID'' = Some (to_string (unat pid))" "env ''NATS_SUBJECT_PREFIX'' = Some prefix"
    and "party2_main True sub_ok env = (0, sid, Some (share_subj, match_subj))"
  shows "sid = (pid :: u8) \<and> share_subj = share_subject prefix (to_string (unat pid)) \<and>
         match_subj = match_subject prefix (to_string (unat pid))"
  using assms
  by (auto simp: party2_main_def PartyConfig_from_env_def env_atoi_def env_text_def party_subjects_def to_string_int_def
      Let_def split: if_splits)

text \<open>What NATS does with a request: the subscriber's first reply comes back, or none in time.\<close>

definition first_reply :: "(string \<times> bytes) list \<Rightarrow> string + bytes" where
  "first_reply out = (case out of [] \<Rightarrow> Inl ''Timeout'' | (to, b) # _ \<Rightarrow> Inr b)"

text \<open>
  C31. When a participant serves the identity a job names under the prefix of the bus, the
  coordinator's request returns exactly what the participant's service answers (an input/output
  error if the service fails), and a share the coordinator publishes reaches the service as the
  job that was published.
\<close>

theorem smpc2_bus_end_to_end:
  assumes "wf_match_job job" "wf_sync_job sync" "ssj_participant_id sync = smj_participant_id job"
    and "\<forall>r. fst (handle_match job svc) = Inr r \<longrightarrow> wf_match_response r"
    and "env ''PARTY_ID'' = Some (to_string (unat (smj_participant_id job)))" "env ''NATS_SUBJECT_PREFIX'' = Some prefix"
    and "party2_main True sub_ok env = (0, sid, Some (share_subj, match_subj))"
    and "\<forall>p. net match_subj p = first_reply (fst (on_match handle_match p (Some inbox) svc))" "inbox \<noteq> []" "cn_conn c"
  shows "sid = smj_participant_id job \<and>
         request_match (CNatsClient_request net c) prefix job =
           (case fst (handle_match job svc) of
              Inr r \<Rightarrow> Inr r
            | Inl e \<Rightarrow> make_error IoFailed ''NATS request failed: Timeout'') \<and>
         (\<exists>payload. publish_share_sync pub prefix sync = pub share_subj payload \<and>
            on_share_sync handle_share payload svc = ([], snd (handle_share sync svc)))"
proof (intro conjI)
  have subj: "sid = smj_participant_id job" "share_subj = share_subject prefix (to_string (unat (smj_participant_id job)))"
    "match_subj = match_subject prefix (to_string (unat (smj_participant_id job)))"
    using party_subjects_match[OF assms(5-7)] by auto
  show "sid = smj_participant_id job" by (rule subj(1))
  obtain res svc' where h: "handle_match job svc = (res, svc')" by fastforce
  show "request_match (CNatsClient_request net c) prefix job =
      (case fst (handle_match job svc) of
         Inr r \<Rightarrow> Inr r | Inl e \<Rightarrow> make_error IoFailed ''NATS request failed: Timeout'')"
  proof (cases res)
    case (Inl e)
    from shamir_match.unanswered[of job handle_match svc e svc' "Some inbox"] assms(1,8,10) h Inl show ?thesis
      by (auto simp: request_match_def CNatsClient_request_def subj(3) on_match_participant first_reply_def make_error_def)
  next
    case (Inr r)
    from shamir_match.answered[of job handle_match svc r svc' inbox] assms(1,4,8-10) h Inr show ?thesis
      by (auto simp: request_match_def CNatsClient_request_def subj(3) on_match_participant first_reply_def)
  qed
  show "\<exists>payload. publish_share_sync pub prefix sync = pub share_subj payload \<and>
      on_share_sync handle_share payload svc = ([], snd (handle_share sync svc))"
    using share_sync_delivered[OF assms(2), of handle_share svc] assms(3) by (auto simp: publish_share_sync_def subj(2))
qed

definition party_env :: environment where
  "party_env = [''PARTY_ID'' \<mapsto> to_string 3, ''NATS_SUBJECT_PREFIX'' \<mapsto> ''smpc2'']"

definition sample_job :: ShamirMatchJob where
  "sample_job = \<lparr>smj_participant_id = 3, smj_probe_share = sample_share 3\<rparr>"

definition sample_sync :: ShamirShareSyncJob where
  "sample_sync = \<lparr>ssj_subject_id = ''alice'', ssj_participant_id = 3, ssj_share = sample_share 3\<rparr>"

definition sample_service :: "ShamirMatchJob \<Rightarrow> nat \<Rightarrow> ShamirMatchResponse Result \<times> nat" where
  "sample_service job n =
     (Inr \<lparr>smr_participant_id = smj_participant_id job,
           smr_rows = [\<lparr>row_subject_id = ''alice'', row_xor_share = smj_probe_share job\<rparr>]\<rparr>, n)"

theorem smpc2_bus_end_to_end_witness:
  "request_match
     (CNatsClient_request (\<lambda>subj p. first_reply (fst (on_match sample_service p (Some ''inbox'') 0)))
        \<lparr>cn_conn = True, cn_opts = True, cn_url = [], cn_live_conns = 1, cn_live_opts = 1\<rparr>) ''smpc2'' sample_job =
   Inr \<lparr>smr_participant_id = 3, smr_rows = [\<lparr>row_subject_id = ''alice'', row_xor_share = sample_share 3\<rparr>]\<rparr>"
proof -
  have wf: "wf_match_job sample_job" "wf_sync_job sample_sync" "ssj_participant_id sample_sync = smj_participant_id sample_job"
    "\<forall>r. fst (sample_service sample_job 0) = Inr r \<longrightarrow> wf_match_response r"
    by (auto simp: sample_job_def sample_sync_def sample_service_def wf_match_job_def wf_sync_job_def wf_match_response_def
        wf_row_def wf_share_def wf_string_def sample_share_def)
  have env: "party_env ''PARTY_ID'' = Some (to_string (unat (smj_participant_id sample_job)))"
    "party_env ''NATS_SUBJECT_PREFIX'' = Some ''smpc2''"
    by (simp_all add: party_env_def sample_job_def)
  obtain sid a b where party: "party2_main True (\<lambda>s. True) party_env = (0, sid, Some (a, b))"
    by (simp add: party2_main_def party_subjects_def Let_def)
  show ?thesis
    using smpc2_bus_end_to_end[of sample_job sample_sync sample_service 0 party_env "''smpc2''" "\<lambda>s. True" sid a b
        "\<lambda>subj p. first_reply (fst (on_match sample_service p (Some ''inbox'') 0))" "''inbox''"
        "\<lparr>cn_conn = True, cn_opts = True, cn_url = [], cn_live_conns = 1, cn_live_opts = 1\<rparr>" "\<lambda>s p. Inr ()" "\<lambda>j n. (Inr (), n)"]
      wf env party
    by (simp add: sample_service_def sample_job_def)
qed

end
