(* ===== verification/Smpc_Manager.thy ===== *)
theory Smpc_Manager
  imports Smpc2_Bus
begin

text \<open>
  The two managers of secure matching in the engine: \<^verbatim>\<open>SMPCManager\<close> for the three-party protocol
  (\<^verbatim>\<open>smpc.cpp\<close>, \<^verbatim>\<open>smpc_distributed.cpp\<close>) and \<^verbatim>\<open>SMPC2Manager\<close> for the Shamir protocol
  (\<^verbatim>\<open>smpc2_manager.cpp\<close>). The galleries and coordinators of libiris are parameters: how each is
  created, and its operations on its state of type \<open>'o\<close>; \<open>'t\<close> is an iris template.
\<close>

record ('t, 'o) smpc_lib =
  lg_new :: 'o
  lg_add_template :: "string \<Rightarrow> 't \<Rightarrow> 'o \<Rightarrow> unit Result \<times> 'o"
  lg_remove_template :: "string \<Rightarrow> 'o \<Rightarrow> 'o"
  lg_match_probe :: "'t \<Rightarrow> 'o \<Rightarrow> (double \<times> int) list Result"
  co_new :: "int \<Rightarrow> 'o"
  co_enroll :: "string \<Rightarrow> 't \<Rightarrow> 'o \<Rightarrow> unit Result \<times> 'o"
  co_verify :: "'t \<Rightarrow> 'o \<Rightarrow> (string \<times> double) list Result"
  co_size :: "'o \<Rightarrow> nat"
  pl_new :: "int \<Rightarrow> nat \<Rightarrow> 'o"
  pl_verify_sync :: "'t \<Rightarrow> 'o \<Rightarrow> (string \<times> double) Result"
  sh_new :: "int \<Rightarrow> nat \<Rightarrow> 'o"
  sh_enroll :: "string \<Rightarrow> 't \<Rightarrow> 'o \<Rightarrow> unit Result \<times> 'o"
  sh_verify :: "'t \<Rightarrow> 'o \<Rightarrow> (string \<times> double) list Result"
  sh_total_gallery_size :: "'o \<Rightarrow> nat"
  tls_create :: "NatsTLSConfig \<Rightarrow> NatsTLSConfig Result"

section \<open>SMPCManager\<close>

record SMPCSecurityConfig =
  tls_cert_dir :: string
  audit_log_path :: string
  security_monitor_enabled :: bool

datatype audit_event =
    ServiceStartup string
  | Enrollment string bool string
  | Verification string bool double string

record 'o SMPCManager =
  sm_mode :: string
  sm_active :: bool
  sm_gallery :: "'o option"
  sm_nats_client :: "CNatsClient option"
  sm_bus :: bool
  sm_coordinator :: "'o option"
  sm_pipelined :: "'o option"
  sm_sharded :: "'o option"
  sm_pipeline_depth :: int
  sm_shards_per_participant :: int
  sm_security :: SMPCSecurityConfig
  sm_tls_context :: "NatsTLSConfig option"
  sm_monitor :: bool
  sm_health :: "(nat \<times> nat) option"
  sm_audit :: "audit_event list"

definition SMPCManager_new :: "'o SMPCManager" where
  "SMPCManager_new =
     \<lparr>sm_mode = [], sm_active = False, sm_gallery = None, sm_nats_client = None, sm_bus = False,
      sm_coordinator = None, sm_pipelined = None, sm_sharded = None, sm_pipeline_depth = 0,
      sm_shards_per_participant = 0,
      sm_security = \<lparr>tls_cert_dir = [], audit_log_path = [], security_monitor_enabled = False\<rparr>,
      sm_tls_context = None, sm_monitor = False, sm_health = None, sm_audit = []\<rparr>"

definition coordinator_certs :: "string \<Rightarrow> NatsTLSConfig" where
  "coordinator_certs dir =
     \<lparr>ca_cert_path = dir @ ''/ca.crt'', cert_path = dir @ ''/coordinator.crt'', key_path = dir @ ''/coordinator.key''\<rparr>"

definition init_security ::
  "('t, 'o) smpc_lib \<Rightarrow> SMPCSecurityConfig \<Rightarrow> 'o SMPCManager \<Rightarrow> bool \<times> 'o SMPCManager" where
  "init_security lib security m =
     (let m = m\<lparr>sm_security := security\<rparr>;
          m = (if audit_log_path security \<noteq> []
               then m\<lparr>sm_audit := sm_audit m @ [ServiceStartup (''SMPC service starting (mode='' @ sm_mode m @ '')'')]\<rparr>
               else m);
          monitored = (\<lambda>m. if security_monitor_enabled security
                           then m\<lparr>sm_monitor := True, sm_health := Some (0, 0)\<rparr> else m)
      in if tls_cert_dir security \<noteq> []
         then case tls_create lib (coordinator_certs (tls_cert_dir security)) of
                Inl e \<Rightarrow> (False, m)
              | Inr ctx \<Rightarrow> (True, monitored (m\<lparr>sm_tls_context := Some ctx\<rparr>))
         else (True, monitored m))"

definition init_distributed ::
  "('t, 'o) smpc_lib \<Rightarrow> nats_status \<Rightarrow> string \<Rightarrow> int \<Rightarrow> int \<Rightarrow> int \<Rightarrow> 'o SMPCManager \<Rightarrow> bool \<times> 'o SMPCManager" where
  "init_distributed lib st nats_url num_parties pipeline_depth shards m =
     (if nats_url = [] then (False, m)
      else
        let (connected, client) =
              (case sm_tls_context m of
                 Some cfg \<Rightarrow> CNatsClient_connect_tls st nats_url cfg CNatsClient_init
               | None \<Rightarrow> CNatsClient_connect st nats_url CNatsClient_init)
        in if \<not> connected then (False, m\<lparr>sm_nats_client := None\<rparr>)
           else
             let m = m\<lparr>sm_nats_client := Some client, sm_bus := True, sm_pipeline_depth := pipeline_depth,
                       sm_shards_per_participant := shards\<rparr>
             in if shards > 0
                then (True, m\<lparr>sm_sharded := Some (sh_new lib num_parties (nat shards))\<rparr>)
                else
                  let m = m\<lparr>sm_coordinator := Some (co_new lib num_parties)\<rparr>
                  in (True, if pipeline_depth > 0
                            then m\<lparr>sm_pipelined := Some (pl_new lib num_parties (nat pipeline_depth))\<rparr>
                            else m))"

definition SMPCManager_initialize ::
  "('t, 'o) smpc_lib \<Rightarrow> nats_status \<Rightarrow> string \<Rightarrow> string \<Rightarrow> int \<Rightarrow> int \<Rightarrow> int \<Rightarrow> SMPCSecurityConfig \<Rightarrow>
   'o SMPCManager \<Rightarrow> bool \<times> 'o SMPCManager" where
  "SMPCManager_initialize lib st mode nats_url num_parties pipeline_depth shards security m =
     (if mode \<noteq> ''simulated'' \<and> mode \<noteq> ''distributed'' then (False, m)
      else if num_parties \<noteq> 3 then (False, m)
      else
        let (ok, m) = init_security lib security (m\<lparr>sm_mode := mode\<rparr>)
        in if \<not> ok then (False, m)
           else if mode = ''simulated'' then (True, m\<lparr>sm_gallery := Some (lg_new lib), sm_active := True\<rparr>)
           else
             let (ok, m) = init_distributed lib st nats_url num_parties pipeline_depth shards m
             in if \<not> ok then (False, m) else (True, m\<lparr>sm_active := True\<rparr>))"

definition SMPCManager_is_distributed :: "'o SMPCManager \<Rightarrow> bool" where
  "SMPCManager_is_distributed m = (sm_active m \<and> sm_mode m = ''distributed'')"

definition tls_enabled :: "'o SMPCManager \<Rightarrow> bool" where
  "tls_enabled m = (sm_tls_context m \<noteq> None)"

definition audit_enabled :: "'o SMPCManager \<Rightarrow> bool" where
  "audit_enabled m = (audit_log_path (sm_security m) \<noteq> [])"

definition is_nats_connected :: "bool \<Rightarrow> 'o SMPCManager \<Rightarrow> bool" where
  "is_nats_connected status m =
     (case sm_nats_client m of None \<Rightarrow> False | Some c \<Rightarrow> CNatsClient_is_connected status c)"

definition security_status :: "string \<Rightarrow> 'o SMPCManager \<Rightarrow> string" where
  "security_status report m = (if \<not> sm_monitor m then [] else report)"

definition destroy_distributed :: "'o SMPCManager \<Rightarrow> 'o SMPCManager" where
  "destroy_distributed m =
     m\<lparr>sm_sharded := None, sm_pipelined := None, sm_coordinator := None, sm_bus := False, sm_nats_client := None\<rparr>"

definition record_health :: "'a Result \<Rightarrow> 'o SMPCManager \<Rightarrow> 'o SMPCManager" where
  "record_health r m =
     (case sm_health m of
        None \<Rightarrow> m
      | Some (s, f) \<Rightarrow> m\<lparr>sm_health := Some (if has_value r then (s + 1, f) else (s, f + 1))\<rparr>)"

definition audited :: "audit_event \<Rightarrow> 'o SMPCManager \<Rightarrow> 'o SMPCManager" where
  "audited ev m = (if audit_log_path (sm_security m) \<noteq> [] then m\<lparr>sm_audit := sm_audit m @ [ev]\<rparr> else m)"

definition enroll_distributed ::
  "('t, 'o) smpc_lib \<Rightarrow> string \<Rightarrow> 't \<Rightarrow> 'o SMPCManager \<Rightarrow> unit Result \<times> 'o SMPCManager" where
  "enroll_distributed lib subject_id tmpl m =
     (let finish = (\<lambda>result m.
            (result, record_health result
               (audited (Enrollment subject_id (has_value result)
                  (case result of Inl e \<Rightarrow> err_message e | Inr _ \<Rightarrow> [])) m)))
      in case sm_sharded m of
           Some sh \<Rightarrow> (case sh_enroll lib subject_id tmpl sh of
                         (result, sh) \<Rightarrow> finish result (m\<lparr>sm_sharded := Some sh\<rparr>))
         | None \<Rightarrow>
             (case sm_coordinator m of
                Some co \<Rightarrow> (case co_enroll lib subject_id tmpl co of
                              (result, co) \<Rightarrow> finish result (m\<lparr>sm_coordinator := Some co\<rparr>))
              | None \<Rightarrow> (make_error ConfigInvalid ''Coordinator not initialized'', m)))"

definition audit_verification :: "(string \<times> double) list Result \<Rightarrow> 'o SMPCManager \<Rightarrow> 'o SMPCManager" where
  "audit_verification result m =
     (case result of
        Inr [] \<Rightarrow> m
      | Inr ((sid, d) # _) \<Rightarrow> audited (Verification sid True d []) m
      | Inl e \<Rightarrow> audited (Verification [] False 1 (err_message e)) m)"

definition verify_distributed ::
  "('t, 'o) smpc_lib \<Rightarrow> 't \<Rightarrow> 'o SMPCManager \<Rightarrow> (string \<times> double) list Result \<times> 'o SMPCManager" where
  "verify_distributed lib probe m =
     (let finish = (\<lambda>result. (result, record_health result (audit_verification result m)))
      in case sm_sharded m of
           Some sh \<Rightarrow> finish (sh_verify lib probe sh)
         | None \<Rightarrow>
             (case sm_pipelined m of
                Some pl \<Rightarrow> finish (case pl_verify_sync lib probe pl of Inl e \<Rightarrow> Inl e | Inr row \<Rightarrow> Inr [row])
              | None \<Rightarrow>
                  (case sm_coordinator m of
                     Some co \<Rightarrow> finish (co_verify lib probe co)
                   | None \<Rightarrow> (make_error ConfigInvalid ''Coordinator not initialized'', m))))"

definition coordinator_size :: "('t, 'o) smpc_lib \<Rightarrow> 'o SMPCManager \<Rightarrow> nat" where
  "coordinator_size lib m =
     (case sm_sharded m of
        Some sh \<Rightarrow> sh_total_gallery_size lib sh
      | None \<Rightarrow> (case sm_coordinator m of Some co \<Rightarrow> co_size lib co | None \<Rightarrow> 0))"

record MigrationStats =
  ms_total :: nat
  ms_succeeded :: nat
  ms_failed :: nat

definition count_migration :: "bool \<Rightarrow> MigrationStats \<Rightarrow> MigrationStats" where
  "count_migration ok st = (if ok then st\<lparr>ms_succeeded := ms_succeeded st + 1\<rparr> else st\<lparr>ms_failed := ms_failed st + 1\<rparr>)"

definition migrate_one ::
  "('t, 'o) smpc_lib \<Rightarrow> string \<times> 't \<Rightarrow> MigrationStats \<times> 'o SMPCManager \<Rightarrow> MigrationStats \<times> 'o SMPCManager" where
  "migrate_one lib = (\<lambda>(subject_id, tmpl) (st, m).
     case (if sm_mode m = ''simulated'' then sm_gallery m else None) of
       Some g \<Rightarrow> (case lg_add_template lib subject_id tmpl g of
                    (r, g) \<Rightarrow> (count_migration (has_value r) st, m\<lparr>sm_gallery := Some g\<rparr>))
     | None \<Rightarrow>
         if SMPCManager_is_distributed m
         then (case enroll_distributed lib subject_id tmpl m of
                 (r, m) \<Rightarrow> (count_migration (has_value r) st, m))
         else (count_migration False st, m))"

definition migrate_templates ::
  "('t, 'o) smpc_lib \<Rightarrow> (string \<times> 't) list \<Rightarrow> 'o SMPCManager \<Rightarrow> MigrationStats \<times> 'o SMPCManager" where
  "migrate_templates lib templates m =
     fold (migrate_one lib) templates (\<lparr>ms_total = length templates, ms_succeeded = 0, ms_failed = 0\<rparr>, m)"

section \<open>SMPC2Manager\<close>

record SMPCConfig =
  total_parties :: u8
  party_threshold :: u8
  store_count :: u8

record ('t, 'o) smpc2_lib =
  register_participant :: "nat \<Rightarrow> bool"
  c2_new :: "SMPCConfig \<Rightarrow> 'o"
  c2_enroll :: "string \<Rightarrow> 't \<Rightarrow> 'o \<Rightarrow> unit Result \<times> 'o"
  c2_verify :: "'t \<Rightarrow> 'o \<Rightarrow> (string \<times> double \<times> bool) list Result"
  c2_size :: "'o \<Rightarrow> nat"

datatype smpc2_bus = InMemoryBus "nat list" | NatsBus string

record 'o SMPC2Manager =
  s2_active :: bool
  s2_mode :: string
  s2_nats_client :: "CNatsClient option"
  s2_bus :: "smpc2_bus option"
  s2_coordinator :: "(SMPCConfig \<times> 'o) option"

definition SMPC2Manager_new :: "'o SMPC2Manager" where
  "SMPC2Manager_new = \<lparr>s2_active = False, s2_mode = [], s2_nats_client = None, s2_bus = None, s2_coordinator = None\<rparr>"

definition clamp :: "int \<Rightarrow> int \<Rightarrow> int \<Rightarrow> int" where
  "clamp v lo hi = (if v < lo then lo else if hi < v then hi else v)"

definition smpc2_config :: "int \<Rightarrow> SMPCConfig" where
  "smpc2_config n =
     (let total = of_int (clamp n 3 15);
          k = of_int ((uint total + 1) div 2);
          k = (if k < 2 then 2 else k)
      in \<lparr>total_parties = total, party_threshold = k, store_count = k\<rparr>)"

definition SMPC2Manager_init ::
  "('t, 'o) smpc2_lib \<Rightarrow> nats_status \<Rightarrow> string \<Rightarrow> string \<Rightarrow> int \<Rightarrow> string \<Rightarrow> 'o SMPC2Manager \<Rightarrow> bool \<times> 'o SMPC2Manager" where
  "SMPC2Manager_init lib st mode nats_url parties certs m =
     (let m = m\<lparr>s2_mode := mode\<rparr>; cfg = smpc2_config parties in
      if mode = ''simulated''
      then (let ids = [1..<unat (total_parties cfg) + 1] in
            if list_all (register_participant lib) ids
            then (True, m\<lparr>s2_bus := Some (InMemoryBus ids), s2_coordinator := Some (cfg, c2_new lib cfg), s2_active := True\<rparr>)
            else (False, m))
      else if nats_url = [] then (False, m)
      else
        let (connected, client) =
              (if certs \<noteq> [] then CNatsClient_connect_tls st nats_url (coordinator_certs certs) CNatsClient_init
               else CNatsClient_connect st nats_url CNatsClient_init)
        in if \<not> connected then (False, m\<lparr>s2_nats_client := None\<rparr>)
           else (True, m\<lparr>s2_nats_client := Some client, s2_bus := Some (NatsBus ''smpc2''),
                         s2_coordinator := Some (cfg, c2_new lib cfg), s2_active := True\<rparr>))"

definition SMPC2Manager_is_distributed :: "'o SMPC2Manager \<Rightarrow> bool" where
  "SMPC2Manager_is_distributed m = (s2_mode m = ''distributed'')"

definition SMPC2Manager_total_parties :: "'o SMPC2Manager \<Rightarrow> u8" where
  "SMPC2Manager_total_parties m = (case s2_coordinator m of None \<Rightarrow> 0 | Some (cfg, c) \<Rightarrow> total_parties cfg)"

definition SMPC2Manager_threshold :: "'o SMPC2Manager \<Rightarrow> u8" where
  "SMPC2Manager_threshold m = (case s2_coordinator m of None \<Rightarrow> 0 | Some (cfg, c) \<Rightarrow> party_threshold cfg)"

definition SMPC2Manager_enroll ::
  "('t, 'o) smpc2_lib \<Rightarrow> string \<Rightarrow> 't \<Rightarrow> 'o SMPC2Manager \<Rightarrow> unit Result \<times> 'o SMPC2Manager" where
  "SMPC2Manager_enroll lib subject_id tmpl m =
     (case s2_coordinator m of
        None \<Rightarrow> (make_error ConfigInvalid ''SMPC2Coordinator not initialized'', m)
      | Some (cfg, c) \<Rightarrow> (case c2_enroll lib subject_id tmpl c of (r, c) \<Rightarrow> (r, m\<lparr>s2_coordinator := Some (cfg, c)\<rparr>)))"

definition SMPC2Manager_verify ::
  "('t, 'o) smpc2_lib \<Rightarrow> 't \<Rightarrow> 'o SMPC2Manager \<Rightarrow> (string \<times> double \<times> bool) list Result" where
  "SMPC2Manager_verify lib probe m =
     (case s2_coordinator m of
        None \<Rightarrow> make_error ConfigInvalid ''SMPC2Coordinator not initialized''
      | Some (cfg, c) \<Rightarrow> c2_verify lib probe c)"

definition SMPC2Manager_size :: "('t, 'o) smpc2_lib \<Rightarrow> 'o SMPC2Manager \<Rightarrow> nat" where
  "SMPC2Manager_size lib m = (case s2_coordinator m of None \<Rightarrow> 0 | Some (cfg, c) \<Rightarrow> c2_size lib c)"

section \<open>Migration accounts for every template\<close>

lemma migrate_one_counts:
  "migrate_one lib t (st, m) = (st', m') \<Longrightarrow>
     ms_total st' = ms_total st \<and> ms_succeeded st' + ms_failed st' = Suc (ms_succeeded st + ms_failed st)"
  by (cases t) (auto simp: migrate_one_def count_migration_def split: option.splits if_splits prod.splits)

lemma migrate_fold_counts:
  "fold (migrate_one lib) ts (st, m) = (st', m') \<Longrightarrow>
     ms_total st' = ms_total st \<and> ms_succeeded st' + ms_failed st' = length ts + ms_succeeded st + ms_failed st"
proof (induction ts arbitrary: st m)
  case (Cons t ts)
  obtain st1 m1 where s: "migrate_one lib t (st, m) = (st1, m1)" by fastforce
  then have "fold (migrate_one lib) ts (st1, m1) = (st', m')" using Cons.prems by simp
  from Cons.IH[OF this] migrate_one_counts[OF s] show ?case by simp
qed simp

lemma migration_accounts:
  "migrate_templates lib ts m = (st, m') \<Longrightarrow> ms_succeeded st + ms_failed st = ms_total st \<and> ms_total st = length ts"
  unfolding migrate_templates_def by (drule migrate_fold_counts) simp

section \<open>The Shamir parameters\<close>

lemma clamp_bounds: "lo \<le> hi \<Longrightarrow> lo \<le> clamp v lo hi \<and> clamp v lo hi \<le> hi"
  by (simp add: clamp_def)

lemma smpc2_config_values:
  fixes p :: int
  defines "n \<equiv> clamp p 3 15"
  shows "uint (total_parties (smpc2_config p)) = n \<and> uint (party_threshold (smpc2_config p)) = (n + 1) div 2 \<and>
         store_count (smpc2_config p) = party_threshold (smpc2_config p)"
proof -
  have n: "3 \<le> n" "n \<le> 15" using clamp_bounds[of 3 15 p] by (simp_all add: n_def)
  have small: "uint (of_int v :: u8) = v" if "0 \<le> v" "v \<le> 255" for v
    using that by (simp add: unsigned_of_int take_bit_int_eq_self)
  define k where "k = (n + 1) div 2"
  have k: "2 \<le> k" "k \<le> 8" using n by (auto simp: k_def)
  have total: "uint (of_int n :: u8) = n" using n by (intro small) auto
  have thr: "uint (of_int k :: u8) = k" using k by (intro small) auto
  have "\<not> (of_int k :: u8) < 2" using k thr by (simp add: word_less_def)
  then show ?thesis
    using total thr by (simp add: smpc2_config_def n_def[symmetric] k_def[symmetric] Let_def)
qed

lemma SMPC2Manager_init_outcome:
  assumes "SMPC2Manager_init lib st mode nats_url parties certs SMPC2Manager_new = (ok, m)"
  shows "s2_active m = ok \<and>
    s2_coordinator m = (if ok then Some (smpc2_config parties, c2_new lib (smpc2_config parties)) else None) \<and>
    (ok \<and> mode = ''simulated'' \<longrightarrow> s2_bus m = Some (InMemoryBus [1..<unat (total_parties (smpc2_config parties)) + 1]))"
  using assms unfolding SMPC2Manager_init_def SMPC2Manager_new_def Let_def
  by (simp split: if_split_asm prod.split_asm; clarsimp)

text \<open>
  Whatever number of parties is configured, the Shamir coordinator runs with between 3 and
  15 parties and a threshold of half of them, rounded up, at least 2 and never more than
  the parties there are; in simulated mode as many participants
  are registered. The manager is active exactly when initialisation succeeded, and an
  uninitialised manager refuses to enrol and to verify.
\<close>

theorem smpc2_parameters:
  assumes "SMPC2Manager_init lib st mode nats_url parties certs SMPC2Manager_new = (ok, m)"
  shows "s2_active m = ok \<and>
    (if ok
     then 3 \<le> unat (SMPC2Manager_total_parties m) \<and> unat (SMPC2Manager_total_parties m) \<le> 15 \<and>
          2 \<le> unat (SMPC2Manager_threshold m) \<and> unat (SMPC2Manager_threshold m) \<le> unat (SMPC2Manager_total_parties m) \<and>
          unat (SMPC2Manager_total_parties m) \<le> 2 * unat (SMPC2Manager_threshold m) \<and>
          (mode = ''simulated'' \<longrightarrow> s2_bus m = Some (InMemoryBus [1..<unat (SMPC2Manager_total_parties m) + 1]))
     else fst (SMPC2Manager_enroll lib' sid t m) = make_error ConfigInvalid ''SMPC2Coordinator not initialized'' \<and>
          SMPC2Manager_verify lib' t m = make_error ConfigInvalid ''SMPC2Coordinator not initialized'')"
proof -
  define n where "n = clamp parties 3 15"
  have cfg: "uint (total_parties (smpc2_config parties)) = n" "uint (party_threshold (smpc2_config parties)) = (n + 1) div 2"
    using smpc2_config_values[of parties] by (simp_all add: n_def)
  have n: "3 \<le> n" "n \<le> 15" using clamp_bounds[of 3 15 parties] by (simp_all add: n_def)
  have u: "unat (total_parties (smpc2_config parties)) = nat n" "unat (party_threshold (smpc2_config parties)) = nat ((n + 1) div 2)"
    using cfg by (simp_all flip: nat_uint_eq)
  have b: "3 \<le> nat n" "nat n \<le> 15" "2 \<le> nat ((n + 1) div 2)" "nat ((n + 1) div 2) \<le> nat n" "nat n \<le> 2 * nat ((n + 1) div 2)"
    using n by auto
  show ?thesis
    using SMPC2Manager_init_outcome[OF assms] b
    by (simp add: SMPC2Manager_total_parties_def SMPC2Manager_threshold_def SMPC2Manager_enroll_def SMPC2Manager_verify_def u)
qed

definition ok_status :: nats_status where
  "ok_status = \<lparr>st_options = True, st_secure = True, st_ca = True, st_chain = True, st_connect = True\<rparr>"

definition unit_lib2 :: "(unit, unit) smpc2_lib" where
  "unit_lib2 =
     \<lparr>register_participant = (\<lambda>i. True), c2_new = (\<lambda>cfg. ()), c2_enroll = (\<lambda>s t c. (Inr (), ())),
      c2_verify = (\<lambda>t c. Inr []), c2_size = (\<lambda>c. 0)\<rparr>"

theorem smpc2_parameters_witness:
  "\<exists>m. SMPC2Manager_init unit_lib2 ok_status ''distributed'' ''nats://n'' 99 [] SMPC2Manager_new = (True, m) \<and>
       unat (SMPC2Manager_total_parties m) \<le> 15 \<and> 2 \<le> unat (SMPC2Manager_threshold m)"
proof -
  obtain m where m: "SMPC2Manager_init unit_lib2 ok_status ''distributed'' ''nats://n'' 99 [] SMPC2Manager_new = (True, m)"
    by (simp add: SMPC2Manager_init_def ok_status_def CNatsClient_connect_def connect_options_def connect_finish_def Let_def)
  with smpc2_parameters[OF m] show ?thesis by simp
qed

end
