(* ===== verification/Gallery.thy ===== *)
theory Gallery
  imports Smpc_Manager
begin

text \<open>
  The in-memory gallery of the engine (\<^verbatim>\<open>iris-engine2/src/gallery.cpp\<close>): enrolled templates with
  their identities, matching in the clear, through the in-process SMPC gallery, or through the
  coordinator. The gallery only points to the manager, which the rest of the engine shares, so
  the operations take and return the manager's state. Each operation holds the gallery's mutex
  throughout, and is one step. The matchers of libiris are parameters.
\<close>

record 't GalleryEntry =
  ge_template_id :: string
  ge_identity_id :: string
  ge_identity_name :: string
  ge_eye_side :: string
  ge_tmpl :: 't

record GalleryMatch =
  gm_hamming_distance :: double
  gm_is_match :: bool
  gm_best_rotation :: int
  gm_matched_identity_id :: string
  gm_matched_identity_name :: string
  gm_matched_template_id :: string

record DuplicateCheck =
  is_duplicate :: bool
  duplicate_identity_id :: string
  duplicate_identity_name :: string

record 't Gallery =
  gal_entries :: "'t GalleryEntry list"
  gal_match_threshold :: double
  gal_dedup_threshold :: double
  gal_smpc_gallery :: bool
  gal_smpc_manager :: bool

definition Gallery_new :: "double \<Rightarrow> double \<Rightarrow> 't Gallery" where
  "Gallery_new match_threshold dedup_threshold =
     \<lparr>gal_entries = [], gal_match_threshold = match_threshold, gal_dedup_threshold = dedup_threshold,
      gal_smpc_gallery = False, gal_smpc_manager = False\<rparr>"

definition enable_smpc :: "'t Gallery \<Rightarrow> 't Gallery" where
  "enable_smpc g = g\<lparr>gal_smpc_gallery := True\<rparr>"

definition enable_smpc_distributed :: "'t Gallery \<Rightarrow> 't Gallery" where
  "enable_smpc_distributed g = g\<lparr>gal_smpc_manager := True\<rparr>"

definition smpc_active :: "'t Gallery \<Rightarrow> bool" where
  "smpc_active g = (gal_smpc_gallery g \<or> gal_smpc_manager g)"

section \<open>Adding and removing\<close>

definition gallery_add ::
  "('t, 'o) smpc_lib \<Rightarrow> 't GalleryEntry \<Rightarrow> 't Gallery \<times> 'o SMPCManager \<Rightarrow> 't Gallery \<times> 'o SMPCManager" where
  "gallery_add lib entry = (\<lambda>(g, m).
     let m = (if gal_smpc_manager g then snd (enroll_distributed lib (ge_template_id entry) (ge_tmpl entry) m)
              else if gal_smpc_gallery g
              then (case sm_gallery m of
                      None \<Rightarrow> m
                    | Some sg \<Rightarrow> m\<lparr>sm_gallery := Some (snd (lg_add_template lib (ge_template_id entry) (ge_tmpl entry) sg))\<rparr>)
              else m)
     in (g\<lparr>gal_entries := gal_entries g @ [entry]\<rparr>, m))"

definition add_metadata_only :: "'t GalleryEntry \<Rightarrow> 't Gallery \<Rightarrow> 't Gallery" where
  "add_metadata_only entry g = g\<lparr>gal_entries := gal_entries g @ [entry]\<rparr>"

definition gallery_remove ::
  "('t, 'o) smpc_lib \<Rightarrow> string \<Rightarrow> 't Gallery \<times> 'o SMPCManager \<Rightarrow> nat \<times> 't Gallery \<times> 'o SMPCManager" where
  "gallery_remove lib identity_id = (\<lambda>(g, m).
     let gone = filter (\<lambda>e. ge_identity_id e = identity_id) (gal_entries g);
         m = (if gal_smpc_gallery g
              then (case sm_gallery m of
                      None \<Rightarrow> m
                    | Some sg \<Rightarrow> m\<lparr>sm_gallery := Some (fold (\<lambda>e. lg_remove_template lib (ge_template_id e)) gone sg)\<rparr>)
              else m)
     in (length gone, g\<lparr>gal_entries := filter (\<lambda>e. ge_identity_id e \<noteq> identity_id) (gal_entries g)\<rparr>, m))"

section \<open>Matching\<close>

text \<open>The loop over the results: index, distance and rotation of the first least distance below 1.\<close>

fun best_loop :: "(double \<times> int) list \<Rightarrow> nat \<Rightarrow> nat \<times> double \<times> int \<Rightarrow> nat \<times> double \<times> int" where
  "best_loop [] i best = best"
| "best_loop ((d, rot) # rs) i (best_idx, best_dist, best_rot) =
     best_loop rs (i + 1) (if d < best_dist then (i, d, rot) else (best_idx, best_dist, best_rot))"

definition match_of :: "'t GalleryEntry list \<Rightarrow> double \<Rightarrow> nat \<times> double \<times> int \<Rightarrow> GalleryMatch" where
  "match_of entries threshold = (\<lambda>(best_idx, best_dist, best_rot).
     \<lparr>gm_hamming_distance = best_dist, gm_is_match = (best_dist < threshold), gm_best_rotation = best_rot,
      gm_matched_identity_id = ge_identity_id (entries ! best_idx),
      gm_matched_identity_name = ge_identity_name (entries ! best_idx),
      gm_matched_template_id = ge_template_id (entries ! best_idx)\<rparr>)"

definition find_best_match_smpc ::
  "('t, 'o) smpc_lib \<Rightarrow> 't \<Rightarrow> double \<Rightarrow> 't Gallery \<Rightarrow> 'o SMPCManager \<Rightarrow> GalleryMatch option" where
  "find_best_match_smpc lib probe threshold g m =
     (if gal_entries g = [] \<or> \<not> gal_smpc_gallery g then None
      else case sm_gallery m of
        None \<Rightarrow> None
      | Some sg \<Rightarrow>
          (case lg_match_probe lib probe sg of
             Inl e \<Rightarrow> None
           | Inr [] \<Rightarrow> None
           | Inr results \<Rightarrow>
               Some (match_of (gal_entries g) threshold
                       (best_loop (take (length (gal_entries g)) results) 0 (0, 1, 0)))))"

fun best_result :: "(string \<times> double) list \<Rightarrow> (string \<times> double) option \<Rightarrow> (string \<times> double) option" where
  "best_result [] best = best"
| "best_result (r # rs) best =
     best_result rs (case best of None \<Rightarrow> Some r | Some b \<Rightarrow> if snd r < snd b then Some r else Some b)"

definition find_best_match_coordinator ::
  "('t, 'o) smpc_lib \<Rightarrow> 't \<Rightarrow> double \<Rightarrow> 't Gallery \<Rightarrow> 'o SMPCManager \<Rightarrow> GalleryMatch option \<times> 'o SMPCManager" where
  "find_best_match_coordinator lib probe threshold g m =
     (if gal_entries g = [] \<or> \<not> gal_smpc_manager g then (None, m)
      else case verify_distributed lib probe m of
        (Inl e, m) \<Rightarrow> (None, m)
      | (Inr results, m) \<Rightarrow>
          (case best_result results None of
             None \<Rightarrow> (None, m)
           | Some (subject_id, distance) \<Rightarrow>
               (case find (\<lambda>e. ge_template_id e = subject_id) (gal_entries g) of
                  None \<Rightarrow> (None, m)
                | Some e \<Rightarrow>
                    (Some \<lparr>gm_hamming_distance = distance, gm_is_match = (distance < threshold), gm_best_rotation = 0,
                           gm_matched_identity_id = ge_identity_id e, gm_matched_identity_name = ge_identity_name e,
                           gm_matched_template_id = ge_template_id e\<rparr>, m))))"

definition find_best_match ::
  "('t, 'o) smpc_lib \<Rightarrow> ('t \<Rightarrow> 't list \<Rightarrow> (double \<times> int) list Result) \<Rightarrow> 't \<Rightarrow> double \<Rightarrow> 't Gallery \<Rightarrow> 'o SMPCManager \<Rightarrow>
   GalleryMatch option \<times> 'o SMPCManager" where
  "find_best_match lib match_one_vs_n probe threshold g m =
     (if gal_entries g = [] then (None, m)
      else if gal_smpc_manager g then find_best_match_coordinator lib probe threshold g m
      else if gal_smpc_gallery g then (find_best_match_smpc lib probe threshold g m, m)
      else (case match_one_vs_n probe (map ge_tmpl (gal_entries g)) of
              Inl e \<Rightarrow> None
            | Inr [] \<Rightarrow> None
            | Inr results \<Rightarrow> Some (match_of (gal_entries g) threshold (best_loop results 0 (0, 1, 0))), m))"

definition gallery_match ::
  "('t, 'o) smpc_lib \<Rightarrow> ('t \<Rightarrow> 't list \<Rightarrow> (double \<times> int) list Result) \<Rightarrow> 't \<Rightarrow> 't Gallery \<times> 'o SMPCManager \<Rightarrow>
   GalleryMatch option \<times> 'o SMPCManager" where
  "gallery_match lib matcher probe = (\<lambda>(g, m). find_best_match lib matcher probe (gal_match_threshold g) g m)"

definition no_duplicate :: DuplicateCheck where
  "no_duplicate = \<lparr>is_duplicate = False, duplicate_identity_id = [], duplicate_identity_name = []\<rparr>"

definition check_duplicate ::
  "('t, 'o) smpc_lib \<Rightarrow> ('t \<Rightarrow> 't list \<Rightarrow> (double \<times> int) list Result) \<Rightarrow> 't \<Rightarrow> 't Gallery \<times> 'o SMPCManager \<Rightarrow>
   DuplicateCheck \<times> 'o SMPCManager" where
  "check_duplicate lib matcher probe = (\<lambda>(g, m).
     case find_best_match lib matcher probe (gal_dedup_threshold g) g m of
       (None, m) \<Rightarrow> (no_duplicate, m)
     | (Some best, m) \<Rightarrow>
         (if \<not> gm_is_match best then no_duplicate
          else \<lparr>is_duplicate = True, duplicate_identity_id = gm_matched_identity_id best,
                duplicate_identity_name = gm_matched_identity_name best\<rparr>, m))"

definition gallery_size :: "'t Gallery \<Rightarrow> nat" where
  "gallery_size g = length (gal_entries g)"

section \<open>Listing\<close>

record IdentityInfo =
  ii_identity_id :: string
  ii_name :: string
  ii_templates :: "(string \<times> string) list"

text \<open>\<^verbatim>\<open>std::map\<close> iterates in the order of its keys; the name is the one the last entry wrote.\<close>

definition gallery_list :: "'t Gallery \<Rightarrow> IdentityInfo list" where
  "gallery_list g =
     map (\<lambda>i. let es = filter (\<lambda>e. ge_identity_id e = i) (gal_entries g)
              in \<lparr>ii_identity_id = i, ii_name = ge_identity_name (last es),
                  ii_templates = map (\<lambda>e. (ge_template_id e, ge_eye_side e)) es\<rparr>)
       (sort (remdups (map ge_identity_id (gal_entries g))))"

section \<open>The best of a list of results\<close>

text \<open>
  \<open>nearest ds i\<close>: position \<open>i\<close> holds the first least distance, if that is below 1; position 0
  otherwise.
\<close>

definition nearest :: "double list \<Rightarrow> nat \<Rightarrow> bool" where
  "nearest ds i \<longleftrightarrow>
     (if \<exists>d \<in> set ds. d < 1
      then i < length ds \<and> (\<forall>d \<in> set ds. ds ! i \<le> d) \<and> (\<forall>j < i. ds ! i < ds ! j)
      else i = 0)"

lemma best_loop_append:
  "best_loop (rs @ [(d, rot)]) i b =
     (case best_loop rs i b of (bi, bd, br) \<Rightarrow> if d < bd then (i + length rs, d, rot) else (bi, bd, br))"
  by (induction rs i b rule: best_loop.induct) (auto split: prod.splits)

lemma best_loop_nearest:
  assumes "best_loop rs 0 (0, 1, 0) = (i, d, rot)"
  shows "nearest (map fst rs) i \<and> d = Min (insert 1 (set (map fst rs))) \<and>
         (if \<exists>x \<in> set (map fst rs). x < 1 then rs ! i = (d, rot) else (d, rot) = (1, 0))"
  using assms
proof (induction rs arbitrary: i d rot rule: rev_induct)
  case Nil
  then show ?case by (simp add: nearest_def)
next
  case (snoc r rs)
  obtain i' d' rot' where b: "best_loop rs 0 (0, 1, 0) = (i', d', rot')" by (metis prod_cases3)
  obtain x rx where r: "r = (x, rx)" by fastforce
  note IH = snoc.IH[OF b]
  define D where "D = set (map fst rs)"
  have d': "d' = Min (insert 1 D)" and fin: "finite D" using IH by (auto simp: D_def)
  have low: "d' \<le> y" if "y \<in> D" for y using that fin by (simp add: d')
  have low1: "d' \<le> 1" using fin by (simp add: d')
  have hit: "i' < length rs \<and> rs ! i' = (d', rot') \<and> (\<forall>j < i'. d' < fst (rs ! j))" if "\<exists>y \<in> D. y < 1"
    using IH that by (auto simp: nearest_def D_def)
  have miss: "i' = 0 \<and> d' = 1 \<and> rot' = 0" if "\<not> (\<exists>y \<in> D. y < 1)"
    using IH that by (auto simp: nearest_def D_def)
  show ?case
  proof (cases "x < d'")
    case True
    then have out: "i = length rs" "d = x" "rot = rx"
      using snoc.prems b r by (auto simp: best_loop_append)
    have "\<exists>y \<in> set (map fst (rs @ [r])). y < 1" using True low1 r by auto
    moreover have "\<forall>y \<in> D. x < y" using low True by fastforce
    moreover from this have "Min (insert 1 (insert x D)) = x"
      using True low1 fin by (intro Min_eqI) auto
    ultimately show ?thesis
      unfolding nearest_def using out r by (auto simp: D_def nth_append insert_commute)
  next
    case False
    then have out: "i = i'" "d = d'" "rot = rot'"
      using snoc.prems b r by (auto simp: best_loop_append)
    have mn: "Min (insert 1 (insert x D)) = d'"
    proof (rule Min_eqI)
      have "d' \<in> insert 1 D" unfolding d' by (rule Min_in) (use fin in auto)
      then show "d' \<in> insert 1 (insert x D)" by auto
    qed (use False low low1 fin in auto)
    show ?thesis
    proof (cases "\<exists>y \<in> D. y < 1")
      case True
      from hit[OF True] have h: "i' < length rs" "rs ! i' = (d', rot')" "\<forall>j < i'. d' < fst (rs ! j)" by auto
      then have nth: "map fst (rs @ [r]) ! i' = d'" "\<forall>j < i'. map fst (rs @ [r]) ! j = fst (rs ! j)"
        by (auto simp: nth_append)
      have all: "\<forall>y \<in> set (map fst (rs @ [r])). d' \<le> y" using low False r by (auto simp: D_def not_less)
      have ex: "\<exists>y \<in> set (map fst (rs @ [r])). y < 1" using True by (auto simp: D_def)
      have st: "set (map fst (rs @ [r])) = insert x D" using r by (auto simp: D_def)
      have "nearest (map fst (rs @ [r])) i'"
        unfolding nearest_def using ex all nth h by simp
      moreover have "(rs @ [r]) ! i' = (d', rot')" using h by (simp add: nth_append)
      ultimately show ?thesis
        unfolding out st using mn ex st True by auto
    next
      case no: False
      with miss have "\<not> x < 1" using False by auto
      with no miss[OF no] out r mn show ?thesis by (auto simp: nearest_def D_def)
    qed
  qed
qed

lemma nearest_below:
  assumes "nearest ds i" "ds \<noteq> []"
  shows "i < length ds"
  using assms by (auto simp: nearest_def split: if_splits)

lemma Min_below: "t \<le> (1 :: double) \<Longrightarrow> Min (insert 1 (set ds)) < t \<longleftrightarrow> (\<exists>d \<in> set ds. d < t)"
  by (subst Min_less_iff) auto

text \<open>Both paths that search by position end in the same way.\<close>

lemma match_of_best:
  assumes "rs \<noteq> []" "length rs = length es"
  shows "\<exists>i < length es. nearest (map fst rs) i \<and>
           gm_hamming_distance (match_of es t (best_loop rs 0 (0, 1, 0))) = Min (insert 1 (set (map fst rs))) \<and>
           gm_is_match (match_of es t (best_loop rs 0 (0, 1, 0))) = (Min (insert 1 (set (map fst rs))) < t) \<and>
           gm_matched_identity_id (match_of es t (best_loop rs 0 (0, 1, 0))) = ge_identity_id (es ! i) \<and>
           gm_matched_template_id (match_of es t (best_loop rs 0 (0, 1, 0))) = ge_template_id (es ! i)"
proof -
  obtain i d rot where b: "best_loop rs 0 (0, 1, 0) = (i, d, rot)" by (metis prod_cases3)
  from best_loop_nearest[OF b] have n: "nearest (map fst rs) i" "d = Min (insert 1 (set (map fst rs)))" by auto
  with nearest_below[of "map fst rs" i] assms show ?thesis
    by (intro exI[of _ i]) (auto simp: b match_of_def)
qed

text \<open>
  C3. Matching in the clear: over a non-empty gallery for which the matcher returns one result
  per template, the match names the first entry with the least distance, with that distance (1
  if none is below 1); it is a match exactly when some entry is below the match threshold, and a
  duplicate is reported exactly when some entry is below the deduplication threshold.
\<close>

theorem gallery_match_nearest:
  assumes "\<not> gal_smpc_manager g" "\<not> gal_smpc_gallery g" "gal_entries g \<noteq> []"
    and "matcher probe (map ge_tmpl (gal_entries g)) = Inr rs" "length rs = length (gal_entries g)"
    and "gal_match_threshold g \<le> 1" "gal_dedup_threshold g \<le> 1"
  shows "\<exists>r i. gallery_match lib matcher probe (g, m) = (Some r, m) \<and> i < length (gal_entries g) \<and> nearest (map fst rs) i \<and>
           gm_matched_identity_id r = ge_identity_id (gal_entries g ! i) \<and>
           gm_matched_template_id r = ge_template_id (gal_entries g ! i) \<and>
           gm_hamming_distance r = Min (insert 1 (set (map fst rs))) \<and>
           gm_is_match r = (\<exists>d \<in> set (map fst rs). d < gal_match_threshold g) \<and>
           is_duplicate (fst (check_duplicate lib matcher probe (g, m))) = (\<exists>d \<in> set (map fst rs). d < gal_dedup_threshold g)"
proof -
  have ne: "rs \<noteq> []" using assms(3,5) by auto
  have find: "find_best_match lib matcher probe t g m = (Some (match_of (gal_entries g) t (best_loop rs 0 (0, 1, 0))), m)" for t
    using assms(1-4) ne by (auto simp: find_best_match_def split: list.splits)
  obtain i where i: "i < length (gal_entries g)" "nearest (map fst rs) i"
    "gm_hamming_distance (match_of (gal_entries g) (gal_match_threshold g) (best_loop rs 0 (0, 1, 0))) = Min (insert 1 (set (map fst rs)))"
    "gm_is_match (match_of (gal_entries g) (gal_match_threshold g) (best_loop rs 0 (0, 1, 0))) =
       (Min (insert 1 (set (map fst rs))) < gal_match_threshold g)"
    "gm_matched_identity_id (match_of (gal_entries g) (gal_match_threshold g) (best_loop rs 0 (0, 1, 0))) = ge_identity_id (gal_entries g ! i)"
    "gm_matched_template_id (match_of (gal_entries g) (gal_match_threshold g) (best_loop rs 0 (0, 1, 0))) = ge_template_id (gal_entries g ! i)"
    using match_of_best[OF ne assms(5), of "gal_match_threshold g"] by blast
  have "gm_is_match (match_of (gal_entries g) (gal_dedup_threshold g) (best_loop rs 0 (0, 1, 0))) =
      (\<exists>d \<in> set (map fst rs). d < gal_dedup_threshold g)"
    using match_of_best[OF ne assms(5), of "gal_dedup_threshold g"] Min_below[OF assms(7), of "map fst rs"] by metis
  then have dup: "is_duplicate (fst (check_duplicate lib matcher probe (g, m))) = (\<exists>d \<in> set (map fst rs). d < gal_dedup_threshold g)"
    by (simp add: check_duplicate_def find no_duplicate_def)
  have "gallery_match lib matcher probe (g, m) =
      (Some (match_of (gal_entries g) (gal_match_threshold g) (best_loop rs 0 (0, 1, 0))), m)"
    by (simp add: gallery_match_def find)
  with i dup Min_below[OF assms(6), of "map fst rs"] show ?thesis
    by (intro exI[of _ "match_of (gal_entries g) (gal_match_threshold g) (best_loop rs 0 (0, 1, 0))"] exI[of _ i]) simp
qed

lemma duplicate_iff:
  assumes "\<not> gal_smpc_manager g" "\<not> gal_smpc_gallery g" "gal_dedup_threshold g \<le> 1"
    and "\<forall>p ts. matcher p ts = Inr (map (iris_dist p) ts)"
  shows "is_duplicate (fst (check_duplicate lib matcher probe (g, m))) =
           (\<exists>x \<in> set (gal_entries g). fst (iris_dist probe (ge_tmpl x)) < gal_dedup_threshold g)"
proof (cases "gal_entries g")
  case Nil
  then show ?thesis by (simp add: check_duplicate_def find_best_match_def no_duplicate_def)
next
  case (Cons e es)
  define rs where "rs = map (\<lambda>x. iris_dist probe (ge_tmpl x)) (gal_entries g)"
  have ne: "rs \<noteq> []" "length rs = length (gal_entries g)" using Cons by (simp_all add: rs_def)
  have "find_best_match lib matcher probe (gal_dedup_threshold g) g m =
      (Some (match_of (gal_entries g) (gal_dedup_threshold g) (best_loop rs 0 (0, 1, 0))), m)"
    using assms Cons by (simp add: find_best_match_def rs_def comp_def)
  moreover have "gm_is_match (match_of (gal_entries g) (gal_dedup_threshold g) (best_loop rs 0 (0, 1, 0))) =
      (\<exists>d \<in> set (map fst rs). d < gal_dedup_threshold g)"
    using match_of_best[OF ne, of "gal_dedup_threshold g"] Min_below[OF assms(3), of "map fst rs"] by metis
  ultimately show ?thesis by (simp add: check_duplicate_def no_duplicate_def rs_def)
qed

definition sample_gallery :: "nat Gallery" where
  "sample_gallery =
     \<lparr>gal_entries =
        [\<lparr>ge_template_id = ''t1'', ge_identity_id = ''ann'', ge_identity_name = ''Ann'', ge_eye_side = ''left'', ge_tmpl = 7\<rparr>,
         \<lparr>ge_template_id = ''t2'', ge_identity_id = ''bob'', ge_identity_name = ''Bob'', ge_eye_side = ''left'', ge_tmpl = 2\<rparr>],
      gal_match_threshold = 39 / 100, gal_dedup_threshold = 32 / 100, gal_smpc_gallery = False, gal_smpc_manager = False\<rparr>"

definition sample_matcher :: "nat \<Rightarrow> nat list \<Rightarrow> (double \<times> int) list Result" where
  "sample_matcher probe ts = Inr (map (\<lambda>t. (if t = probe then 1 / 10 else 1 / 2, 0)) ts)"

definition sample_dist :: "nat \<Rightarrow> nat \<Rightarrow> double \<times> int" where
  "sample_dist a b = (if a = b then (1 / 10, 0) else (1 / 2, 0))"

definition sample_add :: "string \<Rightarrow> nat \<Rightarrow> (string \<times> nat) list \<Rightarrow> unit Result \<times> (string \<times> nat) list" where
  "sample_add sid t sg = (if t = 0 then (make_error IoFailed ''full'', sg) else (Inr (), sg @ [(sid, t)]))"

definition list_lib :: "(nat, (string \<times> nat) list) smpc_lib" where
  "list_lib =
     \<lparr>lg_new = [], lg_add_template = sample_add, lg_remove_template = (\<lambda>sid. filter (\<lambda>(s, t). s \<noteq> sid)),
      lg_match_probe = (\<lambda>probe sg. Inr (map (\<lambda>(s, t). sample_dist probe t) sg)),
      co_new = (\<lambda>n. []), co_enroll = sample_add,
      co_verify = (\<lambda>probe sg. Inr (map (\<lambda>(s, t). (s, fst (sample_dist probe t))) sg)), co_size = length,
      pl_new = (\<lambda>n d. []), pl_verify_sync = (\<lambda>probe sg. make_error IoFailed ''empty''),
      sh_new = (\<lambda>n k. []), sh_enroll = sample_add, sh_verify = (\<lambda>probe sg. Inr []), sh_total_gallery_size = length,
      tls_create = Inr\<rparr>"

theorem gallery_match_nearest_witness:
  "\<exists>r. fst (gallery_match list_lib sample_matcher 2 (sample_gallery, SMPCManager_new)) = Some r \<and> gm_is_match r \<and>
       is_duplicate (fst (check_duplicate list_lib sample_matcher 2 (sample_gallery, SMPCManager_new)))"
  using gallery_match_nearest[of sample_gallery sample_matcher 2 "[(1 / 2, 0), (1 / 10, 0)]" list_lib SMPCManager_new]
  by (auto simp: sample_gallery_def sample_matcher_def)

section \<open>The simulated SMPC gallery\<close>

text \<open>
  What the engine relies on of \<^verbatim>\<open>iris::SMPCGallery\<close>: it holds its templates in the order they
  were added, a failed addition changes nothing, and a probe is answered with one result per
  template in that order. \<open>content\<close> reads the templates it holds.
\<close>

definition ordered_gallery ::
  "('t, 'o) smpc_lib \<Rightarrow> ('o \<Rightarrow> (string \<times> 't) list) \<Rightarrow> ('t \<Rightarrow> 't \<Rightarrow> double \<times> int) \<Rightarrow> bool" where
  "ordered_gallery lib content iris_dist \<longleftrightarrow>
     (\<forall>sid t sg. content (snd (lg_add_template lib sid t sg)) =
                   content sg @ (if has_value (fst (lg_add_template lib sid t sg)) then [(sid, t)] else [])) \<and>
     (\<forall>sid sg. content (lg_remove_template lib sid sg) = filter (\<lambda>(s, t). s \<noteq> sid) (content sg)) \<and>
     (\<forall>probe sg. lg_match_probe lib probe sg = Inr (map (\<lambda>(s, t). iris_dist probe t) (content sg)))"

definition in_sync :: "('o \<Rightarrow> (string \<times> 't) list) \<Rightarrow> 't Gallery \<Rightarrow> 'o SMPCManager \<Rightarrow> bool" where
  "in_sync content g m \<longleftrightarrow>
     gal_smpc_gallery g \<and> \<not> gal_smpc_manager g \<and> distinct (map ge_template_id (gal_entries g)) \<and>
     (\<exists>sg. sm_gallery m = Some sg \<and> content sg = map (\<lambda>e. (ge_template_id e, ge_tmpl e)) (gal_entries g))"

definition add_succeeds :: "('t, 'o) smpc_lib \<Rightarrow> 't GalleryEntry \<Rightarrow> 'o SMPCManager \<Rightarrow> bool" where
  "add_succeeds lib e m =
     (case sm_gallery m of None \<Rightarrow> False | Some sg \<Rightarrow> has_value (fst (lg_add_template lib (ge_template_id e) (ge_tmpl e) sg)))"

lemma add_in_sync:
  assumes "ordered_gallery lib content iris_dist" "in_sync content g m" "add_succeeds lib e m"
    and "ge_template_id e \<notin> set (map ge_template_id (gal_entries g))"
  shows "case gallery_add lib e (g, m) of (g', m') \<Rightarrow> in_sync content g' m'"
  using assms by (auto simp: in_sync_def gallery_add_def add_succeeds_def ordered_gallery_def Let_def)

lemma fold_remove_content:
  assumes "ordered_gallery lib content iris_dist"
  shows "content (fold (\<lambda>e. lg_remove_template lib (ge_template_id e)) es sg) =
           filter (\<lambda>(s, t). s \<notin> set (map ge_template_id es)) (content sg)"
proof (induction es arbitrary: sg)
  case (Cons e es)
  have "content (lg_remove_template lib (ge_template_id e) sg) = filter (\<lambda>(s, t). s \<noteq> ge_template_id e) (content sg)"
    using assms by (simp add: ordered_gallery_def)
  then show ?case by (auto simp: Cons.IH intro: filter_cong)
qed simp

lemma remove_in_sync:
  assumes "ordered_gallery lib content iris_dist" "in_sync content g m"
  shows "case gallery_remove lib i (g, m) of (n, g', m') \<Rightarrow> in_sync content g' m'"
proof -
  obtain sg where sg: "sm_gallery m = Some sg" "content sg = map (\<lambda>e. (ge_template_id e, ge_tmpl e)) (gal_entries g)"
    using assms(2) by (auto simp: in_sync_def)
  have d: "distinct (map ge_template_id (gal_entries g))" using assms(2) by (simp add: in_sync_def)
  have "ge_template_id e \<in> ge_template_id ` {x \<in> set (gal_entries g). ge_identity_id x = i} \<longleftrightarrow> ge_identity_id e = i"
    if "e \<in> set (gal_entries g)" for e
    using that d by (auto simp: distinct_map dest: inj_onD)
  then have "filter (\<lambda>(s, t). s \<notin> set (map ge_template_id (filter (\<lambda>e. ge_identity_id e = i) (gal_entries g)))) (content sg) =
      map (\<lambda>e. (ge_template_id e, ge_tmpl e)) (filter (\<lambda>e. ge_identity_id e \<noteq> i) (gal_entries g))"
    unfolding sg(2) filter_map by (auto intro!: arg_cong[where f = "map _"] filter_cong)
  then show ?thesis
    using assms sg d by (auto simp: in_sync_def gallery_remove_def fold_remove_content[OF assms(1)] Let_def distinct_map_filter)
qed

lemma smpc_results:
  assumes "ordered_gallery lib content iris_dist" "gal_smpc_gallery g" "\<not> gal_smpc_manager g"
    and "gal_entries g \<noteq> []" "sm_gallery m = Some sg" "content sg \<noteq> []"
  shows "gallery_match lib matcher probe (g, m) =
           (Some (match_of (gal_entries g) (gal_match_threshold g)
             (best_loop (take (length (gal_entries g)) (map (\<lambda>(s, t). iris_dist probe t) (content sg))) 0 (0, 1, 0))), m)"
  using assms
  by (cases "content sg")
    (auto simp: gallery_match_def find_best_match_def find_best_match_smpc_def ordered_gallery_def)

lemma best_loop_last:
  assumes "\<forall>x \<in> set (map fst rs). d < x" "d < 1"
  shows "best_loop (rs @ [(d, rot)]) 0 (0, 1, 0) = (length rs, d, rot)"
proof -
  obtain i d' rot' where b: "best_loop rs 0 (0, 1, 0) = (i, d', rot')" by (metis prod_cases3)
  from best_loop_nearest[OF b] have "d' = Min (insert 1 (set (map fst rs)))" by auto
  moreover have "d < Min (insert 1 (set (map fst rs)))" using assms by (subst Min_gr_iff) auto
  ultimately show ?thesis by (simp add: best_loop_append b)
qed

lemma sync_match_nearest:
  assumes "ordered_gallery lib content iris_dist" "in_sync content g m" and ne: "gal_entries g \<noteq> []"
  shows "\<exists>r i. gallery_match lib matcher probe (g, m) = (Some r, m) \<and> i < length (gal_entries g) \<and>
      nearest (map (\<lambda>e. fst (iris_dist probe (ge_tmpl e))) (gal_entries g)) i \<and>
      gm_matched_identity_id r = ge_identity_id (gal_entries g ! i)"
proof -
  obtain sg where sg: "sm_gallery m = Some sg" "content sg = map (\<lambda>e. (ge_template_id e, ge_tmpl e)) (gal_entries g)"
    and g: "gal_smpc_gallery g" "\<not> gal_smpc_manager g"
    using assms(2) by (auto simp: in_sync_def)
  define rs where "rs = map (\<lambda>e. iris_dist probe (ge_tmpl e)) (gal_entries g)"
  have fst_rs: "map fst rs = map (\<lambda>e. fst (iris_dist probe (ge_tmpl e))) (gal_entries g)" by (simp add: rs_def)
  have "gallery_match lib matcher probe (g, m) =
      (Some (match_of (gal_entries g) (gal_match_threshold g) (best_loop rs 0 (0, 1, 0))), m)"
    using smpc_results[OF assms(1) g ne sg(1)] sg(2) ne by (simp add: rs_def comp_def)
  moreover obtain i where "i < length (gal_entries g)" "nearest (map fst rs) i"
    "gm_matched_identity_id (match_of (gal_entries g) (gal_match_threshold g) (best_loop rs 0 (0, 1, 0))) = ge_identity_id (gal_entries g ! i)"
    using match_of_best[of rs "gal_entries g" "gal_match_threshold g"] ne by (auto simp: rs_def)
  ultimately show ?thesis unfolding fst_rs by blast
qed

lemma failed_add_misattributes:
  assumes "ordered_gallery lib content iris_dist" "in_sync content g m"
    and h: "\<not> add_succeeds lib bad m" "add_succeeds lib e (snd (gallery_add lib bad (g, m)))"
      "fst (iris_dist probe (ge_tmpl e)) < 1"
      "\<forall>x \<in> set (gal_entries g). fst (iris_dist probe (ge_tmpl e)) < fst (iris_dist probe (ge_tmpl x))"
  shows "\<exists>r. fst (gallery_match lib matcher probe (gallery_add lib e (gallery_add lib bad (g, m)))) = Some r \<and>
      gm_matched_identity_id r = ge_identity_id bad"
proof -
  obtain sg where sg: "sm_gallery m = Some sg" "content sg = map (\<lambda>e. (ge_template_id e, ge_tmpl e)) (gal_entries g)"
    and g: "gal_smpc_gallery g" "\<not> gal_smpc_manager g"
    using assms(2) by (auto simp: in_sync_def)
  define sg1 where "sg1 = snd (lg_add_template lib (ge_template_id bad) (ge_tmpl bad) sg)"
  define sg2 where "sg2 = snd (lg_add_template lib (ge_template_id e) (ge_tmpl e) sg1)"
  have c2: "content sg2 = map (\<lambda>e. (ge_template_id e, ge_tmpl e)) (gal_entries g @ [e])"
    using assms(1) h sg g
    by (auto simp: sg2_def sg1_def ordered_gallery_def add_succeeds_def gallery_add_def Let_def)
  define g2 m2 where "g2 = g\<lparr>gal_entries := (gal_entries g @ [bad]) @ [e]\<rparr>" and "m2 = m\<lparr>sm_gallery := Some sg2\<rparr>"
  have two: "gallery_add lib e (gallery_add lib bad (g, m)) = (g2, m2)"
    using sg g by (simp add: gallery_add_def Let_def g2_def m2_def sg1_def sg2_def)
  define rs where "rs = map (\<lambda>e. iris_dist probe (ge_tmpl e)) (gal_entries g)"
  have "gallery_match lib matcher probe (g2, m2) =
      (Some (match_of (gal_entries g2) (gal_match_threshold g2) (best_loop (rs @ [iris_dist probe (ge_tmpl e)]) 0 (0, 1, 0))), m2)"
    using smpc_results[OF assms(1), of g2 m2 sg2] g c2 by (simp add: g2_def m2_def rs_def comp_def)
  moreover have "best_loop (rs @ [iris_dist probe (ge_tmpl e)]) 0 (0, 1, 0) =
      (length rs, fst (iris_dist probe (ge_tmpl e)), snd (iris_dist probe (ge_tmpl e)))"
    using best_loop_last[of rs "fst (iris_dist probe (ge_tmpl e))" "snd (iris_dist probe (ge_tmpl e))"] h by (auto simp: rs_def)
  moreover have "(gal_entries g @ [bad, e]) ! length rs = bad" by (simp add: rs_def nth_append)
  ultimately show ?thesis by (simp add: two match_of_def g2_def split: prod.splits)
qed


definition sample_entry_of :: "string \<Rightarrow> nat \<Rightarrow> nat GalleryEntry" where
  "sample_entry_of i t =
     \<lparr>ge_template_id = CHR ''t'' # i, ge_identity_id = i, ge_identity_name = i, ge_eye_side = ''left'', ge_tmpl = t\<rparr>"


section \<open>The coordinator\<close>

lemma best_result_append:
  "best_result (rs @ [r]) b =
     (case best_result rs b of None \<Rightarrow> Some r | Some x \<Rightarrow> if snd r < snd x then Some r else Some x)"
  by (induction rs b rule: best_result.induct) auto

lemma best_result_least:
  assumes "rs \<noteq> []"
  shows "\<exists>r \<in> set rs. best_result rs None = Some r \<and> (\<forall>x \<in> set rs. snd r \<le> snd x)"
  using assms
proof (induction rs rule: rev_induct)
  case (snoc y ys)
  show ?case
  proof (cases "ys = []")
    case False
    from snoc.IH[OF False] obtain r where "r \<in> set ys" "best_result ys None = Some r" "\<forall>x \<in> set ys. snd r \<le> snd x" by auto
    then show ?thesis by (auto simp: best_result_append)
  qed simp
qed simp

lemma find_filtered:
  assumes "\<forall>e \<in> set es. ge_template_id e = sid \<longrightarrow> ge_identity_id e = i"
  shows "find (\<lambda>e. ge_template_id e = sid) (filter (\<lambda>e. ge_identity_id e \<noteq> i) es) = None"
  using assms by (induction es) auto

text \<open>
  C33. In distributed mode the coordinator's nearest subject is looked up among the entries, so a
  match names an enrolled entry at the least distance the coordinator reported. Removing an
  identity leaves its shares with the participants: while such a removed template is the nearest
  one, the gallery reports no match and no duplicate at all, even for a probe within the
  threshold of another enrolled identity.
\<close>

theorem gallery_removed_shadows:
  assumes "gal_smpc_manager g" "\<not> gal_smpc_gallery g"
    and "fst (verify_distributed lib probe m) = Inr rows" "rows \<noteq> []"
    and "best_result rows None = Some (sid, d)"
  shows "(\<forall>x \<in> set rows. d \<le> snd x) \<and>
         (\<forall>r. fst (gallery_match lib matcher probe (g, m)) = Some r \<longrightarrow>
            gm_matched_template_id r = sid \<and> gm_hamming_distance r = d \<and>
            (\<exists>e \<in> set (gal_entries g). ge_template_id e = sid \<and> ge_identity_id e = gm_matched_identity_id r)) \<and>
         (\<forall>i. (\<forall>e \<in> set (gal_entries g). ge_template_id e = sid \<longrightarrow> ge_identity_id e = i) \<longrightarrow>
            snd (snd (gallery_remove lib i (g, m))) = m \<and>
            fst (gallery_match lib matcher probe (snd (gallery_remove lib i (g, m)))) = None \<and>
            fst (check_duplicate lib matcher probe (snd (gallery_remove lib i (g, m)))) = no_duplicate)"
proof (intro conjI allI impI)
  obtain m' where v: "verify_distributed lib probe m = (Inr rows, m')"
    using assms(3) by (metis prod.collapse)
  show "\<forall>x \<in> set rows. d \<le> snd x"
    using best_result_least[OF assms(4)] assms(5) by auto
  fix r assume "fst (gallery_match lib matcher probe (g, m)) = Some r"
  then show "gm_matched_template_id r = sid" "gm_hamming_distance r = d"
    "\<exists>e \<in> set (gal_entries g). ge_template_id e = sid \<and> ge_identity_id e = gm_matched_identity_id r"
    using assms(1,5) v
    by (auto simp: gallery_match_def find_best_match_def find_best_match_coordinator_def find_Some_iff split: if_splits option.splits)
next
  obtain m' where v: "verify_distributed lib probe m = (Inr rows, m')"
    using assms(3) by (metis prod.collapse)
  fix i assume own: "\<forall>e \<in> set (gal_entries g). ge_template_id e = sid \<longrightarrow> ge_identity_id e = i"
  define g' where "g' = g\<lparr>gal_entries := filter (\<lambda>e. ge_identity_id e \<noteq> i) (gal_entries g)\<rparr>"
  have rem: "snd (gallery_remove lib i (g, m)) = (g', m)"
    using assms(2) by (simp add: gallery_remove_def Let_def g'_def)
  have none: "fst (find_best_match lib matcher probe t g' m) = None" for t
    using assms(1,5) v find_filtered[OF own]
    by (simp add: find_best_match_def find_best_match_coordinator_def g'_def)
  show "snd (snd (gallery_remove lib i (g, m))) = m" by (simp add: rem)
  show "fst (gallery_match lib matcher probe (snd (gallery_remove lib i (g, m)))) = None"
    by (simp add: rem gallery_match_def none)
  show "fst (check_duplicate lib matcher probe (snd (gallery_remove lib i (g, m)))) = no_duplicate"
    using none[of "gal_dedup_threshold g'"] by (auto simp: rem check_duplicate_def split: prod.splits option.splits)
qed

definition shared_gallery :: "nat Gallery" where
  "shared_gallery = enable_smpc_distributed
     ((Gallery_new (39 / 100) (32 / 100))\<lparr>gal_entries := [sample_entry_of ''ann'' 5, sample_entry_of ''bob'' 5]\<rparr>)"

theorem gallery_removed_shadows_witness:
  "fst (gallery_match list_lib sample_matcher 5 (snd (gallery_remove list_lib ''ann''
     (shared_gallery, SMPCManager_new\<lparr>sm_coordinator := Some [(''tann'', 5), (''tbob'', 5)]\<rparr>)))) = None"
  using gallery_removed_shadows[of shared_gallery list_lib 5 "SMPCManager_new\<lparr>sm_coordinator := Some [(''tann'', 5), (''tbob'', 5)]\<rparr>"
      "[(''tann'', 1 / 10), (''tbob'', 1 / 10)]" "''tann''" "1 / 10" sample_matcher]
  by (auto simp: shared_gallery_def enable_smpc_distributed_def Gallery_new_def verify_distributed_def SMPCManager_new_def list_lib_def
      sample_dist_def sample_entry_of_def)

end
