(* ===== verification/Fhe_Blob.thy ===== *)
theory Fhe_Blob
  imports EyeD_Prelude
begin

text \<open>
  The homomorphic encryption manager of the engine, \<^verbatim>\<open>iris-engine2/src/fhe.cpp\<close> as compiled
  with \<^verbatim>\<open>IRIS_HAS_FHE\<close>: key initialisation, the blob format that stores the encrypted scales of a
  template, and the encrypted matchers. libiris is the parameter \<open>fhe_ops\<close>. The reader of the
  blob keeps its offset and the sizes it reads at 64 bits, and reading outside the blob is an
  outcome of its own.
\<close>

section \<open>Templates\<close>

record 'b PackedIrisCode =
  code_bits :: 'b
  mask_bits :: 'b

record 'b IrisTemplate =
  iris_codes :: "'b PackedIrisCode list"
  mask_codes :: "'b PackedIrisCode list"
  iris_code_version :: string

text \<open>
  libiris: \<open>et_encrypt\<close> to \<open>et_decrypt\<close> are \<^verbatim>\<open>EncryptedTemplate\<close>, \<open>match_encrypted\<close> to
  \<open>lib_match_with_rotation\<close> are \<^verbatim>\<open>EncryptedMatcher\<close>, \<open>zero_bits\<close> is the value-initialised
  bit array.
\<close>

record ('b, 'e, 'r) fhe_ops =
  et_encrypt :: "'b PackedIrisCode \<Rightarrow> 'e Result"
  et_serialize :: "'e \<Rightarrow> bytes Result"
  et_deserialize :: "bytes \<Rightarrow> 'e Result"
  et_decrypt :: "'e \<Rightarrow> 'b PackedIrisCode Result"
  match_encrypted :: "'e \<Rightarrow> 'e \<Rightarrow> 'r Result"
  decrypt_result :: "'r \<Rightarrow> double Result"
  lib_match_with_rotation :: "'b PackedIrisCode \<Rightarrow> 'b PackedIrisCode \<Rightarrow> int \<Rightarrow> (double \<times> int) Result"
  zero_bits :: 'b

section \<open>Initialisation\<close>

text \<open>
  The outcomes of the library calls of \<^verbatim>\<open>initialize\<close>: creating the context, whether the
  directory exists, loading a bundle, injecting its keys, generating keys, the second
  generation that yields the bundle, saving it; \<open>Inl\<close> of a field is an exception. The result
  is whether it succeeded, the keys the context holds afterwards and those saved.
\<close>

record 'k fhe_init_env =
  ie_create :: bool
  ie_dir_exists :: bool
  ie_load :: "'k option"
  ie_inject :: bool
  ie_generate :: "'k option"
  ie_bundle :: "'k option"
  ie_save :: bool
  ie_throws :: bool

record 'k FHEManager =
  fm_active :: bool
  fm_keys :: "'k option"

definition fhe_initialize :: "'k fhe_init_env \<Rightarrow> string \<Rightarrow> 'k FHEManager \<Rightarrow> bool \<times> 'k FHEManager \<times> 'k option" where
  "fhe_initialize env key_dir m =
     (if ie_throws env then (False, m, None)
      else if \<not> ie_create env then (False, m, None)
      else case (if key_dir \<noteq> [] \<and> ie_dir_exists env then ie_load env else None) of
        Some k \<Rightarrow>
          (if \<not> ie_inject env then (False, m, None)
           else (True, m\<lparr>fm_active := True, fm_keys := Some k\<rparr>, None))
      | None \<Rightarrow>
          (case ie_generate env of
             None \<Rightarrow> (False, m, None)
           | Some k \<Rightarrow>
               (True, m\<lparr>fm_active := True, fm_keys := Some k\<rparr>,
                if key_dir = [] then None
                else case ie_bundle env of None \<Rightarrow> None | Some b \<Rightarrow> if ie_save env then Some b else None)))"

section \<open>The blob\<close>

definition encrypt_and_serialize :: "('b, 'e, 'r) fhe_ops \<Rightarrow> bool \<Rightarrow> 'b PackedIrisCode \<Rightarrow> bytes" where
  "encrypt_and_serialize ops active code =
     (if \<not> active then []
      else case et_encrypt ops code of
        Inl e \<Rightarrow> []
      | Inr enc \<Rightarrow> (case et_serialize ops enc of Inl e \<Rightarrow> [] | Inr ser \<Rightarrow> ser))"

text \<open>The code of scale \<open>s\<close> with the mask that belongs to it.\<close>

definition combined_code :: "'b IrisTemplate \<Rightarrow> nat \<Rightarrow> 'b PackedIrisCode" where
  "combined_code t s =
     \<lparr>code_bits = code_bits (iris_codes t ! s),
      mask_bits = (if s < length (mask_codes t) then code_bits (mask_codes t ! s)
                   else mask_bits (iris_codes t ! s))\<rparr>"

fun encrypt_scales :: "('b, 'e, 'r) fhe_ops \<Rightarrow> 'b IrisTemplate \<Rightarrow> nat list \<Rightarrow> bytes \<Rightarrow> bytes option" where
  "encrypt_scales ops t [] blob = Some blob"
| "encrypt_scales ops t (s # ss) blob =
     (case et_encrypt ops (combined_code t s) of
        Inl e \<Rightarrow> None
      | Inr enc \<Rightarrow>
          (case et_serialize ops enc of
             Inl e \<Rightarrow> None
           | Inr ser \<Rightarrow>
               encrypt_scales ops t ss (blob @ le_bytes 8 (of_nat (length ser) :: u64) @ ser)))"

definition encrypt_template :: "('b, 'e, 'r) fhe_ops \<Rightarrow> bool \<Rightarrow> 'b IrisTemplate \<Rightarrow> bytes \<times> bytes" where
  "encrypt_template ops active t =
     (if \<not> active then ([], [])
      else
        let n_scales = length (iris_codes t) in
        case encrypt_scales ops t [0..<n_scales] (le_bytes 4 (of_nat n_scales :: u32)) of
          None \<Rightarrow> ([], [])
        | Some iris_blob \<Rightarrow> (iris_blob, le_bytes 4 (0 :: u32)))"

text \<open>
  The loop of \<^verbatim>\<open>deserialize_encrypted\<close>; \<open>None\<close> is a read outside the blob. The comparison
  \<^verbatim>\<open>offset + size > len\<close> is made on 64-bit words.
\<close>

fun deserialize_loop ::
  "('b, 'e, 'r) fhe_ops \<Rightarrow> bytes \<Rightarrow> nat \<Rightarrow> u64 \<Rightarrow> 'e list \<Rightarrow> 'e list option" where
  "deserialize_loop ops data 0 offset acc = Some acc"
| "deserialize_loop ops data (Suc n) offset acc =
     (let len = of_nat (length data) :: u64 in
      if offset + 8 \<le> len
      then
        let size = le_word (take 8 (drop (unat offset) data)) :: u64;
            offset = offset + 8 in
        if offset + size > len then Some acc
        else if unat offset + unat size > length data then None
        else case et_deserialize ops (take (unat size) (drop (unat offset) data)) of
               Inl e \<Rightarrow> Some acc
             | Inr et \<Rightarrow> deserialize_loop ops data n (offset + size) (acc @ [et])
      else Some acc)"

definition deserialize_encrypted :: "('b, 'e, 'r) fhe_ops \<Rightarrow> bool \<Rightarrow> bytes \<Rightarrow> 'e list option" where
  "deserialize_encrypted ops active data =
     (if \<not> active \<or> length data < 4 then Some []
      else deserialize_loop ops data (unat (le_word (take 4 data) :: u32)) 4 [])"

fun decrypt_scales ::
  "('b, 'e, 'r) fhe_ops \<Rightarrow> 'e list \<Rightarrow> 'b IrisTemplate \<Rightarrow> 'b IrisTemplate option" where
  "decrypt_scales ops [] t = Some t"
| "decrypt_scales ops (et # ets) t =
     (case et_decrypt ops et of
        Inl e \<Rightarrow> None
      | Inr d \<Rightarrow>
          decrypt_scales ops ets
            (t\<lparr>iris_codes := iris_codes t @ [\<lparr>code_bits = code_bits d, mask_bits = mask_bits d\<rparr>],
               mask_codes := mask_codes t @ [\<lparr>code_bits = mask_bits d, mask_bits = zero_bits ops\<rparr>]\<rparr>))"

text \<open>The outer \<open>None\<close> is the read outside the blob, the inner one \<^verbatim>\<open>std::nullopt\<close>.\<close>

definition FHEManager_decrypt_template :: "('b, 'e, 'r) fhe_ops \<Rightarrow> bool \<Rightarrow> bytes \<Rightarrow> 'b IrisTemplate option option" where
  "FHEManager_decrypt_template ops active iris_blob =
     (if \<not> active \<or> iris_blob = [] then Some None
      else case deserialize_encrypted ops active iris_blob of
        None \<Rightarrow> None
      | Some ets \<Rightarrow>
          Some (if ets = [] then None
                else decrypt_scales ops ets \<lparr>iris_codes = [], mask_codes = [], iris_code_version = ''v2.0''\<rparr>))"

section \<open>Matching\<close>

definition match_probe_vs_encrypted ::
  "('b, 'e, 'r) fhe_ops \<Rightarrow> bool \<Rightarrow> 'b PackedIrisCode \<Rightarrow> 'e \<Rightarrow> double \<times> int" where
  "match_probe_vs_encrypted ops active probe gallery =
     (if \<not> active then (1, 0)
      else case et_encrypt ops probe of
        Inl e \<Rightarrow> (1, 0)
      | Inr enc_probe \<Rightarrow>
          (case match_encrypted ops enc_probe gallery of
             Inl e \<Rightarrow> (1, 0)
           | Inr enc_result \<Rightarrow>
               (case decrypt_result ops enc_result of Inl e \<Rightarrow> (1, 0) | Inr d \<Rightarrow> (d, 0))))"

definition match_with_rotation ::
  "('b, 'e, 'r) fhe_ops \<Rightarrow> bool \<Rightarrow> 'b PackedIrisCode \<Rightarrow> 'b PackedIrisCode \<Rightarrow> int \<Rightarrow> double \<times> int" where
  "match_with_rotation ops active probe gallery rotation_shift =
     (if \<not> active then (1, 0)
      else case lib_match_with_rotation ops probe gallery rotation_shift of
        Inl e \<Rightarrow> (1, 0)
      | Inr (distance, best_rotation) \<Rightarrow> (distance, best_rotation))"

section \<open>Reading back a stored template\<close>

text \<open>
  What is promised of the library: a code that is encrypted and serialised decrypts to itself,
  for each code of the template.
\<close>

definition lib_faithful :: "('b, 'e, 'r) fhe_ops \<Rightarrow> 'b PackedIrisCode set \<Rightarrow> bool" where
  "lib_faithful ops C \<longleftrightarrow>
     (\<forall>c \<in> C. \<exists>enc ser et. et_encrypt ops c = Inr enc \<and> et_serialize ops enc = Inr ser \<and>
        et_deserialize ops ser = Inr et \<and> et_decrypt ops et = Inr c)"

definition the_ser :: "('b, 'e, 'r) fhe_ops \<Rightarrow> 'b PackedIrisCode \<Rightarrow> bytes" where
  "the_ser ops c = (case et_encrypt ops c of
      Inl e \<Rightarrow> [] | Inr enc \<Rightarrow> (case et_serialize ops enc of Inl e \<Rightarrow> [] | Inr ser \<Rightarrow> ser))"

definition chunk :: "bytes \<Rightarrow> bytes" where
  "chunk ser = le_bytes 8 (of_nat (length ser) :: u64) @ ser"

lemma encrypt_scales_chunks:
  assumes "lib_faithful ops (combined_code t ` set ss)"
  shows "encrypt_scales ops t ss blob = Some (blob @ concat (map (\<lambda>s. chunk (the_ser ops (combined_code t s))) ss))"
  using assms
proof (induction ss arbitrary: blob)
  case (Cons s ss)
  then obtain enc ser where "et_encrypt ops (combined_code t s) = Inr enc" "et_serialize ops enc = Inr ser"
    by (auto simp: lib_faithful_def)
  moreover have "lib_faithful ops (combined_code t ` set ss)"
    using Cons.prems by (auto simp: lib_faithful_def)
  ultimately show ?case
    by (simp add: Cons.IH the_ser_def chunk_def)
qed simp

lemma unat_of_nat_less: "n < 2 ^ LENGTH('a) \<Longrightarrow> unat (of_nat n :: 'a::len word) = n"
  by (simp add: unat_of_nat)

lemma length_chunk [simp]: "length (chunk ser) = 8 + length ser"
  by (simp add: chunk_def)

text \<open>Reading the chunk at an offset, when the blob is shorter than \<open>2 ^ 64\<close>.\<close>

lemma deserialize_loop_chunk:
  fixes offset :: u64
  assumes "data = pre @ chunk ser @ post" "length data < 2 ^ 64" "unat offset = length pre"
    and "et_deserialize ops ser = Inr et"
  shows "deserialize_loop ops data (Suc n) offset acc =
           deserialize_loop ops data n (of_nat (length pre + length (chunk ser))) (acc @ [et])"
proof -
  have len: "length data = length pre + 8 + length ser + length post"
    using assms(1) by simp
  have off: "offset = of_nat (length pre)"
    using assms(3) by (simp flip: assms(3))
  have u: "unat (of_nat k :: u64) = k" if "k \<le> length data" for k
    using that assms(2) by (simp add: unat_of_nat_less)
  have o8: "offset + 8 = of_nat (length pre + 8)" by (simp add: off)
  have le: "offset + 8 \<le> of_nat (length data)"
    unfolding o8 word_le_nat_alt by (simp only: u len)
  have sz: "(le_word (take 8 (drop (unat offset) data)) :: u64) = of_nat (length ser)"
    using assms(1,3) le_word_le_bytes[of 8 "of_nat (length ser) :: u64"] by (simp add: chunk_def)
  have us: "unat (of_nat (length ser) :: u64) = length ser"
    by (rule u) (simp add: len)
  have uo: "unat (offset + 8) = length pre + 8"
    unfolding o8 by (rule u) (simp add: len)
  have o9: "offset + 8 + of_nat (length ser) = of_nat (length pre + length (chunk ser))"
    by (simp add: off)
  have ok: "\<not> offset + 8 + of_nat (length ser) > (of_nat (length data) :: u64)"
    unfolding o9 word_less_nat_alt by (simp only: u len length_chunk)
  have body: "take (length ser) (drop (length pre + 8) data) = ser"
    using assms(1) by (simp add: chunk_def)
  show ?thesis
    using le ok by (simp only: deserialize_loop.simps Let_def sz us uo o9 if_True if_False body assms(4) sum.case)
      (simp add: len)
qed

lemma deserialize_loop_chunks:
  assumes "data = pre @ concat (map (\<lambda>c. chunk (f c)) cs)" "length data < 2 ^ 64" "unat (offset :: u64) = length pre"
    and "\<And>c. c \<in> set cs \<Longrightarrow> et_deserialize ops (f c) = Inr (g c)"
  shows "deserialize_loop ops data (length cs) offset acc = Some (acc @ map g cs)"
  using assms
proof (induction cs arbitrary: pre offset acc)
  case (Cons c cs)
  have data: "data = pre @ chunk (f c) @ concat (map (\<lambda>c. chunk (f c)) cs)"
    using Cons.prems(1) by simp
  then have "data = (pre @ chunk (f c)) @ concat (map (\<lambda>c. chunk (f c)) cs)" by simp
  moreover have "unat (of_nat (length pre + length (chunk (f c))) :: u64) = length (pre @ chunk (f c))"
    using Cons.prems(2) data by (simp add: unat_of_nat_less del: of_nat_add length_chunk)
  ultimately have "deserialize_loop ops data (length cs) (of_nat (length pre + length (chunk (f c)))) (acc @ [g c])
      = Some ((acc @ [g c]) @ map g cs)"
    using Cons.prems(2,4) by (intro Cons.IH[of "pre @ chunk (f c)"]) auto
  then show ?case
    using deserialize_loop_chunk[OF data Cons.prems(2,3), of ops "g c" "length cs" acc] Cons.prems(4)
    by (simp del: deserialize_loop.simps)
qed simp

lemma decrypt_scales_map:
  assumes "\<And>e. e \<in> set ets \<Longrightarrow> et_decrypt ops e = Inr (h e)"
  shows "decrypt_scales ops ets t =
           Some (t\<lparr>iris_codes := iris_codes t @ map h ets,
                   mask_codes := mask_codes t @ map (\<lambda>e. \<lparr>code_bits = mask_bits (h e), mask_bits = zero_bits ops\<rparr>) ets\<rparr>)"
  using assms by (induction ets arbitrary: t) simp_all

text \<open>What a stored template reads back as: each scale with its effective mask, in both lists.\<close>

definition stored_form :: "('b, 'e, 'r) fhe_ops \<Rightarrow> 'b IrisTemplate \<Rightarrow> 'b IrisTemplate" where
  "stored_form ops t =
     (let cs = map (combined_code t) [0..<length (iris_codes t)] in
      \<lparr>iris_codes = cs, mask_codes = map (\<lambda>c. \<lparr>code_bits = mask_bits c, mask_bits = zero_bits ops\<rparr>) cs,
       iris_code_version = ''v2.0''\<rparr>)"

lemma le_word_count: "n < 2 ^ 32 \<Longrightarrow> unat (le_word (take 4 (le_bytes 4 (of_nat n :: u32) @ rest)) :: u32) = n"
  using le_word_le_bytes[of 4 "of_nat n :: u32"] by (simp add: unat_of_nat_less)

text \<open>
  C34. A template with at least one scale that is encrypted into its database blob is read back
  from it with the code bits of every scale unchanged and, for every scale that has a mask code,
  with that mask; the mask bits that accompanied the mask codes are not kept.
\<close>

theorem fhe_template_roundtrip:
  assumes "iris_codes t \<noteq> []" "length (iris_codes t) < 2 ^ 32"
    and "lib_faithful ops (combined_code t ` {..<length (iris_codes t)})"
    and "length (fst (encrypt_template ops True t)) < 2 ^ 64"
  shows "FHEManager_decrypt_template ops True (fst (encrypt_template ops True t)) = Some (Some (stored_form ops t)) \<and>
         (\<forall>s < length (iris_codes t). code_bits (iris_codes (stored_form ops t) ! s) = code_bits (iris_codes t ! s)) \<and>
         (\<forall>s < length (mask_codes t). s < length (iris_codes t) \<longrightarrow>
            code_bits (mask_codes (stored_form ops t) ! s) = code_bits (mask_codes t ! s))"
proof -
  define n where "n = length (iris_codes t)"
  define cs where "cs = map (combined_code t) [0..<n]"
  have faithful: "lib_faithful ops (combined_code t ` set [0..<n])"
    using assms(3) by (simp add: n_def lessThan_atLeast0)
  have "\<forall>c \<in> set cs. \<exists>et. et_deserialize ops (the_ser ops c) = Inr et \<and> et_decrypt ops et = Inr c"
    using faithful by (fastforce simp: lib_faithful_def the_ser_def cs_def)
  then obtain g where g: "\<And>c. c \<in> set cs \<Longrightarrow> et_deserialize ops (the_ser ops c) = Inr (g c)"
      "\<And>c. c \<in> set cs \<Longrightarrow> et_decrypt ops (g c) = Inr c"
    by metis
  define blob where "blob = le_bytes 4 (of_nat n :: u32) @ concat (map (\<lambda>c. chunk (the_ser ops c)) cs)"
  have enc: "encrypt_template ops True t = (blob, le_bytes 4 (0 :: u32))"
    using encrypt_scales_chunks[OF faithful] by (simp add: encrypt_template_def n_def blob_def cs_def comp_def Let_def)
  have cnt: "unat (le_word (take 4 blob) :: u32) = length cs"
    unfolding blob_def using assms(2) by (subst le_word_count) (simp_all add: n_def cs_def)
  have "deserialize_loop ops blob (length cs) 4 [] = Some ([] @ map g cs)"
    using assms(4) enc g(1) by (intro deserialize_loop_chunks[of _ "le_bytes 4 (of_nat n :: u32)" "the_ser ops"])
      (simp_all add: blob_def)
  then have des: "deserialize_encrypted ops True blob = Some (map g cs)"
    by (simp add: deserialize_encrypted_def cnt) (simp add: blob_def)
  define h where "h e = (SOME c. et_decrypt ops e = Inr c)" for e
  have h: "h (g c) = c" if "c \<in> set cs" for c
    using g(2)[OF that] by (simp add: h_def)
  have "decrypt_scales ops (map g cs) u = Some (u\<lparr>iris_codes := iris_codes u @ map h (map g cs),
      mask_codes := mask_codes u @ map (\<lambda>e. \<lparr>code_bits = mask_bits (h e), mask_bits = zero_bits ops\<rparr>) (map g cs)\<rparr>)" for u
    using g(2) h by (intro decrypt_scales_map) auto
  moreover have "map h (map g cs) = cs" by (simp add: h map_idI)
  moreover have "cs \<noteq> []" "blob \<noteq> []" using assms(1) by (simp_all add: cs_def n_def blob_def le_bytes_def)
  ultimately have "FHEManager_decrypt_template ops True blob = Some (Some (stored_form ops t))"
    by (simp add: FHEManager_decrypt_template_def des stored_form_def Let_def h cs_def[symmetric] n_def[symmetric] cong: map_cong)
  then show ?thesis
    by (simp add: enc stored_form_def Let_def combined_code_def)
qed

definition sample_ops :: "(u8, u8 PackedIrisCode, unit) fhe_ops" where
  "sample_ops =
     \<lparr>et_encrypt = Inr, et_serialize = (\<lambda>c. Inr [code_bits c, mask_bits c]),
      et_deserialize = (\<lambda>bs. Inr \<lparr>code_bits = bs ! 0, mask_bits = bs ! 1\<rparr>), et_decrypt = Inr,
      match_encrypted = (\<lambda>a b. Inr ()), decrypt_result = (\<lambda>r. Inr 0),
      lib_match_with_rotation = (\<lambda>a b n. Inr (0, 0)), zero_bits = 0\<rparr>"

definition sample_template :: "u8 IrisTemplate" where
  "sample_template =
     \<lparr>iris_codes = [\<lparr>code_bits = 5, mask_bits = 9\<rparr>], mask_codes = [\<lparr>code_bits = 7, mask_bits = 3\<rparr>],
      iris_code_version = ''v2.0''\<rparr>"

theorem fhe_template_roundtrip_witness:
  "FHEManager_decrypt_template sample_ops True (fst (encrypt_template sample_ops True sample_template)) =
     Some (Some \<lparr>iris_codes = [\<lparr>code_bits = 5, mask_bits = 7\<rparr>], mask_codes = [\<lparr>code_bits = 7, mask_bits = 0\<rparr>],
                 iris_code_version = ''v2.0''\<rparr>)"
proof -
  have "lib_faithful sample_ops C" for C
    by (simp add: lib_faithful_def sample_ops_def)
  then show ?thesis
    using fhe_template_roundtrip[of sample_template sample_ops]
    by (simp add: sample_template_def encrypt_template_def combined_code_def stored_form_def sample_ops_def)
qed


lemma le_word_small:
  assumes "\<forall>b \<in> set bs. \<not> bit b 7"
  shows "unat (le_word bs :: u64) < 2 ^ 63"
proof -
  have "\<not> bit (le_word bs :: u64) 63"
    using assms by (auto simp: bit_le_word)
  then have "le_word bs = (take_bit 63 (le_word bs) :: u64)"
    by (intro bit_word_eqI) (auto simp: bit_take_bit_iff less_Suc_eq numeral_eq_Suc)
  then have "unat (le_word bs :: u64) = take_bit 63 (unat (le_word bs :: u64))"
    by (metis unsigned_take_bit_eq)
  then show ?thesis by (metis take_bit_nat_less_exp)
qed

definition sample_blob :: bytes where
  "sample_blob = [1, 0, 0, 0, 2, 0, 0, 0, 0, 0, 0, 0, 5, 7]"


end
