(* ===== verification/Db.thy ===== *)
theory Db
  imports Fhe_Blob Texts
begin

text \<open>
  The engine's database layer (\<^verbatim>\<open>iris-engine2/src/db.cpp\<close>) over the schema of
  \<^verbatim>\<open>config/init.sql\<close>. The tables are values; each SQL statement of the source is a function on
  them with the constraints of the schema (keys, references, the check on \<^verbatim>\<open>eye_side\<close>). Whether
  the server can be reached and a statement executed is a parameter, as are the recogniser of
  UUIDs and the binary serialiser of one code in libiris.
\<close>

section \<open>Tables and connection\<close>

record template_row =
  tr_template_id :: string
  tr_identity_id :: string
  tr_eye_side :: string
  tr_iris_codes :: bytes
  tr_mask_codes :: bytes
  tr_width :: int
  tr_height :: int
  tr_n_scales :: int
  tr_quality_score :: double
  tr_device_id :: string

record match_row =
  mr_probe_frame_id :: string
  mr_matched_template_id :: "string option"
  mr_matched_identity_id :: "string option"
  mr_hamming_distance :: double
  mr_is_match :: bool
  mr_device_id :: string
  mr_latency_ms :: int

record tables =
  tb_identities :: "string \<rightharpoonup> string"
  tb_templates :: "template_row list"
  tb_match_log :: "match_row list"

text \<open>
  \<open>pq_connects\<close>: a new connection can be made; \<open>pq_alive\<close>: the existing one is usable; \<open>pq_exec\<close>:
  statements are executed; \<open>pq_null_empty\<close>: \<^verbatim>\<open>data()\<close> of an empty vector is a null pointer,
  which libpq sends as \<^verbatim>\<open>NULL\<close>.
\<close>

record pq_env =
  pq_connects :: bool
  pq_alive :: bool
  pq_exec :: bool
  pq_uuid :: "string \<Rightarrow> bool"
  pq_null_empty :: bool

record Database =
  db_conn :: bool
  db_conninfo :: string

definition Database_new :: Database where
  "Database_new = \<lparr>db_conn = False, db_conninfo = []\<rparr>"

definition db_connect :: "pq_env \<Rightarrow> string \<Rightarrow> Database \<Rightarrow> bool \<times> Database" where
  "db_connect env conninfo db =
     (let db = db\<lparr>db_conninfo := conninfo\<rparr> in
      if \<not> pq_connects env then (False, db) else (True, db\<lparr>db_conn := True\<rparr>))"

definition db_reconnect :: "pq_env \<Rightarrow> Database \<Rightarrow> bool \<times> Database" where
  "db_reconnect env db =
     (if db_conninfo db = [] then (False, db)
      else if \<not> pq_connects env then (False, db\<lparr>db_conn := False\<rparr>)
      else (True, db\<lparr>db_conn := True\<rparr>))"

definition db_disconnect :: "Database \<Rightarrow> Database" where
  "db_disconnect db = db\<lparr>db_conn := False\<rparr>"

definition db_is_connected :: "pq_env \<Rightarrow> Database \<Rightarrow> bool" where
  "db_is_connected env db = (db_conn db \<and> pq_alive env)"

section \<open>Codes as bytes\<close>

text \<open>\<^verbatim>\<open>TemplateSerializer\<close> of libiris: the size of one code, and its two directions.\<close>

record 'b code_serializer =
  kBinarySize :: nat
  to_binary :: "'b PackedIrisCode \<Rightarrow> bytes"
  from_binary :: "bytes \<Rightarrow> 'b PackedIrisCode Result"

definition serialize_codes :: "'b code_serializer \<Rightarrow> 'b PackedIrisCode list \<Rightarrow> bytes" where
  "serialize_codes ser codes = concat (map (to_binary ser) codes)"

text \<open>
  The loop \<^verbatim>\<open>for (i = 0; i + kSize <= len; i += kSize)\<close> on the bytes from \<open>i\<close>; \<^verbatim>\<open>kSize\<close> is a
  positive constant, and the first argument counts the rounds.
\<close>

fun deserialize_rounds :: "'b code_serializer \<Rightarrow> nat \<Rightarrow> bytes \<Rightarrow> 'b PackedIrisCode list" where
  "deserialize_rounds ser 0 data = []"
| "deserialize_rounds ser (Suc n) data =
     (if kBinarySize ser \<le> length data
      then (case from_binary ser (take (kBinarySize ser) data) of Inl e \<Rightarrow> [] | Inr c \<Rightarrow> [c]) @
           deserialize_rounds ser n (drop (kBinarySize ser) data)
      else [])"

definition deserialize_codes :: "'b code_serializer \<Rightarrow> bytes \<Rightarrow> 'b PackedIrisCode list" where
  "deserialize_codes ser data = deserialize_rounds ser (length data div kBinarySize ser) data"

section \<open>Statements\<close>

record 'b DbTemplate =
  dt_template_id :: string
  dt_identity_id :: string
  dt_identity_name :: string
  dt_eye_side :: string
  dt_tmpl :: "'b IrisTemplate"

definition load_all_templates :: "'b code_serializer \<Rightarrow> pq_env \<Rightarrow> Database \<Rightarrow> tables \<Rightarrow> 'b DbTemplate list" where
  "load_all_templates ser env db tb =
     (if \<not> db_is_connected env db \<or> \<not> pq_exec env then []
      else concat (map (\<lambda>r. case tb_identities tb (tr_identity_id r) of
             None \<Rightarrow> []
           | Some name \<Rightarrow>
               [\<lparr>dt_template_id = tr_template_id r, dt_identity_id = tr_identity_id r, dt_identity_name = name,
                 dt_eye_side = tr_eye_side r,
                 dt_tmpl = \<lparr>iris_codes = deserialize_codes ser (tr_iris_codes r),
                            mask_codes = deserialize_codes ser (tr_mask_codes r),
                            iris_code_version = ''v2.0''\<rparr>\<rparr>]) (tb_templates tb)))"

record 'b TemplateRow =
  row_template :: template_row
  row_identity_name :: string
  row_tmpl :: "'b IrisTemplate"
  row_is_encrypted :: bool

definition load_template ::
  "'b code_serializer \<Rightarrow> pq_env \<Rightarrow> Database \<Rightarrow> tables \<Rightarrow> string \<Rightarrow> 'b TemplateRow option" where
  "load_template ser env db tb template_id =
     (if \<not> db_is_connected env db \<or> \<not> pq_exec env \<or> \<not> pq_uuid env template_id then None
      else case find (\<lambda>r. tr_template_id r = template_id \<and> tb_identities tb (tr_identity_id r) \<noteq> None) (tb_templates tb) of
        None \<Rightarrow> None
      | Some r \<Rightarrow>
          let codes = deserialize_codes ser (tr_iris_codes r) in
          Some \<lparr>row_template = r, row_identity_name = the (tb_identities tb (tr_identity_id r)),
                row_tmpl = \<lparr>iris_codes = codes, mask_codes = deserialize_codes ser (tr_mask_codes r),
                            iris_code_version = ''v2.0''\<rparr>,
                row_is_encrypted = (codes = [] \<and> length (tr_iris_codes r) > 4)\<rparr>)"

definition ensure_identity :: "pq_env \<Rightarrow> Database \<Rightarrow> string \<Rightarrow> string \<Rightarrow> tables \<Rightarrow> bool \<times> tables" where
  "ensure_identity env db identity_id name tb =
     (if \<not> db_is_connected env db \<or> \<not> pq_exec env \<or> \<not> pq_uuid env identity_id then (False, tb)
      else (True, tb\<lparr>tb_identities := (tb_identities tb)(identity_id \<mapsto> name)\<rparr>))"

text \<open>The \<^verbatim>\<open>INSERT INTO templates\<close> both persisting functions execute.\<close>

definition insert_template :: "pq_env \<Rightarrow> template_row \<Rightarrow> tables \<Rightarrow> bool \<times> tables" where
  "insert_template env r tb =
     (if pq_exec env \<and> pq_uuid env (tr_template_id r) \<and> pq_uuid env (tr_identity_id r) \<and>
         tr_template_id r \<notin> set (map tr_template_id (tb_templates tb)) \<and>
         tb_identities tb (tr_identity_id r) \<noteq> None \<and>
         (tr_eye_side r = ''left'' \<or> tr_eye_side r = ''right'') \<and>
         \<not> (pq_null_empty env \<and> (tr_iris_codes r = [] \<or> tr_mask_codes r = []))
      then (True, tb\<lparr>tb_templates := tb_templates tb @ [r]\<rparr>)
      else (False, tb))"

definition persist_template ::
  "'b code_serializer \<Rightarrow> pq_env \<Rightarrow> Database \<Rightarrow> string \<Rightarrow> string \<Rightarrow> string \<Rightarrow> 'b IrisTemplate \<Rightarrow> string \<Rightarrow> tables \<Rightarrow>
   bool \<times> tables" where
  "persist_template ser env db template_id identity_id eye_side tmpl device_id tb =
     (if \<not> db_is_connected env db then (False, tb)
      else insert_template env
        \<lparr>tr_template_id = template_id, tr_identity_id = identity_id, tr_eye_side = eye_side,
         tr_iris_codes = serialize_codes ser (iris_codes tmpl), tr_mask_codes = serialize_codes ser (mask_codes tmpl),
         tr_width = 512, tr_height = 16, tr_n_scales = int (length (iris_codes tmpl)), tr_quality_score = 0,
         tr_device_id = device_id\<rparr> tb)"

definition persist_encrypted_template ::
  "pq_env \<Rightarrow> Database \<Rightarrow> string \<Rightarrow> string \<Rightarrow> string \<Rightarrow> bytes \<Rightarrow> bytes \<Rightarrow> int \<Rightarrow> string \<Rightarrow> tables \<Rightarrow> bool \<times> tables" where
  "persist_encrypted_template env db template_id identity_id eye_side iris_blob mask_blob n_scales device_id tb =
     (if \<not> db_is_connected env db then (False, tb)
      else insert_template env
        \<lparr>tr_template_id = template_id, tr_identity_id = identity_id, tr_eye_side = eye_side,
         tr_iris_codes = iris_blob, tr_mask_codes = mask_blob, tr_width = 512, tr_height = 16, tr_n_scales = n_scales,
         tr_quality_score = 0, tr_device_id = device_id\<rparr> tb)"

record RawTemplate =
  rt_template_id :: string
  rt_identity_id :: string
  rt_identity_name :: string
  rt_eye_side :: string
  rt_iris_blob :: bytes
  rt_mask_blob :: bytes
  rt_n_scales :: int

definition load_all_raw_templates :: "pq_env \<Rightarrow> Database \<Rightarrow> tables \<Rightarrow> RawTemplate list" where
  "load_all_raw_templates env db tb =
     (if \<not> db_is_connected env db \<or> \<not> pq_exec env then []
      else concat (map (\<lambda>r. case tb_identities tb (tr_identity_id r) of
             None \<Rightarrow> []
           | Some name \<Rightarrow>
               [\<lparr>rt_template_id = tr_template_id r, rt_identity_id = tr_identity_id r, rt_identity_name = name,
                 rt_eye_side = tr_eye_side r, rt_iris_blob = tr_iris_codes r, rt_mask_blob = tr_mask_codes r,
                 rt_n_scales = tr_n_scales r\<rparr>]) (tb_templates tb)))"

text \<open>Removing template rows sets the references of the match log to them to \<^verbatim>\<open>NULL\<close>.\<close>

definition forget_templates :: "(template_row \<Rightarrow> bool) \<Rightarrow> tables \<Rightarrow> tables" where
  "forget_templates P tb =
     (let gone = set (map tr_template_id (filter P (tb_templates tb))) in
      tb\<lparr>tb_templates := filter (\<lambda>r. \<not> P r) (tb_templates tb),
         tb_match_log := map (\<lambda>l. case mr_matched_template_id l of
             Some t \<Rightarrow> if t \<in> gone then l\<lparr>mr_matched_template_id := None\<rparr> else l | None \<Rightarrow> l) (tb_match_log tb)\<rparr>)"

definition forget_identity :: "string \<Rightarrow> tables \<Rightarrow> tables" where
  "forget_identity i tb =
     (let tb = forget_templates (\<lambda>r. tr_identity_id r = i) tb in
      tb\<lparr>tb_identities := (tb_identities tb)(i := None),
         tb_match_log := map (\<lambda>l. if mr_matched_identity_id l = Some i then l\<lparr>mr_matched_identity_id := None\<rparr> else l)
           (tb_match_log tb)\<rparr>)"

text \<open>Two statements, each of which the server may fail to execute.\<close>

definition delete_identity :: "pq_env \<Rightarrow> bool \<Rightarrow> Database \<Rightarrow> string \<Rightarrow> tables \<Rightarrow> nat \<times> tables" where
  "delete_identity env exec2 db identity_id tb =
     (if \<not> db_is_connected env db \<or> \<not> pq_uuid env identity_id then (0, tb)
      else
        let (count, tb) =
              (if pq_exec env
               then (length (filter (\<lambda>r. tr_identity_id r = identity_id) (tb_templates tb)),
                     forget_templates (\<lambda>r. tr_identity_id r = identity_id) tb)
               else (0, tb))
        in (count, if exec2 then forget_identity identity_id tb else tb))"

definition null_if_empty :: "string \<Rightarrow> string option" where
  "null_if_empty s = (if s = [] then None else Some s)"

definition log_match ::
  "pq_env \<Rightarrow> Database \<Rightarrow> string \<Rightarrow> string \<Rightarrow> string \<Rightarrow> double \<Rightarrow> bool \<Rightarrow> string \<Rightarrow> int \<Rightarrow> tables \<Rightarrow> tables" where
  "log_match env db frame_id tid iid hd_val is_match device_id latency_ms tb =
     (let t = null_if_empty tid; i = null_if_empty iid in
      if db_is_connected env db \<and> pq_exec env \<and>
         (case t of None \<Rightarrow> True | Some x \<Rightarrow> x \<in> set (map tr_template_id (tb_templates tb))) \<and>
         (case i of None \<Rightarrow> True | Some x \<Rightarrow> tb_identities tb x \<noteq> None)
      then tb\<lparr>tb_match_log := tb_match_log tb @
             [\<lparr>mr_probe_frame_id = frame_id, mr_matched_template_id = t, mr_matched_identity_id = i,
               mr_hamming_distance = hd_val, mr_is_match = is_match, mr_device_id = device_id, mr_latency_ms = latency_ms\<rparr>]\<rparr>
      else tb)"

section \<open>Integrity\<close>

text \<open>The constraints of the schema, as an invariant of the tables.\<close>

definition tables_ok :: "tables \<Rightarrow> bool" where
  "tables_ok tb \<longleftrightarrow>
     distinct (map tr_template_id (tb_templates tb)) \<and>
     (\<forall>r \<in> set (tb_templates tb). tb_identities tb (tr_identity_id r) \<noteq> None) \<and>
     (\<forall>l \<in> set (tb_match_log tb).
        (\<forall>t. mr_matched_template_id l = Some t \<longrightarrow> t \<in> set (map tr_template_id (tb_templates tb))) \<and>
        (\<forall>i. mr_matched_identity_id l = Some i \<longrightarrow> tb_identities tb i \<noteq> None))"

lemma insert_template_ok: "tables_ok tb \<Longrightarrow> tables_ok (snd (insert_template env r tb))"
  by (auto simp: tables_ok_def insert_template_def)

lemma ensure_identity_ok: "tables_ok tb \<Longrightarrow> tables_ok (snd (ensure_identity env db i n tb))"
  by (auto simp: tables_ok_def ensure_identity_def)

lemma log_match_ok: "tables_ok tb \<Longrightarrow> tables_ok (log_match env db f t i h b d l tb)"
  by (auto simp: tables_ok_def log_match_def Let_def null_if_empty_def split: option.splits if_splits)

lemma forget_templates_ok:
  assumes "tables_ok tb" shows "tables_ok (forget_templates P tb)"
proof -
  have "t \<in> tr_template_id ` {r \<in> set (tb_templates tb). \<not> P r}"
    if "t \<in> tr_template_id ` set (tb_templates tb)" "t \<notin> tr_template_id ` {r \<in> set (tb_templates tb). P r}" for t
    using that by auto
  then show ?thesis
    using assms
    by (auto simp: tables_ok_def forget_templates_def Let_def distinct_map_filter split: option.splits if_splits)
qed

lemma forget_identity_ok:
  assumes "tables_ok tb" shows "tables_ok (forget_identity i tb)"
proof -
  define u where "u = forget_templates (\<lambda>r. tr_identity_id r = i) tb"
  have "tables_ok u" unfolding u_def by (rule forget_templates_ok[OF assms])
  moreover have "\<forall>r \<in> set (tb_templates u). tr_identity_id r \<noteq> i"
    by (simp add: u_def forget_templates_def Let_def)
  ultimately show ?thesis
    by (auto simp: forget_identity_def u_def[symmetric] tables_ok_def split: if_splits)
qed

section \<open>Codes are read back\<close>

lemma deserialize_rounds_serialized:
  assumes "\<And>c. c \<in> set cs \<Longrightarrow> length (to_binary ser c) = kBinarySize ser \<and> from_binary ser (to_binary ser c) = Inr c"
  shows "deserialize_rounds ser (length cs) (serialize_codes ser cs) = cs"
  using assms by (induction cs) (simp_all add: serialize_codes_def)

lemma deserialize_serialize:
  assumes "\<And>c. c \<in> set cs \<Longrightarrow> length (to_binary ser c) = kBinarySize ser \<and> from_binary ser (to_binary ser c) = Inr c"
    and "0 < kBinarySize ser"
  shows "deserialize_codes ser (serialize_codes ser cs) = cs"
proof -
  have "length (serialize_codes ser cs) = length cs * kBinarySize ser"
    using assms(1) by (induction cs) (simp_all add: serialize_codes_def)
  then show ?thesis
    using assms by (simp add: deserialize_codes_def deserialize_rounds_serialized)
qed

lemma load_all_insert:
  assumes "db_is_connected env db" "insert_template env r tb = (True, tb')" "tb_identities tb (tr_identity_id r) = Some name"
  shows "load_all_templates ser env db tb' = load_all_templates ser env db tb @
           [\<lparr>dt_template_id = tr_template_id r, dt_identity_id = tr_identity_id r, dt_identity_name = name,
             dt_eye_side = tr_eye_side r,
             dt_tmpl = \<lparr>iris_codes = deserialize_codes ser (tr_iris_codes r), mask_codes = deserialize_codes ser (tr_mask_codes r),
                        iris_code_version = ''v2.0''\<rparr>\<rparr>]"
  using assms by (auto simp: load_all_templates_def insert_template_def split: if_splits)

lemma delete_identity_loads_none:
  assumes "pq_exec env" "db_is_connected env db" "pq_uuid env i"
  shows "\<forall>t \<in> set (load_all_templates ser env db (snd (delete_identity env exec2 db i tb))). dt_identity_id t \<noteq> i"
    and "fst (delete_identity env exec2 db i tb) = length (filter (\<lambda>r. tr_identity_id r = i) (tb_templates tb))"
  using assms
  by (auto simp: load_all_templates_def delete_identity_def forget_identity_def forget_templates_def Let_def split: option.splits)

lemma delete_identity_ok: "tables_ok tb \<Longrightarrow> tables_ok (snd (delete_identity env exec2 db i tb))"
  by (auto simp: delete_identity_def Let_def intro: forget_templates_ok forget_identity_ok)

text \<open>The promise of the serialiser of libiris for the codes of a template.\<close>

definition serializer_faithful :: "'b code_serializer \<Rightarrow> 'b PackedIrisCode list \<Rightarrow> bool" where
  "serializer_faithful ser cs \<longleftrightarrow>
     0 < kBinarySize ser \<and>
     (\<forall>c \<in> set cs. length (to_binary ser c) = kBinarySize ser \<and> from_binary ser (to_binary ser c) = Inr c)"

lemma load_after_persist:
  assumes "tables_ok tb" "db_is_connected env db" "ensure_identity env db i name tb = (True, tb1)"
    and "persist_template ser env db tid i side tmpl dev tb1 = (True, tb2)"
    and "serializer_faithful ser (iris_codes tmpl @ mask_codes tmpl)"
  shows "tables_ok tb2 \<and>
         load_all_templates ser env db tb2 = load_all_templates ser env db tb1 @
           [\<lparr>dt_template_id = tid, dt_identity_id = i, dt_identity_name = name, dt_eye_side = side,
             dt_tmpl = tmpl\<lparr>iris_code_version := ''v2.0''\<rparr>\<rparr>]"
proof -
  have ids: "tb_identities tb1 i = Some name" and ok1: "tables_ok tb1"
    using assms(3) ensure_identity_ok[OF assms(1), of env db i name] by (auto simp: ensure_identity_def split: if_splits)
  define r where "r = \<lparr>tr_template_id = tid, tr_identity_id = i, tr_eye_side = side,
         tr_iris_codes = serialize_codes ser (iris_codes tmpl), tr_mask_codes = serialize_codes ser (mask_codes tmpl),
         tr_width = 512, tr_height = 16, tr_n_scales = int (length (iris_codes tmpl)), tr_quality_score = 0,
         tr_device_id = dev\<rparr>"
  have ins: "insert_template env r tb1 = (True, tb2)"
    using assms(2,4) by (simp add: persist_template_def r_def)
  have codes: "deserialize_codes ser (serialize_codes ser (iris_codes tmpl)) = iris_codes tmpl"
    "deserialize_codes ser (serialize_codes ser (mask_codes tmpl)) = mask_codes tmpl"
    using assms(5) by (auto simp: serializer_faithful_def intro!: deserialize_serialize)
  have ok2: "tables_ok tb2" using insert_template_ok[OF ok1, of env r] ins by simp
  show ?thesis
    using load_all_insert[OF assms(2) ins, of name ser] ids codes ok2 by (simp add: r_def)
qed


definition up_env :: pq_env where
  "up_env = \<lparr>pq_connects = True, pq_alive = True, pq_exec = True, pq_uuid = (\<lambda>s. s \<noteq> []), pq_null_empty = True\<rparr>"

definition up_db :: Database where
  "up_db = \<lparr>db_conn = True, db_conninfo = ''c''\<rparr>"

definition byte_serializer :: "u8 code_serializer" where
  "byte_serializer =
     \<lparr>kBinarySize = 2, to_binary = (\<lambda>c. [code_bits c, mask_bits c]),
      from_binary = (\<lambda>bs. Inr \<lparr>code_bits = bs ! 0, mask_bits = bs ! 1\<rparr>)\<rparr>"

definition empty_tables :: tables where
  "empty_tables = \<lparr>tb_identities = Map.empty, tb_templates = [], tb_match_log = []\<rparr>"


end
