(* ===== verification/Uuid.thy ===== *)
theory Uuid
  imports EyeD_Prelude
begin

text \<open>
  The identifiers of templates (\<^verbatim>\<open>generate_uuid\<close> of \<^verbatim>\<open>iris-engine2/src/utils.h\<close>): version 4
  UUIDs printed from two 64-bit random numbers.
\<close>

unbundle bit_operations_syntax

section \<open>Hexadecimal digits\<close>

definition hex_digit :: "nat \<Rightarrow> char" where
  "hex_digit n = (if n < 10 then char_of (48 + n) else char_of (87 + n))"

text \<open>\<^verbatim>\<open>%0nx\<close>: the low \<open>n\<close> hexadecimal digits, for a value that fits them.\<close>

definition hex :: "nat \<Rightarrow> nat \<Rightarrow> string" where
  "hex n v = map (\<lambda>i. hex_digit (v div 16 ^ (n - 1 - i) mod 16)) [0..<n]"

definition generate_uuid :: "u64 \<Rightarrow> u64 \<Rightarrow> string" where
  "generate_uuid a b =
     (let a = (a AND 0xFFFFFFFFFFFF0FFF) OR 0x4000;
          b = (b AND 0x3FFFFFFFFFFFFFFF) OR 0x8000000000000000
      in hex 8 (unat (drop_bit 32 a)) @ ''-'' @ hex 4 (unat (drop_bit 16 a AND 0xFFFF)) @ ''-'' @
         hex 4 (unat (a AND 0xFFFF)) @ ''-'' @ hex 4 (unat (drop_bit 48 b AND 0xFFFF)) @ ''-'' @
         hex 12 (unat (b AND 0x0000FFFFFFFFFFFF)))"

definition lower_hex :: string where
  "lower_hex = ''0123456789abcdef''"

text \<open>The grammar of a version 4 UUID (RFC 4122), in lower case.\<close>

definition uuid_v4 :: "string \<Rightarrow> bool" where
  "uuid_v4 s \<longleftrightarrow> length s = 36 \<and>
     (\<forall>i < 36. if i \<in> {8, 13, 18, 23} then s ! i = CHR ''-'' else s ! i \<in> set lower_hex) \<and>
     s ! 14 = CHR ''4'' \<and> s ! 19 \<in> {CHR ''8'', CHR ''9'', CHR ''a'', CHR ''b''}"

lemma hex_digit_table:
  assumes "n < 16"
  shows "hex_digit n = lower_hex ! n"
proof -
  have "list_all (\<lambda>n. hex_digit n = lower_hex ! n) [0..<16]" by code_simp
  with assms show ?thesis by (simp add: list_all_iff)
qed

lemma lower_hex_basic: "length lower_hex = 16" "distinct lower_hex"
  by (simp_all add: lower_hex_def)

lemma hex_digit_in [simp]: "n < 16 \<Longrightarrow> hex_digit n \<in> set lower_hex"
  by (simp add: hex_digit_table lower_hex_basic)

lemma hex_digit_inject: "m < 16 \<Longrightarrow> n < 16 \<Longrightarrow> hex_digit m = hex_digit n \<longleftrightarrow> m = n"
  by (simp add: hex_digit_table lower_hex_basic nth_eq_iff_index_eq)

lemma length_hex [simp]: "length (hex n v) = n"
  by (simp add: hex_def)

lemma hex_nth: "i < n \<Longrightarrow> hex n v ! i = hex_digit (v div 16 ^ (n - 1 - i) mod 16)"
  by (simp add: hex_def)

lemma hex_nth_in [simp]: "i < n \<Longrightarrow> hex n v ! i \<in> set lower_hex"
  by (simp add: hex_nth)

lemma hex_Suc: "hex (Suc n) v = hex n (v div 16) @ [hex_digit (v mod 16)]"
proof (rule nth_equalityI)
  fix i assume "i < length (hex (Suc n) v)"
  then consider "i < n" | "i = n" by fastforce
  then show "hex (Suc n) v ! i = (hex n (v div 16) @ [hex_digit (v mod 16)]) ! i"
  proof cases
    case 1
    then have "n - i = Suc (n - 1 - i)" by simp
    then have "v div 16 ^ (n - i) = v div 16 div 16 ^ (n - 1 - i)" by (simp add: div_mult2_eq)
    with 1 show ?thesis by (simp add: hex_nth nth_append)
  qed (simp add: hex_nth nth_append)
qed simp

lemma hex_inject: "v < 16 ^ n \<Longrightarrow> w < 16 ^ n \<Longrightarrow> hex n v = hex n w \<longleftrightarrow> v = w"
proof (induction n arbitrary: v w)
  case (Suc n)
  have "v div 16 < 16 ^ n" "w div 16 < 16 ^ n" using Suc.prems by (auto simp: less_mult_imp_div_less)
  then have "hex (Suc n) v = hex (Suc n) w \<longleftrightarrow> v div 16 = w div 16 \<and> v mod 16 = w mod 16"
    using Suc.IH by (simp add: hex_Suc hex_digit_inject)
  also have "\<dots> \<longleftrightarrow> v = w" by (metis div_mult_mod_eq)
  finally show ?case .
qed simp

section \<open>The identifiers\<close>

lemma unat_and_mask: "unat (x AND mask n) = unat x mod 2 ^ n" for x :: u64
proof -
  have "unat (take_bit n x) = unat x mod 2 ^ n" unfolding unsigned_take_bit_eq by (rule take_bit_eq_mod)
  then show ?thesis by (simp only: take_bit_eq_mask)
qed

lemma masks: "0xF = (mask 4 :: u64)" "0xFFFF = (mask 16 :: u64)" "0x0000FFFFFFFFFFFF = (mask 48 :: u64)"
  by (simp_all add: mask_eq_exp_minus_1)

lemma and_low:
  "unat (x AND 0xF) = unat x mod 2 ^ 4" "unat (x AND 0xFFFF) = unat x mod 2 ^ 16"
  "unat (x AND 0x0000FFFFFFFFFFFF) = unat x mod 2 ^ 48" for x :: u64
  unfolding masks by (rule unat_and_mask)+

lemma unat_drop: "unat (drop_bit n x) = unat x div 2 ^ n" for x :: u64
  unfolding unat_drop_bit_eq by (rule drop_bit_eq_div)

lemma three_fields: "x = (x div (c * d) * d + x div c mod d) * c + x mod c" for x :: nat
  by (simp add: div_mult2_eq)

definition uuid_fields :: "u64 \<Rightarrow> u64 \<Rightarrow> string" where
  "uuid_fields a b =
     hex 8 (unat a div 2 ^ 32) @ ''-'' @ hex 4 (unat a div 2 ^ 16 mod 2 ^ 16) @ ''-'' @ hex 4 (unat a mod 2 ^ 16) @ ''-'' @
     hex 4 (unat b div 2 ^ 48) @ ''-'' @ hex 12 (unat b mod 2 ^ 48)"

lemma u64_bound: "unat (x :: u64) < 2 ^ 64"
  using unsigned_less [of x, where 'a = nat] by simp

lemma generate_uuid_fields:
  "generate_uuid a b = uuid_fields ((a AND 0xFFFFFFFFFFFF0FFF) OR 0x4000) ((b AND 0x3FFFFFFFFFFFFFFF) OR 0x8000000000000000)"
proof -
  have "unat x div 2 ^ 48 mod 2 ^ 16 = unat x div 2 ^ 48" for x :: u64
    using u64_bound [of x] by (simp add: less_mult_imp_div_less)
  then show ?thesis
    unfolding generate_uuid_def uuid_fields_def Let_def and_low unat_drop by simp
qed

lemma uuid_fields_inject: "uuid_fields a b = uuid_fields a' b' \<longleftrightarrow> a = a' \<and> b = b'"
proof
  assume "uuid_fields a b = uuid_fields a' b'"
  then have h: "hex 8 (unat a div 2 ^ 32) = hex 8 (unat a' div 2 ^ 32)"
    "hex 4 (unat a div 2 ^ 16 mod 2 ^ 16) = hex 4 (unat a' div 2 ^ 16 mod 2 ^ 16)"
    "hex 4 (unat a mod 2 ^ 16) = hex 4 (unat a' mod 2 ^ 16)"
    "hex 4 (unat b div 2 ^ 48) = hex 4 (unat b' div 2 ^ 48)"
    "hex 12 (unat b mod 2 ^ 48) = hex 12 (unat b' mod 2 ^ 48)"
    by (simp_all add: uuid_fields_def)
  have "unat x div 2 ^ 32 < 16 ^ 8" "unat x div 2 ^ 48 < 16 ^ 4" for x :: u64
    using u64_bound [of x] by (simp_all add: less_mult_imp_div_less)
  with h have e: "unat a div 2 ^ 32 = unat a' div 2 ^ 32" "unat a div 2 ^ 16 mod 2 ^ 16 = unat a' div 2 ^ 16 mod 2 ^ 16"
    "unat a mod 2 ^ 16 = unat a' mod 2 ^ 16" "unat b div 2 ^ 48 = unat b' div 2 ^ 48" "unat b mod 2 ^ 48 = unat b' mod 2 ^ 48"
    by (simp_all add: hex_inject)
  have "unat a = unat a'" using e(1-3) three_fields [of "unat a" "2 ^ 16" "2 ^ 16"] three_fields [of "unat a'" "2 ^ 16" "2 ^ 16"]
    by simp
  moreover have "unat b = unat b'" using e(4,5) by (metis div_mult_mod_eq)
  ultimately show "a = a' \<and> b = b'" by (simp add: word_unat_eq_iff)
qed simp

lemma version_nibble: "unat ((a AND 0xFFFFFFFFFFFF0FFF) OR 0x4000 :: u64) mod 2 ^ 16 div 4096 mod 16 = 4"
proof -
  let ?a = "(a AND 0xFFFFFFFFFFFF0FFF) OR 0x4000 :: u64"
  have "drop_bit 12 ?a AND 0xF = 4"
    by (simp add: bit.conj_disj_distrib2 and.assoc)
  then have "unat (drop_bit 12 ?a AND 0xF) = 4" by (simp only: unat_numeral) simp
  then have "unat ?a div 2 ^ 12 mod 2 ^ 4 = 4" unfolding and_low unat_drop .
  moreover have "n mod 2 ^ 16 div 4096 mod 16 = n div 2 ^ 12 mod 2 ^ 4" for n :: nat
    by (simp add: mod_mult2_eq [of n 4096 16, simplified])
  ultimately show ?thesis by simp
qed

lemma variant_nibble:
  "unat ((b AND 0x3FFFFFFFFFFFFFFF) OR 0x8000000000000000 :: u64) div 2 ^ 48 div 4096 mod 16 \<in> {8, 9, 10, 11}"
proof -
  let ?b = "(b AND 0x3FFFFFFFFFFFFFFF) OR 0x8000000000000000 :: u64"
  define y where "y = drop_bit 60 b AND 3"
  have "drop_bit 60 ?b = y OR 8" by (simp add: y_def)
  moreover have "unat y < 4"
    using unat_and_mask [of "drop_bit 60 b" 2] by (simp add: y_def mask_eq_exp_minus_1)
  then have "y \<in> {0, 1, 2, 3}"
  proof -
    have "unat y = 0 \<or> unat y = 1 \<or> unat y = 2 \<or> unat y = 3" using \<open>unat y < 4\<close> by linarith
    then show ?thesis by (auto simp: word_unat_eq_iff)
  qed
  ultimately have "unat (drop_bit 60 ?b) \<in> {8, 9, 10, 11}" by auto
  then have "unat ?b div 2 ^ 60 \<in> {8, 9, 10, 11}" unfolding unat_drop .
  moreover have "unat ?b div 2 ^ 48 div 4096 mod 16 = unat ?b div 2 ^ 60"
    using u64_bound [of ?b] by (simp add: div_mult2_eq [symmetric] less_mult_imp_div_less)
  ultimately show ?thesis by simp
qed

lemma uuid_fields_shape:
  assumes "unat a mod 2 ^ 16 div 4096 mod 16 = 4" "unat b div 2 ^ 48 div 4096 mod 16 \<in> {8, 9, 10, 11}"
  shows "uuid_v4 (uuid_fields a b)"
proof -
  have "uuid_fields a b ! 14 = hex_digit 4" using assms(1) by (simp add: uuid_fields_def nth_append hex_nth)
  moreover have "uuid_fields a b ! 19 \<in> hex_digit ` {8, 9, 10, 11}"
    using assms(2) by (simp add: uuid_fields_def nth_append hex_nth) auto
  moreover have "if i \<in> {8, 13, 18, 23} then uuid_fields a b ! i = CHR ''-'' else uuid_fields a b ! i \<in> set lower_hex"
    if "i < 36" for i
    using that by (auto simp: uuid_fields_def nth_append nth_Cons' simp del: power_numeral)
  ultimately show ?thesis
    by (simp add: uuid_v4_def) (simp add: uuid_fields_def hex_digit_table lower_hex_def)
qed

text \<open>
  C37. Every template identifier is a well-formed version 4 UUID (36 characters, the dashes in
  their places, lower-case hexadecimal digits elsewhere, version 4 and the RFC 4122 variant),
  and two draws give the same identifier only if they agree on all 122 random bits: the printing
  loses none of them.
\<close>

theorem uuid_well_formed_injective:
  "uuid_v4 (generate_uuid a b) \<and>
   (generate_uuid a b = generate_uuid a' b' \<longleftrightarrow>
      a AND 0xFFFFFFFFFFFF0FFF = a' AND 0xFFFFFFFFFFFF0FFF \<and> b AND 0x3FFFFFFFFFFFFFFF = b' AND 0x3FFFFFFFFFFFFFFF)"
proof -
  have "((x AND 0xFFFFFFFFFFFF0FFF) OR 0x4000) AND 0xFFFFFFFFFFFF0FFF = x AND 0xFFFFFFFFFFFF0FFF"
    "((x AND 0x3FFFFFFFFFFFFFFF) OR 0x8000000000000000) AND 0x3FFFFFFFFFFFFFFF = x AND 0x3FFFFFFFFFFFFFFF" for x :: u64
    by (simp_all add: bit.conj_disj_distrib2 and.assoc)
  then have "(x AND 0xFFFFFFFFFFFF0FFF) OR 0x4000 = (y AND 0xFFFFFFFFFFFF0FFF) OR 0x4000 \<longleftrightarrow>
      x AND 0xFFFFFFFFFFFF0FFF = y AND 0xFFFFFFFFFFFF0FFF"
    "(x AND 0x3FFFFFFFFFFFFFFF) OR 0x8000000000000000 = (y AND 0x3FFFFFFFFFFFFFFF) OR 0x8000000000000000 \<longleftrightarrow>
      x AND 0x3FFFFFFFFFFFFFFF = y AND 0x3FFFFFFFFFFFFFFF" for x y :: u64
    by metis+
  then show ?thesis
    unfolding generate_uuid_fields uuid_fields_inject
    using uuid_fields_shape [OF version_nibble variant_nibble] by blast
qed

end
