(* ===== verification/Engine.thy ===== *)
theory Engine
  imports Gallery Db Uuid
begin

text \<open>
  The HTTP routes of the iris engine (\<^verbatim>\<open>routes_enroll.cpp\<close>, \<^verbatim>\<open>routes_analyze.cpp\<close>,
  \<^verbatim>\<open>routes_gallery.cpp\<close>, \<^verbatim>\<open>routes_health.cpp\<close>, \<^verbatim>\<open>routes_config.cpp\<close>) and the start-up of \<^verbatim>\<open>main.cpp\<close>.
  The state is the server context with the tables of the database. A route returns a status and a JSON body; \<open>Inl\<close> is an exception that leaves the
  handler. The pipeline, the image decoder, base64 and the matchers of libiris are parameters.
\<close>

section \<open>Server context\<close>

record ('b, 'o, 'q) engine =
  en_config :: EngineConfig
  en_smpc :: "'o SMPCManager"
  en_smpc2 :: "'q SMPC2Manager"
  en_db :: Database
  en_gallery :: "'b IrisTemplate Gallery"
  en_tables :: tables

record ('b, 'o, 'q, 'i) engine_lib =
  el_smpc :: "('b IrisTemplate, 'o) smpc_lib"
  el_smpc2 :: "('b IrisTemplate, 'q) smpc2_lib"
  el_serializer :: "'b code_serializer"
  el_matcher :: "'b IrisTemplate \<Rightarrow> 'b IrisTemplate list \<Rightarrow> (double \<times> int) list Result"
  el_b64decode :: "string \<Rightarrow> bytes option"
  el_imdecode :: "bytes \<Rightarrow> 'i option"
  el_pipeline :: "'i \<Rightarrow> string \<Rightarrow> bool \<Rightarrow> ('b IrisTemplate option \<times> iris_error option) Result"

type_synonym reply = "nat \<times> json"

section \<open>Enrolment\<close>

record enroll_req =
  rq_identity_id :: string
  rq_identity_name :: string
  rq_eye_side :: string
  rq_device_id :: string

definition invalid_json :: reply where
  "invalid_json = (400, JObj [(''detail'', JStr ''Invalid JSON'')])"

definition enroll_error :: "string \<Rightarrow> string \<Rightarrow> json" where
  "enroll_error identity_id msg =
     JObj [(''identity_id'', JStr identity_id), (''template_id'', JStr []), (''is_duplicate'', JBool False),
           (''duplicate_identity_id'', JNull), (''duplicate_identity_name'', JNull), (''error'', JStr msg)]"

definition pipeline_failure :: "('t option \<times> iris_error option) Result \<Rightarrow> string" where
  "pipeline_failure result =
     (case result of
        Inl e \<Rightarrow> err_message e
      | Inr (_, Some e) \<Rightarrow> err_message e
      | Inr (_, None) \<Rightarrow> ''Pipeline failed'')"

text \<open>From the body to the template: the part of the handler that touches no shared state.\<close>

definition enroll_template ::
  "('b, 'o, 'q, 'i) engine_lib \<Rightarrow> json option \<Rightarrow> exn + (reply + enroll_req \<times> 'b IrisTemplate)" where
  "enroll_template L body =
     (case body of
        None \<Rightarrow> Inr (Inl invalid_json)
      | Some j \<Rightarrow>
          ebind (jvalue_str j ''identity_id'' []) (\<lambda>identity_id.
          ebind (jvalue_str j ''identity_name'' []) (\<lambda>identity_name.
          ebind (jvalue_str j ''jpeg_b64'' []) (\<lambda>jpeg_b64.
          ebind (jvalue_str j ''eye_side'' ''left'') (\<lambda>eye_side.
          ebind (jvalue_str j ''device_id'' ''local'') (\<lambda>device_id.
            let req = \<lparr>rq_identity_id = identity_id, rq_identity_name = identity_name, rq_eye_side = eye_side,
                       rq_device_id = device_id\<rparr>;
                fail = (\<lambda>msg. Inr (Inl (200, enroll_error identity_id msg)))
            in if identity_id = [] \<or> jpeg_b64 = [] then fail ''Missing identity_id or jpeg_b64''
               else case el_b64decode L jpeg_b64 of
                 None \<Rightarrow> fail ''Failed to decode base64''
               | Some data \<Rightarrow>
                   (case el_imdecode L data of
                      None \<Rightarrow> fail ''Failed to decode JPEG image''
                    | Some img \<Rightarrow>
                        (case el_pipeline L img identity_id (eye_side = ''right'') of
                           Inr (Some t, err) \<Rightarrow> Inr (Inr (req, t))
                         | result \<Rightarrow> fail (pipeline_failure result)))))))))"

text \<open>The duplicate check, under the gallery's mutex.\<close>

definition enroll_check ::
  "('b, 'o, 'q, 'i) engine_lib \<Rightarrow> enroll_req \<Rightarrow> 'b IrisTemplate \<Rightarrow> ('b, 'o, 'q) engine \<Rightarrow> reply option \<times> ('b, 'o, 'q) engine" where
  "enroll_check L req t en =
     (case check_duplicate (el_smpc L) (el_matcher L) t (en_gallery en, en_smpc en) of
        (dup, m) \<Rightarrow>
          (if is_duplicate dup
           then Some (200, JObj [(''identity_id'', JStr (rq_identity_id req)), (''template_id'', JStr []),
                  (''is_duplicate'', JBool True), (''duplicate_identity_id'', JStr (duplicate_identity_id dup)),
                  (''duplicate_identity_name'', JStr (duplicate_identity_name dup)), (''error'', JNull)])
           else None,
           en\<lparr>en_smpc := m\<rparr>))"

text \<open>
  The database part, under the database mutex: \<open>None\<close> when the template is persisted. \<open>up\<close> is the
  environment after the reconnection attempt.
\<close>

definition enroll_persist ::
  "('b, 'o, 'q, 'i) engine_lib \<Rightarrow> pq_env \<Rightarrow> pq_env \<Rightarrow> string \<Rightarrow> enroll_req \<Rightarrow> 'b IrisTemplate \<Rightarrow> ('b, 'o, 'q) engine \<Rightarrow>
   reply option \<times> ('b, 'o, 'q) engine" where
  "enroll_persist L env up template_id req t en =
     (let fail = (\<lambda>status msg. Some (status, enroll_error (rq_identity_id req) msg));
          en = (if db_is_connected env (en_db en) then en else en\<lparr>en_db := snd (db_reconnect env (en_db en))\<rparr>)
      in if \<not> db_is_connected up (en_db en) then (fail 503 ''Database not connected'', en)
         else case ensure_identity up (en_db en) (rq_identity_id req) (rq_identity_name req) (en_tables en) of
           (False, tb) \<Rightarrow> (fail 500 ''Failed to create identity in database'', en\<lparr>en_tables := tb\<rparr>)
         | (True, tb) \<Rightarrow>
             (case persist_template (el_serializer L) up (en_db en) template_id (rq_identity_id req) (rq_eye_side req) t
                     (rq_device_id req) tb of
                (False, tb) \<Rightarrow> (fail 500 ''Failed to persist template to database'', en\<lparr>en_tables := tb\<rparr>)
              | (True, tb) \<Rightarrow> (None, en\<lparr>en_tables := tb\<rparr>)))"

text \<open>Sharing and the in-memory gallery, and the answer of a successful enrolment.\<close>

definition enroll_finish ::
  "('b, 'o, 'q, 'i) engine_lib \<Rightarrow> string \<Rightarrow> enroll_req \<Rightarrow> 'b IrisTemplate \<Rightarrow> ('b, 'o, 'q) engine \<Rightarrow>
   reply \<times> ('b, 'o, 'q) engine" where
  "enroll_finish L template_id req t en =
     (let (smpc2_ok, m2) = (if s2_active (en_smpc2 en)
                            then (case SMPC2Manager_enroll (el_smpc2 L) template_id t (en_smpc2 en) of
                                    (r, m2) \<Rightarrow> (has_value r, m2))
                            else (True, en_smpc2 en));
          entry = \<lparr>ge_template_id = template_id, ge_identity_id = rq_identity_id req,
                   ge_identity_name = rq_identity_name req, ge_eye_side = rq_eye_side req, ge_tmpl = t\<rparr>;
          (g, m) = gallery_add (el_smpc L) entry (en_gallery en, en_smpc en)
      in ((200, JObj [(''identity_id'', JStr (rq_identity_id req)), (''template_id'', JStr template_id),
             (''is_duplicate'', JBool False), (''duplicate_identity_id'', JNull), (''duplicate_identity_name'', JNull),
             (''smpc_protected'', JBool (sm_active m)), (''smpc2_protected'', JBool (s2_active m2 \<and> smpc2_ok)),
             (''error'', JNull)]),
          en\<lparr>en_smpc2 := m2, en_gallery := g, en_smpc := m\<rparr>))"

text \<open>From the duplicate check on: the commit, and the whole handler.\<close>

definition enroll_commit ::
  "('b, 'o, 'q, 'i) engine_lib \<Rightarrow> pq_env \<Rightarrow> pq_env \<Rightarrow> string \<Rightarrow> enroll_req \<Rightarrow> 'b IrisTemplate \<Rightarrow> ('b, 'o, 'q) engine \<Rightarrow>
   reply \<times> ('b, 'o, 'q) engine" where
  "enroll_commit L env up template_id req t en =
     (case enroll_persist L env up template_id req t en of
        (Some r, en) \<Rightarrow> (r, en)
      | (None, en) \<Rightarrow> enroll_finish L template_id req t en)"

definition enroll ::
  "('b, 'o, 'q, 'i) engine_lib \<Rightarrow> pq_env \<Rightarrow> pq_env \<Rightarrow> string \<Rightarrow> json option \<Rightarrow> ('b, 'o, 'q) engine \<Rightarrow>
   exn + reply \<times> ('b, 'o, 'q) engine" where
  "enroll L env up template_id body en =
     ebind (enroll_template L body) (\<lambda>r.
       case r of
         Inl reply \<Rightarrow> Inr (reply, en)
       | Inr (req, t) \<Rightarrow>
           (case enroll_check L req t en of
              (Some reply, en) \<Rightarrow> Inr (reply, en)
            | (None, en) \<Rightarrow> Inr (enroll_commit L env up template_id req t en)))"

section \<open>Analysis\<close>

definition analyze_error :: "string \<Rightarrow> string \<Rightarrow> string \<Rightarrow> double \<Rightarrow> json" where
  "analyze_error frame_id device_id msg latency =
     JObj [(''frame_id'', JStr frame_id), (''device_id'', JStr device_id), (''error'', JStr msg),
           (''latency_ms'', JNum latency), (''match'', JNull), (''iris_template_b64'', JNull), (''segmentation'', JNull)]"

definition match_json :: "GalleryMatch \<Rightarrow> json" where
  "match_json r =
     JObj [(''hamming_distance'', JNum (gm_hamming_distance r)), (''is_match'', JBool (gm_is_match r)),
           (''matched_identity_id'', if gm_is_match r then JStr (gm_matched_identity_id r) else JNull),
           (''matched_identity_name'', if gm_is_match r then JStr (gm_matched_identity_name r) else JNull),
           (''best_rotation'', JInt (gm_best_rotation r))]"

definition smpc2_match_json :: "('b, 'o, 'q, 'i) engine_lib \<Rightarrow> 'b IrisTemplate \<Rightarrow> 'q SMPC2Manager \<Rightarrow> json" where
  "smpc2_match_json L t m =
     (if \<not> s2_active m then JNull
      else case SMPC2Manager_verify (el_smpc2 L) t m of
        Inr ((sid, d, hit) # _) \<Rightarrow>
          JObj [(''hamming_distance'', JNum d), (''is_match'', JBool hit),
                (''matched_template_id'', if hit then JStr sid else JNull)]
      | _ \<Rightarrow> JNull)"

text \<open>\<open>latency\<close> is the measured time in milliseconds.\<close>

definition analyze_matched ::
  "('b, 'o, 'q, 'i) engine_lib \<Rightarrow> pq_env \<Rightarrow> double \<Rightarrow> string \<Rightarrow> string \<Rightarrow> 'b IrisTemplate \<Rightarrow> ('b, 'o, 'q) engine \<Rightarrow>
   reply \<times> ('b, 'o, 'q) engine" where
  "analyze_matched L env latency frame_id device_id t en =
     (let (r, m) = gallery_match (el_smpc L) (el_matcher L) t (en_gallery en, en_smpc en);
          en = en\<lparr>en_smpc := m\<rparr>;
          en = (case r of
                  None \<Rightarrow> en
                | Some x \<Rightarrow>
                    if db_is_connected env (en_db en)
                    then en\<lparr>en_tables := log_match env (en_db en) frame_id
                           (if gm_is_match x then gm_matched_template_id x else [])
                           (if gm_is_match x then gm_matched_identity_id x else [])
                           (gm_hamming_distance x) (gm_is_match x) device_id \<lfloor>latency\<rfloor> (en_tables en)\<rparr>
                    else en)
      in ((200, JObj [(''frame_id'', JStr frame_id), (''device_id'', JStr device_id), (''segmentation'', JNull),
             (''match'', case r of None \<Rightarrow> JNull | Some x \<Rightarrow> match_json x),
             (''smpc2_match'', smpc2_match_json L t (en_smpc2 en)), (''iris_template_b64'', JNull),
             (''latency_ms'', JNum latency), (''error'', JNull)]), en))"

definition analyze ::
  "('b, 'o, 'q, 'i) engine_lib \<Rightarrow> pq_env \<Rightarrow> double \<Rightarrow> json option \<Rightarrow> ('b, 'o, 'q) engine \<Rightarrow>
   exn + reply \<times> ('b, 'o, 'q) engine" where
  "analyze L env latency body en =
     (case body of
        None \<Rightarrow> Inr (invalid_json, en)
      | Some j \<Rightarrow>
          ebind (jvalue_str j ''jpeg_b64'' []) (\<lambda>jpeg_b64.
          ebind (jvalue_str j ''eye_side'' ''left'') (\<lambda>eye_side.
          ebind (jvalue_str j ''frame_id'' []) (\<lambda>frame_id.
          ebind (jvalue_str j ''device_id'' ''local'') (\<lambda>device_id.
            let fail = (\<lambda>msg l. Inr ((200, analyze_error frame_id device_id msg l), en))
            in if jpeg_b64 = [] then fail ''Missing jpeg_b64'' 0
               else case el_b64decode L jpeg_b64 of
                 None \<Rightarrow> fail ''Failed to decode base64'' 0
               | Some data \<Rightarrow>
                   (case el_imdecode L data of
                      None \<Rightarrow> fail ''Failed to decode JPEG image'' 0
                    | Some img \<Rightarrow>
                        (case el_pipeline L img frame_id (eye_side = ''right'') of
                           Inr (Some t, err) \<Rightarrow> Inr (analyze_matched L env latency frame_id device_id t en)
                         | result \<Rightarrow> fail (pipeline_failure result) latency)))))))"

section \<open>Gallery, health and configuration\<close>

definition gallery_size_route :: "('b, 'o, 'q) engine \<Rightarrow> reply" where
  "gallery_size_route en = (200, JObj [(''gallery_size'', JInt (int (gallery_size (en_gallery en))))])"

definition gallery_list_route :: "('b, 'o, 'q) engine \<Rightarrow> reply" where
  "gallery_list_route en =
     (200, JArr (map (\<lambda>ii. JObj [(''identity_id'', JStr (ii_identity_id ii)), (''name'', JStr (ii_name ii)),
        (''templates'', JArr (map (\<lambda>(t, side). JObj [(''template_id'', JStr t), (''eye_side'', JStr side)]) (ii_templates ii)))])
        (gallery_list (en_gallery en))))"

text \<open>\<open>render\<close> draws a code as a base64 PNG, its code bits and its mask bits.\<close>

definition gallery_template_route ::
  "('b, 'o, 'q, 'i) engine_lib \<Rightarrow> ('b PackedIrisCode \<Rightarrow> string \<times> string) \<Rightarrow> pq_env \<Rightarrow> pq_env \<Rightarrow> string \<Rightarrow> ('b, 'o, 'q) engine \<Rightarrow>
   reply \<times> ('b, 'o, 'q) engine" where
  "gallery_template_route L render env up template_id en =
     (let en = (if db_is_connected env (en_db en) then en else en\<lparr>en_db := snd (db_reconnect env (en_db en))\<rparr>)
      in if \<not> db_is_connected up (en_db en) then ((503, JObj [(''detail'', JStr ''Database not connected'')]), en)
         else case load_template (el_serializer L) up (en_db en) (en_tables en) template_id of
           None \<Rightarrow> ((404, JObj [(''detail'', JStr ''Template not found'')]), en)
         | Some row \<Rightarrow>
             (let r = row_template row;
                  (iris_b64, mask_b64) = (case iris_codes (row_tmpl row) of
                      [] \<Rightarrow> (JNull, JNull) | c # _ \<Rightarrow> (JStr (fst (render c)), JStr (snd (render c))))
              in ((200, JObj [(''template_id'', JStr (tr_template_id r)), (''identity_id'', JStr (tr_identity_id r)),
                    (''identity_name'', JStr (row_identity_name row)), (''eye_side'', JStr (tr_eye_side r)),
                    (''width'', JInt (tr_width r)), (''height'', JInt (tr_height r)), (''n_scales'', JInt (tr_n_scales r)),
                    (''quality_score'', JNum (tr_quality_score r)), (''device_id'', JStr (tr_device_id r)),
                    (''iris_code_b64'', iris_b64), (''mask_code_b64'', mask_b64),
                    (''smpc_protected'', JBool (sm_active (en_smpc en)))]), en)))"

definition gallery_delete_route ::
  "('b, 'o, 'q, 'i) engine_lib \<Rightarrow> pq_env \<Rightarrow> bool \<Rightarrow> string \<Rightarrow> ('b, 'o, 'q) engine \<Rightarrow> reply \<times> ('b, 'o, 'q) engine" where
  "gallery_delete_route L env exec2 identity_id en =
     (case gallery_remove (el_smpc L) identity_id (en_gallery en, en_smpc en) of
        (removed, g, m) \<Rightarrow>
          (let en = en\<lparr>en_gallery := g, en_smpc := m\<rparr>;
               en = (if db_is_connected env (en_db en)
                     then en\<lparr>en_tables := snd (delete_identity env exec2 (en_db en) identity_id (en_tables en))\<rparr>
                     else en)
           in ((200, JObj [(''deleted'', JBool (removed > 0)), (''templates_removed'', JInt (int removed))]), en)))"

definition engine_health_alive :: reply where
  "engine_health_alive = (200, JObj [(''alive'', JBool True)])"

definition engine_health_ready :: "pq_env \<Rightarrow> bool \<Rightarrow> ('b, 'o, 'q) engine \<Rightarrow> reply" where
  "engine_health_ready env nats_status en =
     (200, JObj [(''alive'', JBool True), (''ready'', JBool True), (''pipeline_loaded'', JBool True),
        (''nats_connected'', JBool (is_nats_connected nats_status (en_smpc en))),
        (''gallery_size'', JInt (int (gallery_size (en_gallery en)))),
        (''db_connected'', JBool (db_is_connected env (en_db en))), (''redis_connected'', JBool False),
        (''smpc_active'', JBool (sm_active (en_smpc en))), (''smpc2_active'', JBool (s2_active (en_smpc2 en))),
        (''smpc2_parties'', JInt (uint (SMPC2Manager_total_parties (en_smpc2 en)))),
        (''smpc2_threshold'', JInt (uint (SMPC2Manager_threshold (en_smpc2 en)))),
        (''pipeline_pool_size'', JInt 1), (''pipeline_pool_available'', JInt 1), (''version'', JStr ''0.1.0'')])"

definition config_route :: "pq_env \<Rightarrow> ('b, 'o, 'q) engine \<Rightarrow> reply" where
  "config_route env en =
     (let db_ok = JBool (db_is_connected env (en_db en)); size = JInt (int (gallery_size (en_gallery en)))
      in (200,
          if ec_mode (en_config en) = ''prod''
          then JObj [(''gallery_size'', size), (''db_connected'', db_ok), (''version'', JStr ''0.1.0'')]
          else JObj [(''mode'', JStr (ec_mode (en_config en))), (''smpc_enabled'', JBool (ec_smpc_enabled (en_config en))),
                 (''smpc_active'', JBool (sm_active (en_smpc en))), (''smpc_mode'', JStr (sm_mode (en_smpc en))),
                 (''smpc2_enabled'', JBool (ec_smpc2_enabled (en_config en))),
                 (''smpc2_active'', JBool (s2_active (en_smpc2 en))),
                 (''smpc2_parties'', JInt (uint (SMPC2Manager_total_parties (en_smpc2 en)))),
                 (''smpc2_threshold'', JInt (uint (SMPC2Manager_threshold (en_smpc2 en)))),
                 (''gallery_size'', size), (''db_connected'', db_ok), (''db_name'', JStr (ec_db_name (en_config en))),
                 (''version'', JStr ''0.1.0'')]))"

section \<open>Start-up\<close>

definition entry_of :: "'b DbTemplate \<Rightarrow> 'b IrisTemplate GalleryEntry" where
  "entry_of t =
     \<lparr>ge_template_id = dt_template_id t, ge_identity_id = dt_identity_id t, ge_identity_name = dt_identity_name t,
      ge_eye_side = dt_eye_side t, ge_tmpl = dt_tmpl t\<rparr>"

definition load_gallery ::
  "('b, 'o, 'q, 'i) engine_lib \<Rightarrow> pq_env \<Rightarrow> Database \<Rightarrow> tables \<Rightarrow> 'b IrisTemplate Gallery \<times> 'o SMPCManager \<Rightarrow>
   'b IrisTemplate Gallery \<times> 'o SMPCManager" where
  "load_gallery L env db tb = (\<lambda>(g, m).
     if \<not> db_is_connected env db then (g, m)
     else
       let ts = load_all_templates (el_serializer L) env db tb;
           m = (if sm_active m \<and> ts \<noteq> []
                then snd (migrate_templates (el_smpc L) (map (\<lambda>t. (dt_template_id t, dt_tmpl t)) ts) m) else m)
       in (fold (\<lambda>t. add_metadata_only (entry_of t)) ts g, m))"

text \<open>\<open>Inl\<close> is the exit code of a start that fails; \<open>Inr\<close> the context the server starts with.\<close>

definition engine_main ::
  "('b, 'o, 'q, 'i) engine_lib \<Rightarrow> bool \<Rightarrow> nats_status \<Rightarrow> nats_status \<Rightarrow> pq_env \<Rightarrow> EngineConfig \<Rightarrow> tables \<Rightarrow>
   int + ('b, 'o, 'q) engine" where
  "engine_main L pipeline_ok st st2 env config tb =
     (if \<not> pipeline_ok then Inl 1
      else
        let (smpc_ok, m) =
              (if ec_smpc_enabled config
               then SMPCManager_initialize (el_smpc L) st (ec_smpc_mode config) (ec_nats_url config)
                      (ec_smpc_num_parties config) (ec_smpc_pipeline_depth config) (ec_smpc_shards_per_participant config)
                      \<lparr>tls_cert_dir = ec_tls_cert_dir config, audit_log_path = ec_audit_log_path config,
                       security_monitor_enabled = ec_security_monitor_enabled config\<rparr> SMPCManager_new
               else (True, SMPCManager_new))
        in if \<not> smpc_ok \<and> \<not> ec_smpc_fallback_plaintext config then Inl 1
           else
             let (smpc2_ok, m2) =
                   (if ec_smpc2_enabled config
                    then SMPC2Manager_init (el_smpc2 L) st2 (ec_smpc2_mode config) (ec_nats_url config)
                           (ec_smpc2_parties config) (ec_tls_cert_dir config) SMPC2Manager_new
                    else (True, SMPC2Manager_new))
             in if \<not> smpc2_ok \<and> \<not> ec_smpc_fallback_plaintext config then Inl 1
                else
                  let db = (if ec_db_url config \<noteq> [] then snd (db_connect env (ec_db_url config) Database_new) else Database_new);
                      g = Gallery_new (ec_match_threshold config) (ec_dedup_threshold config);
                      g = (if sm_active m then if SMPCManager_is_distributed m then enable_smpc_distributed g else enable_smpc g
                           else g);
                      (g, m) = load_gallery L env db tb (g, m)
                  in Inr \<lparr>en_config = config, en_smpc = m, en_smpc2 = m2, en_db = db, en_gallery = g, en_tables = tb\<rparr>)"

section \<open>Enrolment is all or nothing\<close>

definition enrolled :: "json \<Rightarrow> bool" where
  "enrolled j \<longleftrightarrow> jget j ''error'' = Some JNull \<and> jget j ''is_duplicate'' = Some (JBool False)"

lemma gallery_add_entries [simp]:
  "gal_entries (fst (gallery_add lib e (g, m))) = gal_entries g @ [e]"
  by (simp add: gallery_add_def Let_def)

lemma enroll_error_not_enrolled [simp]: "\<not> enrolled (enroll_error i msg)"
  by (simp add: enrolled_def enroll_error_def)

lemma invalid_json_not_enrolled [simp]: "\<not> enrolled (snd invalid_json)"
  by (simp add: enrolled_def invalid_json_def)

lemma persist_template_ok: "tables_ok tb \<Longrightarrow> tables_ok (snd (persist_template ser up db tid i side t dev tb))"
  by (simp add: persist_template_def insert_template_ok)

lemma enroll_template_error:
  assumes "enroll_template L body = Inr (Inl r)"
  shows "\<not> enrolled (snd r)"
  using assms
  by (cases body; clarsimp simp: enroll_template_def ebind_Inr Let_def; clarsimp split: if_split_asm;
      auto split: option.split_asm sum.split_asm prod.split_asm)

lemma enroll_check_state:
  assumes "enroll_check L req t en = (r, en')"
  shows "en_gallery en' = en_gallery en \<and> en_tables en' = en_tables en \<and> en_db en' = en_db en \<and>
         (\<forall>x. r = Some x \<longrightarrow> \<not> enrolled (snd x))"
  using assms by (auto simp: enroll_check_def enrolled_def split: prod.splits if_splits)

lemma enroll_persist_failed:
  assumes "enroll_persist L env up tid req t en = (Some r, en')"
  shows "en_gallery en' = en_gallery en \<and> tb_templates (en_tables en') = tb_templates (en_tables en) \<and> \<not> enrolled (snd r)"
  using assms
  by (auto simp: enroll_persist_def Let_def ensure_identity_def persist_template_def insert_template_def
      split: prod.splits if_splits bool.splits)

lemma enroll_persist_done:
  assumes "enroll_persist L env up tid req t en = (None, en')"
  shows "en_gallery en' = en_gallery en \<and>
         (\<exists>tb. ensure_identity up (en_db en') (rq_identity_id req) (rq_identity_name req) (en_tables en) = (True, tb) \<and>
               persist_template (el_serializer L) up (en_db en') tid (rq_identity_id req) (rq_eye_side req) t (rq_device_id req) tb
                 = (True, en_tables en')) \<and> db_is_connected up (en_db en')"
  using assms by (auto simp: enroll_persist_def Let_def split: prod.splits if_splits bool.splits)

lemma enroll_persist_ok:
  assumes "enroll_persist L env up tid req t en = (p, en')" "tables_ok (en_tables en)"
  shows "tables_ok (en_tables en')"
proof -
  define db where "db = (if db_is_connected env (en_db en) then en_db en else snd (db_reconnect env (en_db en)))"
  obtain ok tb where e: "ensure_identity up db (rq_identity_id req) (rq_identity_name req) (en_tables en) = (ok, tb)" by fastforce
  obtain ok' tb' where q: "persist_template (el_serializer L) up db tid (rq_identity_id req) (rq_eye_side req) t (rq_device_id req) tb
      = (ok', tb')" by fastforce
  have "tables_ok tb" using ensure_identity_ok[OF assms(2)] e by (metis snd_conv)
  moreover from this have "tables_ok tb'" using persist_template_ok q by (metis snd_conv)
  moreover have "en_tables en' \<in> {en_tables en, tb, tb'}"
    using assms(1) e q unfolding enroll_persist_def Let_def
    by (cases "db_is_connected env (en_db en)"; cases ok; cases ok') (auto simp: db_def split: if_split_asm)
  ultimately show ?thesis using assms(2) by auto
qed

lemma enroll_finish_state:
  assumes "enroll_finish L tid req t en = (r, en')"
  shows "enrolled (snd r) \<and> en_tables en' = en_tables en \<and> en_db en' = en_db en \<and>
         gal_entries (en_gallery en') = gal_entries (en_gallery en) @
           [\<lparr>ge_template_id = tid, ge_identity_id = rq_identity_id req, ge_identity_name = rq_identity_name req,
             ge_eye_side = rq_eye_side req, ge_tmpl = t\<rparr>]"
proof -
  define e where "e = \<lparr>ge_template_id = tid, ge_identity_id = rq_identity_id req, ge_identity_name = rq_identity_name req,
             ge_eye_side = rq_eye_side req, ge_tmpl = t\<rparr>"
  obtain g m where gm: "gallery_add (el_smpc L) e (en_gallery en, en_smpc en) = (g, m)" by fastforce
  then have "gal_entries g = gal_entries (en_gallery en) @ [e]"
    by (metis fst_conv gallery_add_entries)
  then show ?thesis
    using assms gm by (auto simp: enroll_finish_def Let_def e_def[symmetric] enrolled_def split: prod.splits)
qed

lemma persist_template_row:
  assumes "persist_template ser up db tid i side t dev tb = (True, tb')"
  shows "\<exists>r. tb_templates tb' = tb_templates tb @ [r] \<and> tr_template_id r = tid \<and> tr_identity_id r = i \<and> tr_eye_side r = side"
  using assms by (auto simp: persist_template_def insert_template_def split: if_splits)

lemma enroll_commit_outcome:
  assumes commit: "enroll_commit L env up tid req t en = (reply, en')" and ok: "tables_ok (en_tables en)"
  shows "tables_ok (en_tables en') \<and>
    (if enrolled (snd reply)
     then \<exists>e r. gal_entries (en_gallery en') = gal_entries (en_gallery en) @ [e] \<and>
            tb_templates (en_tables en') = tb_templates (en_tables en) @ [r] \<and>
            ge_template_id e = tid \<and> tr_template_id r = tid \<and> tr_identity_id r = ge_identity_id e \<and>
            (serializer_faithful (el_serializer L) (iris_codes (ge_tmpl e) @ mask_codes (ge_tmpl e)) \<longrightarrow>
               last (load_all_templates (el_serializer L) up (en_db en') (en_tables en')) =
                 \<lparr>dt_template_id = tid, dt_identity_id = ge_identity_id e, dt_identity_name = ge_identity_name e,
                  dt_eye_side = ge_eye_side e, dt_tmpl = (ge_tmpl e)\<lparr>iris_code_version := ''v2.0''\<rparr>\<rparr>)
     else gal_entries (en_gallery en') = gal_entries (en_gallery en) \<and>
          tb_templates (en_tables en') = tb_templates (en_tables en))"
proof -
  obtain p en2 where p: "enroll_persist L env up tid req t en = (p, en2)" by fastforce
  have ok2: "tables_ok (en_tables en2)" by (rule enroll_persist_ok[OF p ok])
  show ?thesis
  proof (cases p)
    case (Some r)
    with commit p enroll_persist_failed[OF p[unfolded Some]] ok2 show ?thesis
      by (auto simp: enroll_commit_def)
  next
    case none2: None
    with commit p have fin: "enroll_finish L tid req t en2 = (reply, en')" by (simp add: enroll_commit_def)
    note st2 = enroll_persist_done[OF p[unfolded none2]] and st3 = enroll_finish_state[OF fin]
    then obtain tb where tb: "ensure_identity up (en_db en2) (rq_identity_id req) (rq_identity_name req) (en_tables en) = (True, tb)"
      "persist_template (el_serializer L) up (en_db en2) tid (rq_identity_id req) (rq_eye_side req) t (rq_device_id req) tb
         = (True, en_tables en2)" and conn: "db_is_connected up (en_db en2)" by auto
    obtain r where r: "tb_templates (en_tables en2) = tb_templates tb @ [r]" "tr_template_id r = tid"
      "tr_identity_id r = rq_identity_id req"
      using persist_template_row[OF tb(2)] by auto
    have same: "tb_templates tb = tb_templates (en_tables en)"
      using tb(1) by (auto simp: ensure_identity_def split: if_splits)
    have ok1: "tables_ok (en_tables en)" using assms(2) by simp
    have load: "last (load_all_templates (el_serializer L) up (en_db en2) (en_tables en2)) =
        \<lparr>dt_template_id = tid, dt_identity_id = rq_identity_id req, dt_identity_name = rq_identity_name req,
         dt_eye_side = rq_eye_side req, dt_tmpl = t\<lparr>iris_code_version := ''v2.0''\<rparr>\<rparr>"
      if "serializer_faithful (el_serializer L) (iris_codes t @ mask_codes t)"
      using load_after_persist[OF ok1 conn tb that] by simp
    show ?thesis
      using st2 st3 r same ok2 load by auto
  qed
qed

text \<open>An answered enrolment was turned down before the database was touched, or reached the commit.\<close>

lemma enroll_cases:
  assumes "enroll L env up tid body en = Inr (reply, en')"
  obtains "\<not> enrolled (snd reply)" "en_gallery en' = en_gallery en" "en_tables en' = en_tables en"
  | req t en1 where "enroll_commit L env up tid req t en1 = (reply, en')" "en_gallery en1 = en_gallery en"
      "en_tables en1 = en_tables en"
proof -
  obtain x where x: "enroll_template L body = Inr x"
    using assms by (auto simp: enroll_def ebind_Inr)
  show ?thesis
  proof (cases x)
    case (Inl r)
    with x assms enroll_template_error [of L body r] show ?thesis by (intro that(1)) (auto simp: enroll_def)
  next
    case (Inr rt)
    obtain req t where rt: "rt = (req, t)" by fastforce
    obtain c en1 where c: "enroll_check L req t en = (c, en1)" by fastforce
    note st1 = enroll_check_state [OF c]
    show ?thesis
    proof (cases c)
      case (Some r)
      with x Inr rt c assms st1 show ?thesis by (intro that(1)) (auto simp: enroll_def)
    next
      case None
      then have "enroll_commit L env up tid req t en1 = (reply, en')"
        using x Inr rt c assms by (simp add: enroll_def)
      with st1 show ?thesis by (intro that(2) [of req t en1]) auto
    qed
  qed
qed


definition sample_engine_lib :: "(u8, unit, unit, bytes) engine_lib" where
  "sample_engine_lib =
     \<lparr>el_smpc =
        \<lparr>lg_new = (), lg_add_template = (\<lambda>s t g. (Inr (), ())), lg_remove_template = (\<lambda>s g. ()),
         lg_match_probe = (\<lambda>p g. Inr []), co_new = (\<lambda>n. ()), co_enroll = (\<lambda>s t g. (Inr (), ())), co_verify = (\<lambda>p g. Inr []),
         co_size = (\<lambda>g. 0), pl_new = (\<lambda>n d. ()), pl_verify_sync = (\<lambda>p g. make_error IoFailed ''empty''),
         sh_new = (\<lambda>n k. ()), sh_enroll = (\<lambda>s t g. (Inr (), ())), sh_verify = (\<lambda>p g. Inr []),
         sh_total_gallery_size = (\<lambda>g. 0), tls_create = Inr\<rparr>,
      el_smpc2 =
        \<lparr>register_participant = (\<lambda>i. True), c2_new = (\<lambda>cfg. ()), c2_enroll = (\<lambda>s t c. (Inr (), ())),
         c2_verify = (\<lambda>t c. Inr []), c2_size = (\<lambda>c. 0)\<rparr>,
      el_serializer = byte_serializer,
      el_matcher = (\<lambda>p ts. Inr (map (\<lambda>t. (if t = p then 0 else 1 / 2, 0)) ts)),
      el_b64decode = (\<lambda>s. Some (bytes_of_string s)), el_imdecode = Some,
      el_pipeline = (\<lambda>img i right. Inr (Some sample_template, None))\<rparr>"

definition sample_engine :: "(u8, unit, unit) engine" where
  "sample_engine =
     \<lparr>en_config = EngineConfig_from_env (\<lambda>s. 0) Map.empty Map.empty, en_smpc = SMPCManager_new, en_smpc2 = SMPC2Manager_new,
      en_db = up_db, en_gallery = Gallery_new (39 / 100) (32 / 100), en_tables = empty_tables\<rparr>"

definition sample_body :: json where
  "sample_body = JObj [(''identity_id'', JStr ''ann''), (''jpeg_b64'', JStr ''x'')]"

definition sample_req :: enroll_req where
  "sample_req = \<lparr>rq_identity_id = ''ann'', rq_identity_name = [], rq_eye_side = ''left'', rq_device_id = ''local''\<rparr>"

lemma sample_enroll_template: "enroll_template sample_engine_lib (Some sample_body) = Inr (Inr (sample_req, sample_template))"
  by (simp add: enroll_template_def sample_body_def jvalue_str_def sample_engine_lib_def sample_req_def)

lemma sample_enroll_check: "enroll_check sample_engine_lib sample_req sample_template sample_engine = (None, sample_engine)"
  by (simp add: enroll_check_def check_duplicate_def find_best_match_def sample_engine_def Gallery_new_def no_duplicate_def)

lemma sample_enroll_persist:
  "\<exists>en. enroll_persist sample_engine_lib up_env up_env ''t1'' sample_req sample_template sample_engine = (None, en)"
  by (simp add: enroll_persist_def sample_engine_def sample_req_def db_is_connected_def up_env_def up_db_def ensure_identity_def
      persist_template_def insert_template_def empty_tables_def sample_engine_lib_def byte_serializer_def serialize_codes_def
      sample_template_def Let_def)


section \<open>Two enrolments at once\<close>

text \<open>
  The duplicate check and the addition to the gallery are separate critical sections. When a
  second template is within the deduplication threshold of a first one, an enrolment that follows
  the first is rejected as a duplicate; but if both checks run before either addition, both are
  enrolled.
\<close>

theorem enroll_duplicates_race:
  assumes plain: "\<not> gal_smpc_manager (en_gallery en)" "\<not> gal_smpc_gallery (en_gallery en)"
    and pointwise: "\<forall>p ts. el_matcher L p ts = Inr (map (iris_dist p) ts)"
    and threshold: "gal_dedup_threshold (en_gallery en) \<le> 1"
    and fresh: "\<forall>x \<in> set (gal_entries (en_gallery en)). gal_dedup_threshold (en_gallery en) \<le> fst (iris_dist t1 (ge_tmpl x)) \<and>
                  gal_dedup_threshold (en_gallery en) \<le> fst (iris_dist t2 (ge_tmpl x))"
    and same: "fst (iris_dist t2 t1) < gal_dedup_threshold (en_gallery en)"
    and stored: "enroll_persist L env up tid1 req1 t1 en = (None, en1)"
      "enroll_persist L env up tid2 req2 t2 (snd (enroll_finish L tid1 req1 t1 en1)) = (None, en2)"
  shows "fst (enroll_check L req1 t1 en) = None \<and> fst (enroll_check L req2 t2 en) = None \<and>
         fst (enroll_check L req2 t2 (snd (enroll_commit L env up tid1 req1 t1 en))) \<noteq> None \<and>
         map ge_template_id (gal_entries (en_gallery (snd (enroll_commit L env up tid2 req2 t2
            (snd (enroll_commit L env up tid1 req1 t1 en)))))) =
           map ge_template_id (gal_entries (en_gallery en)) @ [tid1, tid2]"
proof -
  have dup: "fst (enroll_check L req t e) = None \<longleftrightarrow>
      \<not> (\<exists>x \<in> set (gal_entries (en_gallery e)). fst (iris_dist t (ge_tmpl x)) < gal_dedup_threshold (en_gallery e))"
    if "\<not> gal_smpc_manager (en_gallery e)" "\<not> gal_smpc_gallery (en_gallery e)" "gal_dedup_threshold (en_gallery e) \<le> 1"
    for req t and e :: "('a, 'b, 'c) engine"
    using that duplicate_iff[of "en_gallery e" "el_matcher L" iris_dist "el_smpc L" t "en_smpc e"] pointwise
    by (cases "check_duplicate (el_smpc L) (el_matcher L) t (en_gallery e, en_smpc e)") (auto simp: enroll_check_def)
  obtain r1 f1 where f1: "enroll_finish L tid1 req1 t1 en1 = (r1, f1)" by fastforce
  obtain r2 f2 where f2: "enroll_finish L tid2 req2 t2 en2 = (r2, f2)" by fastforce
  have c1: "enroll_commit L env up tid1 req1 t1 en = (r1, f1)"
    by (simp add: enroll_commit_def stored(1) f1)
  have c2: "enroll_commit L env up tid2 req2 t2 f1 = (r2, f2)"
    using stored(2) by (simp add: enroll_commit_def f1 f2)
  have g1: "en_gallery en1 = en_gallery en" and g2: "en_gallery en2 = en_gallery f1"
    using enroll_persist_done[OF stored(1)] enroll_persist_done[OF stored(2)] f1 by auto
  note s1 = enroll_finish_state[OF f1] and s2 = enroll_finish_state[OF f2]
  have keep: "\<not> gal_smpc_manager (en_gallery f1)" "\<not> gal_smpc_gallery (en_gallery f1)"
    "gal_dedup_threshold (en_gallery f1) = gal_dedup_threshold (en_gallery en)"
    using f1 plain g1 by (auto simp: enroll_finish_def gallery_add_def Let_def split: prod.splits)
  have "fst (enroll_check L req2 t2 f1) \<noteq> None"
    using dup[of f1 req2 t2] keep threshold s1 same by auto
  then show ?thesis
    using dup[of en req1 t1] dup[of en req2 t2] plain threshold fresh s1 s2 g1 g2
    by (auto simp: c1 c2 not_less)
qed

lemmas sample_persist_simps = enroll_persist_def sample_engine_def sample_req_def db_is_connected_def up_env_def up_db_def
  ensure_identity_def persist_template_def insert_template_def empty_tables_def sample_engine_lib_def byte_serializer_def
  serialize_codes_def sample_template_def enroll_finish_def gallery_add_def SMPC2Manager_new_def Gallery_new_def

lemma sample_enroll_persist_again:
  assumes "enroll_persist sample_engine_lib up_env up_env ''t1'' sample_req sample_template sample_engine = (None, en1)"
  shows "\<exists>en2. enroll_persist sample_engine_lib up_env up_env ''t2'' sample_req sample_template
           (snd (enroll_finish sample_engine_lib ''t1'' sample_req sample_template en1)) = (None, en2)"
  using assms by (auto simp: sample_persist_simps Let_def)

theorem enroll_duplicates_race_witness:
  "\<exists>en2. map ge_template_id (gal_entries (en_gallery en2)) = [''t1'', ''t2''] \<and>
      en2 = snd (enroll_commit sample_engine_lib up_env up_env ''t2'' sample_req sample_template
              (snd (enroll_commit sample_engine_lib up_env up_env ''t1'' sample_req sample_template sample_engine)))"
proof -
  obtain en1 where p1: "enroll_persist sample_engine_lib up_env up_env ''t1'' sample_req sample_template sample_engine = (None, en1)"
    using sample_enroll_persist by auto
  obtain en2 where p2: "enroll_persist sample_engine_lib up_env up_env ''t2'' sample_req sample_template
      (snd (enroll_finish sample_engine_lib ''t1'' sample_req sample_template en1)) = (None, en2)"
    using sample_enroll_persist_again[OF p1] by auto
  have "\<not> gal_smpc_manager (en_gallery sample_engine)" "\<not> gal_smpc_gallery (en_gallery sample_engine)"
    "\<forall>p ts. el_matcher sample_engine_lib p ts = Inr (map ((\<lambda>p t. (if t = p then 0 else 1 / 2, 0)) p) ts)"
    "gal_dedup_threshold (en_gallery sample_engine) \<le> 1" "gal_entries (en_gallery sample_engine) = []"
    "0 < gal_dedup_threshold (en_gallery sample_engine)"
    by (simp_all add: sample_engine_def Gallery_new_def sample_engine_lib_def)
  with enroll_duplicates_race[of sample_engine sample_engine_lib "\<lambda>p t. (if t = p then 0 else 1 / 2, 0)" sample_template
      sample_template up_env up_env "''t1''" sample_req en1 "''t2''" sample_req en2] p1 p2
  show ?thesis by simp
qed

section \<open>Deletion and restart\<close>

lemma fold_add_metadata:
  "gal_entries (fold (\<lambda>t. add_metadata_only (entry_of t)) ts g) = gal_entries g @ map entry_of ts"
  by (induction ts arbitrary: g) (simp_all add: add_metadata_only_def)

lemma load_gallery_entries:
  assumes "db_is_connected env db"
  shows "gal_entries (fst (load_gallery L env db tb (g, m))) =
           gal_entries g @ map entry_of (load_all_templates (el_serializer L) env db tb)"
  using assms by (simp add: load_gallery_def Let_def fold_add_metadata)

lemma load_all_has:
  assumes "db_is_connected env db" "pq_exec env" "tables_ok tb" "r \<in> set (tb_templates tb)"
  shows "\<exists>t \<in> set (load_all_templates ser env db tb). dt_template_id t = tr_template_id r \<and> dt_identity_id t = tr_identity_id r"
proof -
  obtain name where "tb_identities tb (tr_identity_id r) = Some name"
    using assms(3,4) by (auto simp: tables_ok_def)
  with assms show ?thesis
    by (auto simp: load_all_templates_def intro!: bexI[of _ r])
qed

text \<open>
  C36. Deleting an identity removes all its entries from the gallery and nothing else. While the
  database is reachable its templates are gone from it too, and a restarted engine does not know
  them. While the database is not reachable the deletion is reported all the same, without a
  reconnection attempt, and the next start brings every deleted template back.
\<close>

theorem delete_identity_route:
  assumes "gallery_delete_route L env exec2 i en = (reply, en')" "tables_ok (en_tables en)"
  shows "gal_entries (en_gallery en') = filter (\<lambda>e. ge_identity_id e \<noteq> i) (gal_entries (en_gallery en)) \<and>
    jget (snd reply) ''templates_removed'' =
      Some (JInt (int (length (filter (\<lambda>e. ge_identity_id e = i) (gal_entries (en_gallery en)))))) \<and>
    (db_is_connected env (en_db en) \<and> pq_exec env \<and> pq_uuid env i \<longrightarrow>
       (\<forall>up db. \<forall>e \<in> set (gal_entries (fst (load_gallery L up db (en_tables en') (Gallery_new a b, m)))). ge_identity_id e \<noteq> i)) \<and>
    (\<not> db_is_connected env (en_db en) \<longrightarrow>
       en_tables en' = en_tables en \<and>
       (\<forall>r \<in> set (tb_templates (en_tables en)). \<forall>up db. db_is_connected up db \<and> pq_exec up \<longrightarrow>
          (\<exists>e \<in> set (gal_entries (fst (load_gallery L up db (en_tables en') (Gallery_new a b, m)))).
             ge_template_id e = tr_template_id r \<and> ge_identity_id e = tr_identity_id r)))"
proof -
  have st: "gal_entries (en_gallery en') = filter (\<lambda>e. ge_identity_id e \<noteq> i) (gal_entries (en_gallery en))"
    "jget (snd reply) ''templates_removed'' =
      Some (JInt (int (length (filter (\<lambda>e. ge_identity_id e = i) (gal_entries (en_gallery en))))))"
    "en_tables en' = (if db_is_connected env (en_db en) then snd (delete_identity env exec2 (en_db en) i (en_tables en)) else en_tables en)"
    using assms(1) by (auto simp: gallery_delete_route_def gallery_remove_def Let_def)
  have gone: "ge_identity_id e \<noteq> i"
    if "db_is_connected env (en_db en)" "pq_exec env" "pq_uuid env i"
      "e \<in> set (gal_entries (fst (load_gallery L up db (en_tables en') (Gallery_new a b, m))))" for up db e
  proof -
    have "\<forall>r \<in> set (tb_templates (en_tables en')). tr_identity_id r \<noteq> i"
      using st(3) that(1-3)
      by (auto simp: delete_identity_def forget_identity_def forget_templates_def Let_def)
    then have "\<forall>t \<in> set (load_all_templates (el_serializer L) up db (en_tables en')). dt_identity_id t \<noteq> i"
      by (auto simp: load_all_templates_def split: option.splits)
    moreover have "gal_entries (fst (load_gallery L up db (en_tables en') (Gallery_new a b, m))) =
        (if db_is_connected up db then map entry_of (load_all_templates (el_serializer L) up db (en_tables en')) else [])"
      by (simp add: load_gallery_entries Gallery_new_def) (simp add: load_gallery_def)
    ultimately show ?thesis using that(4) by (auto simp: entry_of_def split: if_splits)
  qed
  have back_again: "\<exists>e \<in> set (gal_entries (fst (load_gallery L up db (en_tables en) (Gallery_new a b, m)))).
      ge_template_id e = tr_template_id r \<and> ge_identity_id e = tr_identity_id r"
    if "r \<in> set (tb_templates (en_tables en))" "db_is_connected up db" "pq_exec up" for r up db
    using load_all_has[OF that(2,3) assms(2) that(1), of "el_serializer L"] that(2)
    by (auto simp: load_gallery_entries entry_of_def Gallery_new_def)
  show ?thesis using st gone back_again by auto
qed

definition down_env :: pq_env where
  "down_env = up_env\<lparr>pq_alive := False\<rparr>"

definition enrolled_tables :: tables where
  "enrolled_tables =
     \<lparr>tb_identities = [''ann'' \<mapsto> ''Ann''],
      tb_templates = [\<lparr>tr_template_id = ''t1'', tr_identity_id = ''ann'', tr_eye_side = ''left'', tr_iris_codes = [5, 9],
        tr_mask_codes = [7, 3], tr_width = 512, tr_height = 16, tr_n_scales = 1, tr_quality_score = 0, tr_device_id = ''local''\<rparr>],
      tb_match_log = []\<rparr>"

theorem delete_identity_route_witness:
  "\<exists>reply en'. gallery_delete_route sample_engine_lib down_env True ''ann'' (sample_engine\<lparr>en_tables := enrolled_tables\<rparr>) = (reply, en') \<and>
     (\<exists>e \<in> set (gal_entries (fst (load_gallery sample_engine_lib up_env up_db (en_tables en') (Gallery_new 1 1, SMPCManager_new)))).
        ge_identity_id e = ''ann'')"
proof -
  obtain reply en' where d: "gallery_delete_route sample_engine_lib down_env True ''ann'' (sample_engine\<lparr>en_tables := enrolled_tables\<rparr>) = (reply, en')"
    by fastforce
  have "tables_ok (en_tables (sample_engine\<lparr>en_tables := enrolled_tables\<rparr>))" by (simp add: tables_ok_def enrolled_tables_def)
  note route = delete_identity_route[OF d this, of 1 1 SMPCManager_new]
  define r where "r = hd (tb_templates enrolled_tables)"
  have r: "r \<in> set (tb_templates (en_tables (sample_engine\<lparr>en_tables := enrolled_tables\<rparr>)))" "tr_identity_id r = ''ann''"
    by (simp_all add: r_def enrolled_tables_def)
  have up: "\<not> db_is_connected down_env (en_db (sample_engine\<lparr>en_tables := enrolled_tables\<rparr>))" "db_is_connected up_env up_db \<and> pq_exec up_env"
    by (simp_all add: db_is_connected_def down_env_def up_env_def up_db_def)
  from route have "\<not> db_is_connected down_env (en_db (sample_engine\<lparr>en_tables := enrolled_tables\<rparr>)) \<longrightarrow>
      (\<exists>e \<in> set (gal_entries (fst (load_gallery sample_engine_lib up_env up_db (en_tables en') (Gallery_new 1 1, SMPCManager_new)))).
         ge_identity_id e = tr_identity_id r)"
    using r(1) up(2) by blast
  with up(1) r(2) d show ?thesis by auto
qed

text \<open>
  The Shamir coordinator has no removal: a deletion leaves its shares, and an analysis goes on
  to ask it with them.
\<close>

lemma delete_keeps_shamir_shares:
  "smpc2_match_json L t (en_smpc2 (snd (gallery_delete_route L env exec2 i en))) = smpc2_match_json L t (en_smpc2 en)"
  by (simp add: gallery_delete_route_def Let_def split: prod.splits)

end
