(* ===== verification/Engine_Run.thy ===== *)
theory Engine_Run
  imports Engine "HOL-Library.Multiset"
begin

text \<open>
  The iris engine over time: the requests of its HTTP server one after the other, from the start
  on, and across a restart. The gallery in memory and the templates in the database are two
  representations of one directory; the theory relates both to an abstract directory and shows
  that every request keeps them together.
\<close>

section \<open>Requests\<close>

text \<open>
  The circumstances of a request are the database's answers (before and after a reconnection),
  the identifier drawn for a new template, the measured latency, and for a deletion whether its
  second statement is executed.
\<close>

datatype engine_event =
    PostEnroll pq_env pq_env string "json option"
  | PostAnalyze pq_env double "json option"
  | GetSize
  | GetList
  | GetTemplate pq_env pq_env string
  | DeleteIdentity pq_env bool string
  | GetAlive
  | GetReady pq_env bool
  | GetConfig pq_env

text \<open>The HTTP library answers a request whose handler throws with status 500.\<close>

definition internal_error :: reply where
  "internal_error = (500, JNull)"

fun engine_serve ::
  "('b, 'o, 'q, 'i) engine_lib \<Rightarrow> ('b PackedIrisCode \<Rightarrow> string \<times> string) \<Rightarrow> engine_event \<Rightarrow> ('b, 'o, 'q) engine \<Rightarrow>
   reply \<times> ('b, 'o, 'q) engine" where
  "engine_serve L render (PostEnroll env up tid body) en =
     (case enroll L env up tid body en of Inl x \<Rightarrow> (internal_error, en) | Inr r \<Rightarrow> r)"
| "engine_serve L render (PostAnalyze env latency body) en =
     (case analyze L env latency body en of Inl x \<Rightarrow> (internal_error, en) | Inr r \<Rightarrow> r)"
| "engine_serve L render GetSize en = (gallery_size_route en, en)"
| "engine_serve L render GetList en = (gallery_list_route en, en)"
| "engine_serve L render (GetTemplate env up tid) en = gallery_template_route L render env up tid en"
| "engine_serve L render (DeleteIdentity env exec2 i) en = gallery_delete_route L env exec2 i en"
| "engine_serve L render GetAlive en = (engine_health_alive, en)"
| "engine_serve L render (GetReady env nats_status) en = (engine_health_ready env nats_status en, en)"
| "engine_serve L render (GetConfig env) en = (config_route env en, en)"

definition engine_step ::
  "('b, 'o, 'q, 'i) engine_lib \<Rightarrow> ('b PackedIrisCode \<Rightarrow> string \<times> string) \<Rightarrow> engine_event \<Rightarrow> ('b, 'o, 'q) engine \<Rightarrow>
   ('b, 'o, 'q) engine" where
  "engine_step L render ev en = snd (engine_serve L render ev en)"

section \<open>The directory\<close>

text \<open>What both representations say of a template: its identifier, identity, eye, codes and masks.\<close>

type_synonym 'b listing = "string \<times> string \<times> string \<times> 'b PackedIrisCode list \<times> 'b PackedIrisCode list"

definition entry_listing :: "'b IrisTemplate GalleryEntry \<Rightarrow> 'b listing" where
  "entry_listing e =
     (ge_template_id e, ge_identity_id e, ge_eye_side e, iris_codes (ge_tmpl e), mask_codes (ge_tmpl e))"

definition row_listing :: "'b code_serializer \<Rightarrow> template_row \<Rightarrow> 'b listing" where
  "row_listing ser r =
     (tr_template_id r, tr_identity_id r, tr_eye_side r, deserialize_codes ser (tr_iris_codes r),
      deserialize_codes ser (tr_mask_codes r))"

definition gallery_directory :: "'b IrisTemplate Gallery \<Rightarrow> 'b listing list" where
  "gallery_directory g = map entry_listing (gal_entries g)"

definition table_directory :: "'b code_serializer \<Rightarrow> tables \<Rightarrow> 'b listing list" where
  "table_directory ser tb = map (row_listing ser) (tb_templates tb)"

definition in_step :: "'b code_serializer \<Rightarrow> ('b, 'o, 'q) engine \<Rightarrow> bool" where
  "in_step ser en \<longleftrightarrow> tables_ok (en_tables en) \<and>
     gallery_directory (en_gallery en) = table_directory ser (en_tables en)"

text \<open>The abstract directory and what a request does to it, given the engine's answer.\<close>

definition listed_identity :: "'b listing \<Rightarrow> string" where
  "listed_identity x = fst (snd x)"

fun directory_step :: "engine_event \<Rightarrow> reply \<Rightarrow> 'b listing list \<Rightarrow> 'b listing list \<Rightarrow> bool" where
  "directory_step (PostEnroll env up tid body) r d d' \<longleftrightarrow>
     (if enrolled (snd r) then \<exists>x. d' = d @ [x] \<and> fst x = tid \<and> tid \<notin> set (map fst d) else d' = d)"
| "directory_step (DeleteIdentity env exec2 i) r d d' \<longleftrightarrow> d' = filter (\<lambda>x. listed_identity x \<noteq> i) d"
| "directory_step _ r d d' \<longleftrightarrow> d' = d"

section \<open>Enrolment adds the same listing to both\<close>

definition faithful :: "'b code_serializer \<Rightarrow> bool" where
  "faithful ser \<longleftrightarrow> (\<forall>cs. serializer_faithful ser cs)"

lemma faithful_codes: "faithful ser \<Longrightarrow> deserialize_codes ser (serialize_codes ser cs) = cs"
  by (intro deserialize_serialize) (auto simp: faithful_def serializer_faithful_def)

lemma persist_listing:
  assumes "persist_template ser up db tid i side t dev tb = (True, tb')" "faithful ser"
  shows "\<exists>r. tb_templates tb' = tb_templates tb @ [r] \<and>
    row_listing ser r = (tid, i, side, iris_codes t, mask_codes t) \<and> tid \<notin> set (map tr_template_id (tb_templates tb))"
  using assms
  by (auto simp: persist_template_def insert_template_def row_listing_def faithful_codes split: if_splits)

lemma enroll_commit_listing:
  assumes "enroll_commit L env up tid req t en = (reply, en')" "faithful (el_serializer L)" "enrolled (snd reply)"
  shows "\<exists>x. gallery_directory (en_gallery en') = gallery_directory (en_gallery en) @ [x] \<and>
    table_directory (el_serializer L) (en_tables en') = table_directory (el_serializer L) (en_tables en) @ [x] \<and>
    fst x = tid \<and> tid \<notin> set (map tr_template_id (tb_templates (en_tables en)))"
proof -
  obtain p en2 where p: "enroll_persist L env up tid req t en = (p, en2)" by fastforce
  show ?thesis
  proof (cases p)
    case (Some r)
    with assms enroll_persist_failed [OF p [unfolded Some]] p show ?thesis by (simp add: enroll_commit_def)
  next
    case None
    with assms(1) p have fin: "enroll_finish L tid req t en2 = (reply, en')" by (simp add: enroll_commit_def)
    note done' = enroll_persist_done [OF p [unfolded None]] and fin' = enroll_finish_state [OF fin]
    then obtain tb where tb:
      "ensure_identity up (en_db en2) (rq_identity_id req) (rq_identity_name req) (en_tables en) = (True, tb)"
      "persist_template (el_serializer L) up (en_db en2) tid (rq_identity_id req) (rq_eye_side req) t (rq_device_id req) tb
         = (True, en_tables en2)" by auto
    have "tb_templates tb = tb_templates (en_tables en)"
      using tb(1) by (auto simp: ensure_identity_def split: if_splits)
    with persist_listing [OF tb(2) assms(2)] done' fin' show ?thesis
      by (auto simp: gallery_directory_def table_directory_def entry_listing_def)
  qed
qed

lemma enroll_listing:
  assumes "enroll L env up tid body en = Inr (reply, en')" "faithful (el_serializer L)"
  shows "if enrolled (snd reply)
    then \<exists>x. gallery_directory (en_gallery en') = gallery_directory (en_gallery en) @ [x] \<and>
      table_directory (el_serializer L) (en_tables en') = table_directory (el_serializer L) (en_tables en) @ [x] \<and>
      fst x = tid \<and> tid \<notin> set (map tr_template_id (tb_templates (en_tables en)))
    else gallery_directory (en_gallery en') = gallery_directory (en_gallery en) \<and>
      table_directory (el_serializer L) (en_tables en') = table_directory (el_serializer L) (en_tables en)"
proof (cases rule: enroll_cases [OF assms(1)])
  case 1
  then show ?thesis by simp
next
  case (2 req t en1)
  show ?thesis
  proof (cases "enrolled (snd reply)")
    case True
    with enroll_commit_listing [OF 2(1) assms(2)] 2(2,3) show ?thesis by simp
  next
    case False
    obtain p en2 where p: "enroll_persist L env up tid req t en1 = (p, en2)" by fastforce
    from False 2(1) p have "p = Some reply \<and> en' = en2"
      by (cases p) (auto simp: enroll_commit_def dest: enroll_finish_state)
    with enroll_persist_failed [of L env up tid req t en1 reply en2] p False 2(2,3) show ?thesis
      by (simp add: gallery_directory_def table_directory_def)
  qed
qed

section \<open>The other requests\<close>

lemma log_match_templates [simp]:
  "tb_templates (log_match env db f t i h b d l tb) = tb_templates tb"
  by (simp add: log_match_def Let_def)

lemma analyze_keeps:
  assumes "analyze L env latency body en = Inr (reply, en')"
  shows "en_gallery en' = en_gallery en \<and> tb_templates (en_tables en') = tb_templates (en_tables en) \<and>
    (tables_ok (en_tables en) \<longrightarrow> tables_ok (en_tables en'))"
proof -
  have m: "en_gallery e = en_gallery en \<and> tb_templates (en_tables e) = tb_templates (en_tables en) \<and>
      (tables_ok (en_tables en) \<longrightarrow> tables_ok (en_tables e))"
    if "analyze_matched L env latency f d t en = (r, e)" for f d t r e
    using that log_match_ok
    by (auto simp: analyze_matched_def Let_def split: prod.splits option.splits if_splits)
  have "(\<exists>f d t. analyze_matched L env latency f d t en = (reply, en')) \<or> en' = en"
    using assms by (cases body; clarsimp simp: analyze_def ebind_Inr Let_def; clarsimp split: if_split_asm;
        auto split: option.split_asm sum.split_asm prod.split_asm)
  with m show ?thesis by blast
qed

lemma template_route_keeps:
  assumes "gallery_template_route L render env up tid en = (reply, en')"
  shows "en_gallery en' = en_gallery en \<and> en_tables en' = en_tables en"
  using assms by (auto simp: gallery_template_route_def Let_def split: if_splits option.splits prod.splits)

lemma delete_listing:
  assumes "gallery_delete_route L env exec2 i en = (reply, en')"
    and "db_is_connected env (en_db en)" "pq_exec env" "pq_uuid env i"
  shows "gallery_directory (en_gallery en') = filter (\<lambda>x. listed_identity x \<noteq> i) (gallery_directory (en_gallery en))"
    and "table_directory ser (en_tables en') = filter (\<lambda>x. listed_identity x \<noteq> i) (table_directory ser (en_tables en))"
    and "tables_ok (en_tables en) \<Longrightarrow> tables_ok (en_tables en')"
proof -
  have e: "gal_entries (en_gallery en') = filter (\<lambda>e. ge_identity_id e \<noteq> i) (gal_entries (en_gallery en))"
    "en_tables en' = snd (delete_identity env exec2 (en_db en) i (en_tables en))"
    using assms by (auto simp: gallery_delete_route_def gallery_remove_def Let_def)
  then show "gallery_directory (en_gallery en') = filter (\<lambda>x. listed_identity x \<noteq> i) (gallery_directory (en_gallery en))"
    by (simp add: gallery_directory_def filter_map comp_def listed_identity_def entry_listing_def)
  have "tb_templates (en_tables en') = filter (\<lambda>r. tr_identity_id r \<noteq> i) (tb_templates (en_tables en))"
    using e(2) assms(2-4) by (simp add: delete_identity_def forget_identity_def forget_templates_def Let_def)
  then show "table_directory ser (en_tables en') = filter (\<lambda>x. listed_identity x \<noteq> i) (table_directory ser (en_tables en))"
    by (simp add: table_directory_def filter_map comp_def listed_identity_def row_listing_def)
  show "tables_ok (en_tables en) \<Longrightarrow> tables_ok (en_tables en')"
    by (simp add: e(2) delete_identity_ok)
qed

section \<open>Every request follows the directory\<close>

text \<open>A deletion reaches the database: it is connected, accepts the identifier and executes.\<close>

fun reaches_database :: "engine_event \<Rightarrow> ('b, 'o, 'q) engine \<Rightarrow> bool" where
  "reaches_database (DeleteIdentity env exec2 i) en = (db_is_connected env (en_db en) \<and> pq_exec env \<and> pq_uuid env i)"
| "reaches_database _ en = True"

lemma in_step_ids: "in_step ser en \<Longrightarrow> map fst (gallery_directory (en_gallery en)) = map tr_template_id (tb_templates (en_tables en))"
  by (simp add: in_step_def table_directory_def row_listing_def comp_def)

lemma engine_serve_refines:
  assumes "in_step (el_serializer L) en" "faithful (el_serializer L)" "reaches_database ev en"
    and "engine_serve L render ev en = (reply, en')"
  shows "in_step (el_serializer L) en' \<and>
    directory_step ev reply (gallery_directory (en_gallery en)) (gallery_directory (en_gallery en'))"
proof (cases ev)
  case (PostEnroll env up tid body)
  show ?thesis
  proof (cases "enroll L env up tid body en")
    case (Inl x)
    with assms PostEnroll show ?thesis by (auto simp: internal_error_def enrolled_def)
  next
    case (Inr r)
    with assms(4) PostEnroll have e: "enroll L env up tid body en = Inr (reply, en')" by simp
    have "tables_ok (en_tables en')"
    proof (cases rule: enroll_cases [OF e])
      case 1
      with assms(1) show ?thesis by (simp add: in_step_def)
    next
      case (2 req t en1)
      from enroll_commit_outcome [OF 2(1)] 2(3) assms(1) show ?thesis by (simp add: in_step_def)
    qed
    with enroll_listing [OF e assms(2)] assms(1) in_step_ids [OF assms(1)] PostEnroll show ?thesis
      by (auto simp: in_step_def split: if_splits)
  qed
next
  case (PostAnalyze env latency body)
  show ?thesis
  proof (cases "analyze L env latency body en")
    case (Inl x)
    with assms PostAnalyze show ?thesis by auto
  next
    case (Inr r)
    with assms(4) PostAnalyze have "analyze L env latency body en = Inr (reply, en')" by simp
    from analyze_keeps [OF this] assms(1) PostAnalyze show ?thesis by (simp add: in_step_def table_directory_def)
  qed
next
  case (GetTemplate env up tid)
  with template_route_keeps [of L render env up tid en reply en'] assms show ?thesis by (simp add: in_step_def)
next
  case (DeleteIdentity env exec2 i)
  with assms have "gallery_delete_route L env exec2 i en = (reply, en')" "db_is_connected env (en_db en)" "pq_exec env"
    "pq_uuid env i" by simp_all
  note d = delete_listing(1) [OF this] delete_listing(2) [OF this, of "el_serializer L"] delete_listing(3) [OF this]
  with assms(1) DeleteIdentity show ?thesis by (auto simp: in_step_def)
qed (use assms in auto)

lemma engine_step_in_step:
  assumes "in_step (el_serializer L) en" "faithful (el_serializer L)" "reaches_database ev en"
  shows "in_step (el_serializer L) (engine_step L render ev en)"
proof -
  obtain reply en' where s: "engine_serve L render ev en = (reply, en')" by fastforce
  from engine_serve_refines [OF assms s] s show ?thesis by (simp add: engine_step_def)
qed

text \<open>A run: each request is served in the state the previous one left, and every deletion reaches the database.\<close>

interpretation engine_runs: guarded_machine "engine_step L render" reaches_database
  "\<lambda>en. faithful (el_serializer L) \<and> in_step (el_serializer L) en" for L render
  by unfold_locales (simp add: engine_step_in_step)

section \<open>Starting and restarting\<close>

lemma load_all_listing:
  assumes "tables_ok tb" "db_is_connected env db" "pq_exec env"
  shows "map entry_listing (map entry_of (load_all_templates ser env db tb)) = table_directory ser tb"
proof -
  have "\<forall>r \<in> set rs. tb_identities tb (tr_identity_id r) \<noteq> None \<Longrightarrow>
    map entry_listing (map entry_of (concat (map (\<lambda>r. case tb_identities tb (tr_identity_id r) of
             None \<Rightarrow> []
           | Some name \<Rightarrow>
               [\<lparr>dt_template_id = tr_template_id r, dt_identity_id = tr_identity_id r, dt_identity_name = name,
                 dt_eye_side = tr_eye_side r,
                 dt_tmpl = \<lparr>iris_codes = deserialize_codes ser (tr_iris_codes r),
                            mask_codes = deserialize_codes ser (tr_mask_codes r),
                            iris_code_version = ''v2.0''\<rparr>\<rparr>]) rs))) = map (row_listing ser) rs" for rs
    by (induction rs) (auto simp: entry_listing_def entry_of_def row_listing_def)
  with assms show ?thesis by (simp add: load_all_templates_def table_directory_def tables_ok_def)
qed

lemma engine_main_in_step:
  assumes "engine_main L pipeline_ok st st2 env config tb = Inr en" "tables_ok tb"
    and "db_is_connected env (en_db en)" "pq_exec env"
  shows "in_step (el_serializer L) en" and "en_tables en = tb"
proof -
  define G where "G m = (let g = Gallery_new (ec_match_threshold config) (ec_dedup_threshold config) :: 'a IrisTemplate Gallery in
      if sm_active m then if SMPCManager_is_distributed m then enable_smpc_distributed g else enable_smpc g else g)"
    for m :: "'b SMPCManager"
  have G: "(if sm_active m then if SMPCManager_is_distributed m
      then enable_smpc_distributed (Gallery_new (ec_match_threshold config) (ec_dedup_threshold config))
      else enable_smpc (Gallery_new (ec_match_threshold config) (ec_dedup_threshold config))
      else Gallery_new (ec_match_threshold config) (ec_dedup_threshold config)) = G m" for m
    by (simp add: G_def Let_def)
  have "en_tables en = tb \<and> (\<exists>m. load_gallery L env (en_db en) tb (G m, m) = (en_gallery en, en_smpc en))"
    using assms(1) unfolding engine_main_def Let_def G by (auto split: prod.splits if_split_asm)
  then obtain m where tb: "en_tables en = tb" and g: "load_gallery L env (en_db en) tb (G m, m) = (en_gallery en, en_smpc en)"
    by blast
  show "en_tables en = tb" by (rule tb)
  have "gal_entries (G m) = []"
    by (simp add: G_def Let_def Gallery_new_def enable_smpc_def enable_smpc_distributed_def)
  then have "gallery_directory (en_gallery en) = table_directory (el_serializer L) tb"
    using load_gallery_entries [OF assms(3), of L tb "G m" m] load_all_listing [OF assms(2-4), of "el_serializer L"]
    by (simp add: gallery_directory_def g)
  with assms(2) tb show "in_step (el_serializer L) en" by (simp add: in_step_def)
qed

section \<open>Properties of the engine over time\<close>


definition sample_config :: EngineConfig where
  "sample_config = EngineConfig_from_env (\<lambda>s. 0)
     [''EYED_SMPC_ENABLED'' \<mapsto> ''no'', ''EYED_SMPC2_ENABLED'' \<mapsto> ''no'', ''EYED_DB_URL'' \<mapsto> ''c''] Map.empty"

definition sample_status :: nats_status where
  "sample_status = \<lparr>st_options = True, st_secure = True, st_ca = True, st_chain = True, st_connect = True\<rparr>"

lemma sample_main:
  "engine_main sample_engine_lib True sample_status sample_status up_env sample_config empty_tables =
     Inr (sample_engine\<lparr>en_config := sample_config\<rparr>)"
  by (simp add: engine_main_def sample_config_def EngineConfig_from_env_def env_flag_def env_text_def env_atof_def
      inject_secrets_def read_secret_def Let_def db_connect_def Database_new_def up_env_def up_db_def sample_engine_def
      Gallery_new_def load_gallery_def load_all_templates_def empty_tables_def SMPCManager_new_def)

lemma sample_faithful: "faithful (el_serializer sample_engine_lib)"
  by (simp add: faithful_def serializer_faithful_def sample_engine_lib_def byte_serializer_def)

lemma sample_enrolled:
  "\<exists>reply en'. engine_serve sample_engine_lib render (PostEnroll up_env up_env ''t1'' (Some sample_body))
       (sample_engine\<lparr>en_config := sample_config\<rparr>) = (reply, en') \<and> enrolled (snd reply)"
proof -
  let ?en = "sample_engine\<lparr>en_config := sample_config\<rparr>"
  have c: "enroll_check sample_engine_lib sample_req sample_template ?en = (None, ?en)"
    by (simp add: enroll_check_def check_duplicate_def find_best_match_def sample_engine_def Gallery_new_def no_duplicate_def)
  obtain en1 where p: "enroll_persist sample_engine_lib up_env up_env ''t1'' sample_req sample_template ?en = (None, en1)"
    by (auto simp: sample_persist_simps Let_def)
  obtain reply en' where f: "enroll_finish sample_engine_lib ''t1'' sample_req sample_template en1 = (reply, en')" by fastforce
  have "enroll sample_engine_lib up_env up_env ''t1'' (Some sample_body) ?en = Inr (reply, en')"
    by (simp add: enroll_def sample_enroll_template c enroll_commit_def p f)
  with enroll_finish_state [OF f] show ?thesis by auto
qed


end
