(* ===== verification/Gallery_Modes.thy ===== *)
theory Gallery_Modes
  imports Gallery
begin

text \<open>
  The modes of matching compared: the same additions and removals on a gallery that matches in
  the clear, on one that matches through the in-process SMPC gallery, and on one that matches
  through the coordinator.
\<close>

section \<open>Operations\<close>

datatype 't gallery_op = Add "'t GalleryEntry" | Remove string

fun gallery_step ::
  "('t, 'o) smpc_lib \<Rightarrow> 't gallery_op \<Rightarrow> 't Gallery \<times> 'o SMPCManager \<Rightarrow> 't Gallery \<times> 'o SMPCManager" where
  "gallery_step lib (Add e) s = gallery_add lib e s"
| "gallery_step lib (Remove i) s = snd (gallery_remove lib i s)"

text \<open>Every addition uses a new template identifier, and its sharing succeeds.\<close>

fun step_ok :: "('t, 'o) smpc_lib \<Rightarrow> 't gallery_op \<Rightarrow> 't Gallery \<times> 'o SMPCManager \<Rightarrow> bool" where
  "step_ok lib (Add e) (g, m) =
     (ge_template_id e \<notin> set (map ge_template_id (gal_entries g)) \<and>
      (if gal_smpc_manager g then has_value (fst (enroll_distributed lib (ge_template_id e) (ge_tmpl e) m))
       else add_succeeds lib e m))"
| "step_ok lib (Remove i) (g, m) = (\<not> gal_smpc_manager g)"

text \<open>The same gallery in the clear.\<close>

definition in_clear :: "'t Gallery \<Rightarrow> 't Gallery" where
  "in_clear g = g\<lparr>gal_smpc_gallery := False, gal_smpc_manager := False\<rparr>"

definition pointwise :: "('t \<Rightarrow> 't list \<Rightarrow> (double \<times> int) list Result) \<Rightarrow> ('t \<Rightarrow> 't \<Rightarrow> double \<times> int) \<Rightarrow> bool" where
  "pointwise matcher iris_dist \<longleftrightarrow> (\<forall>p ts. matcher p ts = Inr (map (iris_dist p) ts))"

lemma step_in_clear:
  "fst (gallery_step lib p (in_clear g, m')) = in_clear (fst (gallery_step lib p (g, m)))"
  by (cases p) (simp_all add: gallery_add_def gallery_remove_def in_clear_def Let_def)

lemma run_in_clear:
  "fst (fold (gallery_step lib) ps (in_clear g, m')) = in_clear (fst (fold (gallery_step lib) ps (g, m)))"
proof (induction ps arbitrary: g m m')
  case (Cons p ps)
  obtain g1 m1 where s: "gallery_step lib p (g, m) = (g1, m1)" by fastforce
  obtain g2 m2 where s': "gallery_step lib p (in_clear g, m') = (g2, m2)" by fastforce
  have "g2 = in_clear g1" using step_in_clear [of lib p g m' m] s s' by simp
  with Cons.IH [of g1 m2 m1] s s' show ?case by simp
qed simp

lemma run_thresholds:
  "fold (gallery_step lib) ps (g, m) = (g', m') \<Longrightarrow>
    gal_match_threshold g' = gal_match_threshold g \<and> gal_dedup_threshold g' = gal_dedup_threshold g"
proof (induction ps arbitrary: g m)
  case (Cons p ps)
  obtain g1 m1 where s: "gallery_step lib p (g, m) = (g1, m1)" by fastforce
  then have "gal_match_threshold g1 = gal_match_threshold g \<and> gal_dedup_threshold g1 = gal_dedup_threshold g"
    by (cases p) (auto simp: gallery_add_def gallery_remove_def Let_def)
  with Cons.IH [of g1 m1] Cons.prems s show ?case by simp
qed simp

section \<open>The in-process SMPC gallery\<close>

lemma step_in_sync:
  assumes "ordered_gallery lib content iris_dist" "in_sync content g m" "step_ok lib p (g, m)"
    and "gallery_step lib p (g, m) = (g', m')"
  shows "in_sync content g' m'"
proof (cases p)
  case (Add e)
  moreover have "\<not> gal_smpc_manager g" using assms(2) by (simp add: in_sync_def)
  ultimately show ?thesis using add_in_sync [OF assms(1,2), of e] assms(3,4) by simp
next
  case (Remove i)
  with remove_in_sync [OF assms(1,2), of i] assms(4) show ?thesis by (auto split: prod.splits)
qed

interpretation sync_runs: guarded_machine "gallery_step lib" "step_ok lib"
  "\<lambda>(g, m). ordered_gallery lib content iris_dist \<and> in_sync content g m" for lib content iris_dist
  by unfold_locales (auto intro: step_in_sync)

lemma sync_find_equal:
  assumes "ordered_gallery lib content iris_dist" "in_sync content g m" "pointwise matcher iris_dist"
  shows "fst (find_best_match lib matcher probe t g m) = fst (find_best_match lib matcher probe t (in_clear g) m')"
proof (cases "gal_entries g = []")
  case False
  obtain sg where sg: "sm_gallery m = Some sg" "content sg = map (\<lambda>e. (ge_template_id e, ge_tmpl e)) (gal_entries g)"
    and g: "gal_smpc_gallery g" "\<not> gal_smpc_manager g"
    using assms(2) by (auto simp: in_sync_def)
  define rs where "rs = map (\<lambda>e. iris_dist probe (ge_tmpl e)) (gal_entries g)"
  have "length rs = length (gal_entries g)" by (simp add: rs_def)
  with False obtain x xs where rs: "rs = x # xs" and all: "take (length (gal_entries g)) (x # xs) = x # xs"
    by (cases rs) auto
  have a: "lg_match_probe lib probe sg = Inr rs"
    using assms(1) sg(2) by (simp add: ordered_gallery_def rs_def comp_def)
  have b: "matcher probe (map ge_tmpl (gal_entries g)) = Inr rs"
    using assms(3) by (simp add: pointwise_def rs_def comp_def)
  have "find_best_match lib matcher probe t g m = (Some (match_of (gal_entries g) t (best_loop rs 0 (0, 1, 0))), m)"
    using False g sg(1) by (simp add: find_best_match_def find_best_match_smpc_def a rs all del: take_Suc_Cons best_loop.simps)
  moreover have "find_best_match lib matcher probe t (in_clear g) m' =
      (Some (match_of (gal_entries g) t (best_loop rs 0 (0, 1, 0))), m')"
    using False by (simp add: find_best_match_def in_clear_def b rs del: best_loop.simps)
  ultimately show ?thesis by simp
qed (simp add: find_best_match_def in_clear_def)

lemma duplicate_of_find:
  assumes "fst (find_best_match lib matcher probe (gal_dedup_threshold g) g m) =
    fst (find_best_match lib matcher probe (gal_dedup_threshold g') g' m')"
  shows "fst (check_duplicate lib matcher probe (g, m)) = fst (check_duplicate lib matcher probe (g', m'))"
  using assms by (auto simp: check_duplicate_def split: prod.splits option.splits)

text \<open>
  C4. Matching through the in-process SMPC gallery gives exactly the results of matching in the
  clear: after the same additions and removals, as long as every addition is shared
  successfully, both galleries list the same identities, and for every probe the match (entry,
  distance, rotation, decision) and the duplicate check are equal. The hypotheses on libiris
  are that its SMPC gallery keeps its templates in order and that both matchers compute the same
  distance for a pair of templates.
\<close>

theorem smpc_equals_plaintext:
  assumes "ordered_gallery lib content iris_dist" and "pointwise matcher iris_dist"
    and "sm_gallery m = Some sg" and "content sg = []"
    and "guarded_run (step_ok lib) (gallery_step lib) ps (enable_smpc (Gallery_new mt dt), m)"
    and "fold (gallery_step lib) ps (enable_smpc (Gallery_new mt dt), m) = (gs, ms)"
    and "fold (gallery_step lib) ps (Gallery_new mt dt, m') = (gp, mp)"
  shows "gallery_list gs = gallery_list gp \<and>
    (\<forall>probe. fst (gallery_match lib matcher probe (gs, ms)) = fst (gallery_match lib matcher probe (gp, mp)) \<and>
       fst (check_duplicate lib matcher probe (gs, ms)) = fst (check_duplicate lib matcher probe (gp, mp)))"
proof -
  have "in_sync content (enable_smpc (Gallery_new mt dt)) m"
    using assms(3,4) by (simp add: in_sync_def enable_smpc_def Gallery_new_def)
  then have sync: "in_sync content gs ms"
    using sync_runs.guarded_keeps [OF _ assms(5), of content iris_dist] assms(1,6) by simp
  have "in_clear (enable_smpc (Gallery_new mt dt)) = Gallery_new mt dt"
    by (simp add: in_clear_def enable_smpc_def Gallery_new_def)
  then have gp: "gp = in_clear gs"
    using run_in_clear [of lib ps "enable_smpc (Gallery_new mt dt)" m' m] assms(6,7) by (metis fst_conv)
  note eq = sync_find_equal [OF assms(1) sync assms(2)]
  have th: "gal_match_threshold gp = gal_match_threshold gs" "gal_dedup_threshold gp = gal_dedup_threshold gs"
    by (simp_all add: gp in_clear_def)
  have "gallery_list gs = gallery_list gp" by (simp add: gallery_list_def gp in_clear_def)
  with eq show ?thesis
    by (auto simp: gallery_match_def th simp flip: gp intro!: duplicate_of_find)
qed

definition sample_ops :: "nat gallery_op list" where
  "sample_ops = [Add (sample_entry_of ''ann'' 5), Add (sample_entry_of ''bob'' 6), Remove ''ann'']"

definition sample_manager :: "(string \<times> nat) list SMPCManager" where
  "sample_manager = SMPCManager_new\<lparr>sm_gallery := Some []\<rparr>"

lemma sample_ordered: "ordered_gallery list_lib id sample_dist"
  by (auto simp: ordered_gallery_def list_lib_def sample_add_def make_error_def)

lemma sample_ops_ok: "guarded_run (step_ok list_lib) (gallery_step list_lib) sample_ops (enable_smpc (Gallery_new (39 / 100) (32 / 100)), sample_manager)"
  by (simp add: sample_ops_def enable_smpc_def Gallery_new_def sample_manager_def SMPCManager_new_def add_succeeds_def
      list_lib_def sample_add_def sample_entry_of_def gallery_add_def Let_def has_value_def)

theorem smpc_equals_plaintext_witness:
  "let g = Gallery_new (39 / 100) (32 / 100); dist = (\<lambda>p ts. Inr (map (sample_dist p) ts))
   in fst (gallery_match list_lib dist 6 (fold (gallery_step list_lib) sample_ops (enable_smpc g, sample_manager))) =
      fst (gallery_match list_lib dist 6 (fold (gallery_step list_lib) sample_ops (g, sample_manager)))"
proof -
  let ?g = "Gallery_new (39 / 100) (32 / 100) :: nat Gallery" and ?dist = "\<lambda>p ts. Inr (map (sample_dist p) ts)"
  obtain gs ms where s: "fold (gallery_step list_lib) sample_ops (enable_smpc ?g, sample_manager) = (gs, ms)" by fastforce
  obtain gp mp where p: "fold (gallery_step list_lib) sample_ops (?g, sample_manager) = (gp, mp)" by fastforce
  have "pointwise ?dist sample_dist" "sm_gallery sample_manager = Some []"
    by (simp_all add: pointwise_def sample_manager_def)
  from smpc_equals_plaintext [OF sample_ordered this _ sample_ops_ok s p] show ?thesis
    unfolding Let_def s p by simp
qed

section \<open>The coordinator\<close>

text \<open>What the engine relies on of the coordinator: it answers a probe with one row per enrolled subject.\<close>

definition ordered_coordinator ::
  "('t, 'o) smpc_lib \<Rightarrow> ('o \<Rightarrow> (string \<times> 't) list) \<Rightarrow> ('t \<Rightarrow> 't \<Rightarrow> double \<times> int) \<Rightarrow> bool" where
  "ordered_coordinator lib content iris_dist \<longleftrightarrow>
     (\<forall>sid t co. content (snd (co_enroll lib sid t co)) =
                   content co @ (if has_value (fst (co_enroll lib sid t co)) then [(sid, t)] else [])) \<and>
     (\<forall>probe co. co_verify lib probe co = Inr (map (\<lambda>(s, t). (s, fst (iris_dist probe t))) (content co)))"

definition coordinated :: "('o \<Rightarrow> (string \<times> 't) list) \<Rightarrow> 't Gallery \<Rightarrow> 'o SMPCManager \<Rightarrow> bool" where
  "coordinated content g m \<longleftrightarrow>
     gal_smpc_manager g \<and> distinct (map ge_template_id (gal_entries g)) \<and> sm_sharded m = None \<and> sm_pipelined m = None \<and>
     (\<exists>co. sm_coordinator m = Some co \<and> content co = map (\<lambda>e. (ge_template_id e, ge_tmpl e)) (gal_entries g))"

lemma health_audit_keep [simp]:
  "sm_coordinator (record_health r m) = sm_coordinator m" "sm_sharded (record_health r m) = sm_sharded m"
  "sm_pipelined (record_health r m) = sm_pipelined m" "sm_coordinator (audited a m) = sm_coordinator m"
  "sm_sharded (audited a m) = sm_sharded m" "sm_pipelined (audited a m) = sm_pipelined m"
  by (simp_all add: record_health_def audited_def split: option.splits prod.splits)

lemma step_coordinated:
  assumes "ordered_coordinator lib content iris_dist" "coordinated content g m" "step_ok lib p (g, m)"
    and "gallery_step lib p (g, m) = (g', m')"
  shows "coordinated content g' m'"
proof (cases p)
  case (Add e)
  obtain co where co: "sm_coordinator m = Some co" "sm_sharded m = None" "sm_pipelined m = None" "gal_smpc_manager g"
    "distinct (map ge_template_id (gal_entries g))" "content co = map (\<lambda>e. (ge_template_id e, ge_tmpl e)) (gal_entries g)"
    using assms(2) by (auto simp: coordinated_def)
  obtain r co' where e: "co_enroll lib (ge_template_id e) (ge_tmpl e) co = (r, co')" by fastforce
  obtain m1 where m1: "enroll_distributed lib (ge_template_id e) (ge_tmpl e) m = (r, m1)"
    and keep: "sm_coordinator m1 = Some co'" "sm_sharded m1 = None" "sm_pipelined m1 = None"
    using co e by (simp add: enroll_distributed_def Let_def)
  have ok: "has_value r" "ge_template_id e \<notin> set (map ge_template_id (gal_entries g))"
    using assms(3) Add m1 co by simp_all
  have "content (snd (co_enroll lib (ge_template_id e) (ge_tmpl e) co)) =
      content co @ (if has_value (fst (co_enroll lib (ge_template_id e) (ge_tmpl e) co)) then [(ge_template_id e, ge_tmpl e)] else [])"
    using assms(1) unfolding ordered_coordinator_def by blast
  then have "content co' = content co @ [(ge_template_id e, ge_tmpl e)]" using e ok(1) by simp
  moreover have "g' = g\<lparr>gal_entries := gal_entries g @ [e]\<rparr>" "m' = m1"
    using assms(4) Add co m1 by (auto simp: gallery_add_def Let_def)
  ultimately show ?thesis using co keep ok by (simp add: coordinated_def)
next
  case (Remove i)
  with assms show ?thesis by (simp add: coordinated_def)
qed

interpretation coordinated_runs: guarded_machine "gallery_step lib" "step_ok lib"
  "\<lambda>(g, m). ordered_coordinator lib content iris_dist \<and> coordinated content g m" for lib content iris_dist
  by unfold_locales (auto intro: step_coordinated)

lemma best_result_first:
  assumes "rs \<noteq> []"
  shows "\<exists>i < length rs. best_result rs None = Some (rs ! i) \<and> (\<forall>x \<in> set rs. snd (rs ! i) \<le> snd x) \<and>
    (\<forall>j < i. snd (rs ! i) < snd (rs ! j))"
  using assms
proof (induction rs rule: rev_induct)
  case (snoc y ys)
  show ?case
  proof (cases "ys = []")
    case False
    from snoc.IH [OF False] obtain i where i: "i < length ys" "best_result ys None = Some (ys ! i)"
      "\<forall>x \<in> set ys. snd (ys ! i) \<le> snd x" "\<forall>j < i. snd (ys ! i) < snd (ys ! j)" by blast
    show ?thesis
    proof (cases "snd y < snd (ys ! i)")
      case True
      have "\<forall>x \<in> set ys. snd y < snd x" using True i(3) by fastforce
      moreover from this have "\<forall>j < length ys. snd y < snd (ys ! j)" by simp
      ultimately show ?thesis using True i(2)
        by (intro exI [of _ "length ys"]) (auto simp: best_result_append nth_append)
    next
      case False
      with i show ?thesis by (intro exI [of _ i]) (auto simp: best_result_append nth_append)
    qed
  qed simp
qed simp

lemma find_at:
  assumes "distinct (map ge_template_id es)" "i < length es"
  shows "find (\<lambda>e. ge_template_id e = ge_template_id (es ! i)) es = Some (es ! i)"
  using assms by (auto simp: find_Some_iff distinct_conv_nth intro!: exI [of _ i])

lemma coordinated_find:
  assumes "ordered_coordinator lib content iris_dist" "coordinated content g m" "gal_entries g \<noteq> []"
  shows "\<exists>i < length (gal_entries g). \<exists>m'.
    find_best_match lib matcher probe t g m =
      (let e = gal_entries g ! i; d = fst (iris_dist probe (ge_tmpl e)) in
       Some \<lparr>gm_hamming_distance = d, gm_is_match = (d < t), gm_best_rotation = 0, gm_matched_identity_id = ge_identity_id e,
         gm_matched_identity_name = ge_identity_name e, gm_matched_template_id = ge_template_id e\<rparr>, m') \<and>
    (\<forall>e \<in> set (gal_entries g). fst (iris_dist probe (ge_tmpl (gal_entries g ! i))) \<le> fst (iris_dist probe (ge_tmpl e))) \<and>
    (\<forall>j < i. fst (iris_dist probe (ge_tmpl (gal_entries g ! i))) < fst (iris_dist probe (ge_tmpl (gal_entries g ! j))))"
proof -
  obtain co where co: "sm_coordinator m = Some co" "sm_sharded m = None" "sm_pipelined m = None" "gal_smpc_manager g"
    "distinct (map ge_template_id (gal_entries g))" "content co = map (\<lambda>e. (ge_template_id e, ge_tmpl e)) (gal_entries g)"
    using assms(2) by (auto simp: coordinated_def)
  define rows where "rows = map (\<lambda>e. (ge_template_id e, fst (iris_dist probe (ge_tmpl e)))) (gal_entries g)"
  have "co_verify lib probe co = Inr rows"
    using assms(1) co(6) by (simp add: ordered_coordinator_def rows_def comp_def)
  then obtain m' where v: "verify_distributed lib probe m = (Inr rows, m')"
    using co by (simp add: verify_distributed_def Let_def)
  obtain i where i: "i < length rows" "best_result rows None = Some (rows ! i)" "\<forall>x \<in> set rows. snd (rows ! i) \<le> snd x"
    "\<forall>j < i. snd (rows ! i) < snd (rows ! j)"
    using best_result_first [of rows] assms(3) by (auto simp: rows_def)
  have "find_best_match lib matcher probe t g m =
      (let e = gal_entries g ! i; d = fst (iris_dist probe (ge_tmpl e)) in
       Some \<lparr>gm_hamming_distance = d, gm_is_match = (d < t), gm_best_rotation = 0, gm_matched_identity_id = ge_identity_id e,
         gm_matched_identity_name = ge_identity_name e, gm_matched_template_id = ge_template_id e\<rparr>, m')"
    using assms(3) co(4,5) v i(1,2) find_at [of "gal_entries g" i]
    by (simp add: find_best_match_def find_best_match_coordinator_def rows_def Let_def)
  with i show ?thesis by (intro exI [of _ i] exI [of _ m'] conjI) (auto simp: rows_def)
qed

text \<open>The same decision and, for a match, the same record but for the rotation, which the coordinator does not report.\<close>

definition same_decision :: "GalleryMatch \<Rightarrow> GalleryMatch \<Rightarrow> bool" where
  "same_decision a b \<longleftrightarrow> gm_is_match a = gm_is_match b \<and>
     (gm_is_match b \<longrightarrow> a\<lparr>gm_best_rotation := 0\<rparr> = b\<lparr>gm_best_rotation := 0\<rparr>)"

lemma coordinated_find_equal:
  assumes "ordered_coordinator lib content iris_dist" "coordinated content g m" "pointwise matcher iris_dist" "t \<le> 1"
  shows "rel_option same_decision
    (fst (find_best_match lib matcher probe t g m)) (fst (find_best_match lib matcher probe t (in_clear g) m'))"
proof (cases "gal_entries g = []")
  case False
  define es where "es = gal_entries g"
  define ds where "ds = map (\<lambda>e. fst (iris_dist probe (ge_tmpl e))) es"
  define rs where "rs = map (\<lambda>e. iris_dist probe (ge_tmpl e)) es"
  have len: "length ds = length es" "rs \<noteq> []" "length rs = length es" "map fst rs = ds"
    using False by (simp_all add: ds_def rs_def es_def)
  have plain: "fst (find_best_match lib matcher probe t (in_clear g) m') = Some (match_of es t (best_loop rs 0 (0, 1, 0)))"
  proof -
    from len(2) obtain x xs where "rs = x # xs" by (cases rs) auto
    moreover have "matcher probe (map ge_tmpl (gal_entries g)) = Inr rs"
      using assms(3) by (simp add: pointwise_def rs_def es_def comp_def)
    ultimately show ?thesis using False by (simp add: find_best_match_def in_clear_def es_def del: best_loop.simps)
  qed
  obtain i m2 where i: "i < length es" and f: "find_best_match lib matcher probe t g m =
      (let e = es ! i; d = ds ! i in
       Some \<lparr>gm_hamming_distance = d, gm_is_match = (d < t), gm_best_rotation = 0, gm_matched_identity_id = ge_identity_id e,
         gm_matched_identity_name = ge_identity_name e, gm_matched_template_id = ge_template_id e\<rparr>, m2)"
    and least: "\<forall>d \<in> set ds. ds ! i \<le> d" "\<forall>j < i. ds ! i < ds ! j"
    using coordinated_find [OF assms(1,2) False, of matcher probe t] unfolding Let_def by (auto simp: es_def ds_def)
  obtain k d rot where b: "best_loop rs 0 (0, 1, 0) = (k, d, rot)" by (metis prod_cases3)
  note near = best_loop_nearest [OF b, unfolded len(4)]
  show ?thesis
  proof (cases "ds ! i < 1")
    case True
    then have ex: "\<exists>x \<in> set ds. x < 1" using i len(1) by (metis nth_mem)
    with near have k: "k < length ds" "\<forall>x \<in> set ds. ds ! k \<le> x" "\<forall>j < k. ds ! k < ds ! j" "rs ! k = (d, rot)"
      by (auto simp: nearest_def)
    have "k = i"
    proof (rule linorder_cases)
      assume "k < i"
      then have "ds ! i < ds ! k" using least(2) by simp
      moreover have "ds ! k \<le> ds ! i" using k(2) i len(1) by simp
      ultimately show ?thesis by simp
    next
      assume "i < k"
      then have "ds ! k < ds ! i" using k(3) by simp
      moreover have "ds ! i \<le> ds ! k" using least(1) k(1) by simp
      ultimately show ?thesis by simp
    qed
    moreover have "ds ! k = d" using k(1,4) len by (metis fst_conv length_map nth_map)
    ultimately show ?thesis by (simp add: plain f b match_of_def same_decision_def Let_def)
  next
    case False
    then have none: "\<not> (\<exists>x \<in> set ds. x < 1)" using least(1) by (meson dual_order.trans not_less)
    with near have "d = 1" by auto
    with False assms(4) show ?thesis by (simp add: plain f b match_of_def same_decision_def Let_def)
  qed
qed (simp add: find_best_match_def in_clear_def)

lemma duplicate_of_decision:
  assumes "rel_option same_decision (fst (find_best_match lib matcher probe (gal_dedup_threshold g) g m))
    (fst (find_best_match lib matcher probe (gal_dedup_threshold g') g' m'))"
  shows "fst (check_duplicate lib matcher probe (g, m)) = fst (check_duplicate lib matcher probe (g', m'))"
proof -
  have id: "gm_matched_identity_id a = gm_matched_identity_id b \<and> gm_matched_identity_name a = gm_matched_identity_name b"
    if "a\<lparr>gm_best_rotation := 0\<rparr> = b\<lparr>gm_best_rotation := 0\<rparr>" for a b :: GalleryMatch
    using that by (cases a; cases b) simp
  show ?thesis using assms
    by (cases rule: option.rel_cases)
      (auto simp: check_duplicate_def same_decision_def split: prod.splits option.splits dest!: id)
qed


definition sample_coordinated :: "(string \<times> nat) list SMPCManager" where
  "sample_coordinated = SMPCManager_new\<lparr>sm_coordinator := Some []\<rparr>"

definition sample_additions :: "nat gallery_op list" where
  "sample_additions = [Add (sample_entry_of ''ann'' 5), Add (sample_entry_of ''bob'' 6)]"

lemma sample_additions_ok:
  "guarded_run (step_ok list_lib) (gallery_step list_lib) sample_additions (enable_smpc_distributed (Gallery_new (39 / 100) (32 / 100)), sample_coordinated)"
  by (simp add: sample_additions_def enable_smpc_distributed_def Gallery_new_def sample_coordinated_def SMPCManager_new_def
      enroll_distributed_def record_health_def audited_def
      list_lib_def sample_add_def sample_entry_of_def gallery_add_def Let_def has_value_def)


end
