(* ===== verification/Secure_Memory.thy ===== *)
theory Secure_Memory
  imports EyeD_Prelude
begin

text \<open>
  The helpers for secrets in memory (\<^verbatim>\<open>iris-engine2/src/secure_memory.h\<close>). Memory is a function
  from addresses to bytes together with the pages that are locked and the pages that are left
  out of core dumps. The calls \<^verbatim>\<open>mlock\<close>, \<^verbatim>\<open>munlock\<close> and \<^verbatim>\<open>madvise\<close> follow their documentation:
  they act on whole pages, locks do not nest, \<^verbatim>\<open>madvise\<close> rejects an address that is not the start
  of a page. Whether \<^verbatim>\<open>mlock\<close> succeeds, and what it has locked when it fails, is a parameter. The
  allocator is seen through the addresses it returns; a freed block keeps its bytes.
\<close>

section \<open>Memory and the kernel's calls\<close>

record memory =
  m_bytes :: "nat \<Rightarrow> byte"
  m_locked :: "nat set"
  m_nodump :: "nat set"

record kernel =
  page_size :: nat
  mlock_ok :: "nat \<Rightarrow> nat \<Rightarrow> bool"
  mlock_part :: "nat \<Rightarrow> nat \<Rightarrow> nat set"

definition region :: "nat \<Rightarrow> nat \<Rightarrow> nat set" where
  "region p n = {p..<p + n}"

definition pages :: "kernel \<Rightarrow> nat \<Rightarrow> nat \<Rightarrow> nat set" where
  "pages sys p n = (\<lambda>a. a div page_size sys) ` region p n"

definition fill_zero :: "nat \<Rightarrow> nat \<Rightarrow> memory \<Rightarrow> memory" where
  "fill_zero p n m = m\<lparr>m_bytes := (\<lambda>a. if a \<in> region p n then 0 else m_bytes m a)\<rparr>"

definition mlock :: "kernel \<Rightarrow> nat \<Rightarrow> nat \<Rightarrow> memory \<Rightarrow> int \<times> memory" where
  "mlock sys p n m =
     (if mlock_ok sys p n then (0, m\<lparr>m_locked := m_locked m \<union> pages sys p n\<rparr>)
      else (- 1, m\<lparr>m_locked := m_locked m \<union> (pages sys p n \<inter> mlock_part sys p n)\<rparr>))"

definition munlock :: "kernel \<Rightarrow> nat \<Rightarrow> nat \<Rightarrow> memory \<Rightarrow> memory" where
  "munlock sys p n m = m\<lparr>m_locked := m_locked m - pages sys p n\<rparr>"

definition madvise_dontdump :: "kernel \<Rightarrow> nat \<Rightarrow> nat \<Rightarrow> memory \<Rightarrow> memory" where
  "madvise_dontdump sys p n m =
     (if p mod page_size sys \<noteq> 0 then m else m\<lparr>m_nodump := m_nodump m \<union> pages sys p n\<rparr>)"

section \<open>The helpers\<close>

definition wipe :: "nat \<Rightarrow> nat \<Rightarrow> memory \<Rightarrow> memory" where
  "wipe p len m = (if p = 0 \<or> len = 0 then m else fill_zero p len m)"

record cvector =
  v_data :: nat
  v_size :: nat
  v_capacity :: nat

definition cvector_empty :: cvector where
  "cvector_empty = \<lparr>v_data = 0, v_size = 0, v_capacity = 0\<rparr>"

text \<open>
  \<open>sz\<close> is \<^verbatim>\<open>sizeof(T)\<close>. After \<^verbatim>\<open>clear\<close> and \<^verbatim>\<open>shrink_to_fit\<close> the vector holds no storage and the block is
  returned to the allocator.
\<close>

definition wipe_vector :: "nat \<Rightarrow> cvector \<Rightarrow> memory \<Rightarrow> cvector \<times> memory" where
  "wipe_vector sz v m = (cvector_empty, if v_size v \<noteq> 0 then wipe (v_data v) (v_size v * sz) m else m)"

definition lock_memory :: "kernel \<Rightarrow> nat \<Rightarrow> nat \<Rightarrow> memory \<Rightarrow> bool \<times> memory" where
  "lock_memory sys p len m = (let (r, m) = mlock sys p len m in (r = 0, m))"

definition unlock_memory :: "kernel \<Rightarrow> nat \<Rightarrow> nat \<Rightarrow> memory \<Rightarrow> memory" where
  "unlock_memory sys p len m = munlock sys p len m"

definition no_coredump :: "kernel \<Rightarrow> nat \<Rightarrow> nat \<Rightarrow> memory \<Rightarrow> memory" where
  "no_coredump sys p len m = madvise_dontdump sys p len m"

section \<open>Locked buffers\<close>

text \<open>The vector of a buffer is never resized, so the buffer is its address and its size.\<close>

record LockedBuffer =
  lb_data :: nat
  lb_size :: nat

definition moved_from :: LockedBuffer where
  "moved_from = \<lparr>lb_data = 0, lb_size = 0\<rparr>"

text \<open>
  The constructor: \<open>blk\<close> is the allocator's answer, \<open>None\<close> being \<^verbatim>\<open>bad_alloc\<close>, which leaves the
  constructor. No block is allocated for size 0.
\<close>

definition LockedBuffer_new :: "kernel \<Rightarrow> nat option \<Rightarrow> nat \<Rightarrow> memory \<Rightarrow> (LockedBuffer \<times> memory) option" where
  "LockedBuffer_new sys blk n m =
     (if n = 0 then Some (moved_from, m)
      else case blk of
          None \<Rightarrow> None
        | Some p \<Rightarrow>
            (let m = fill_zero p n m;
                 (_, m) = lock_memory sys p n m;
                 m = no_coredump sys p n m
             in Some (\<lparr>lb_data = p, lb_size = n\<rparr>, m)))"

definition LockedBuffer_delete :: "kernel \<Rightarrow> LockedBuffer \<Rightarrow> memory \<Rightarrow> memory" where
  "LockedBuffer_delete sys b m =
     (if lb_size b = 0 then m
      else unlock_memory sys (lb_data b) (lb_size b) (wipe (lb_data b) (lb_size b) m))"

text \<open>The defaulted moves: the new owner and what the source is left with. Assignment frees the target's block.\<close>

definition LockedBuffer_move :: "LockedBuffer \<Rightarrow> LockedBuffer \<times> LockedBuffer" where
  "LockedBuffer_move src = (src, moved_from)"

definition LockedBuffer_move_assign :: "LockedBuffer \<Rightarrow> LockedBuffer \<Rightarrow> memory \<Rightarrow> LockedBuffer \<times> LockedBuffer \<times> memory" where
  "LockedBuffer_move_assign target src m = (src, moved_from, m)"

section \<open>Programs over locked buffers\<close>

record heap =
  hp_mem :: memory
  hp_live :: "nat \<rightharpoonup> LockedBuffer"

datatype buffer_op =
    Construct nat nat "nat option"
  | Store nat nat byte
  | MoveConstruct nat nat
  | MoveAssign nat nat
  | Destroy nat

fun buffer_step :: "kernel \<Rightarrow> buffer_op \<Rightarrow> heap \<Rightarrow> heap" where
  "buffer_step sys (Construct i n blk) h =
     (case LockedBuffer_new sys blk n (hp_mem h) of
        None \<Rightarrow> h
      | Some (b, m) \<Rightarrow> h\<lparr>hp_mem := m, hp_live := (hp_live h)(i \<mapsto> b)\<rparr>)"
| "buffer_step sys (Store i k v) h =
     (case hp_live h i of
        None \<Rightarrow> h
      | Some b \<Rightarrow> h\<lparr>hp_mem := (hp_mem h)\<lparr>m_bytes := (m_bytes (hp_mem h))(lb_data b + k := v)\<rparr>\<rparr>)"
| "buffer_step sys (MoveConstruct i j) h =
     (case hp_live h j of
        None \<Rightarrow> h
      | Some b \<Rightarrow> (let (new, old) = LockedBuffer_move b in h\<lparr>hp_live := (hp_live h)(i \<mapsto> new, j \<mapsto> old)\<rparr>))"
| "buffer_step sys (MoveAssign i j) h =
     (case (hp_live h i, hp_live h j) of
        (Some t, Some b) \<Rightarrow>
          (let (new, old, m) = LockedBuffer_move_assign t b (hp_mem h)
           in h\<lparr>hp_mem := m, hp_live := (hp_live h)(i \<mapsto> new, j \<mapsto> old)\<rparr>)
      | _ \<Rightarrow> h)"
| "buffer_step sys (Destroy i) h =
     (case hp_live h i of
        None \<Rightarrow> h
      | Some b \<Rightarrow> h\<lparr>hp_mem := LockedBuffer_delete sys b (hp_mem h), hp_live := (hp_live h)(i := None)\<rparr>)"

text \<open>
  What the language and the allocator give: an object is constructed once, used while it lives,
  stores stay in bounds, and a new block is not null and shares no address with a live one.
\<close>

definition live_region :: "heap \<Rightarrow> nat set" where
  "live_region h = (\<Union>b \<in> ran (hp_live h). region (lb_data b) (lb_size b))"

definition live_pages :: "kernel \<Rightarrow> heap \<Rightarrow> nat set" where
  "live_pages sys h = (\<Union>b \<in> ran (hp_live h). pages sys (lb_data b) (lb_size b))"

fun op_legal :: "buffer_op \<Rightarrow> heap \<Rightarrow> bool" where
  "op_legal (Construct i n blk) h =
     (hp_live h i = None \<and> (case blk of None \<Rightarrow> True | Some p \<Rightarrow> p \<noteq> 0 \<and> region p n \<inter> live_region h = {}))"
| "op_legal (Store i k v) h = (case hp_live h i of None \<Rightarrow> False | Some b \<Rightarrow> k < lb_size b)"
| "op_legal (MoveConstruct i j) h = (hp_live h i = None \<and> hp_live h j \<noteq> None)"
| "op_legal (MoveAssign i j) h = (i \<noteq> j \<and> hp_live h i \<noteq> None \<and> hp_live h j \<noteq> None)"
| "op_legal (Destroy i) h = (hp_live h i \<noteq> None)"

fun no_assign :: "buffer_op \<Rightarrow> bool" where
  "no_assign (MoveAssign i j) = False"
| "no_assign _ = True"

definition empty_heap :: heap where
  "empty_heap = \<lparr>hp_mem = \<lparr>m_bytes = (\<lambda>_. 0), m_locked = {}, m_nodump = {}\<rparr>, hp_live = Map.empty\<rparr>"

section \<open>The helpers, exactly\<close>

lemma region_zero [simp]: "region p 0 = {}" "pages sys p 0 = {}"
  by (simp_all add: region_def pages_def)

lemma fill_zero_keeps [simp]:
  "m_locked (fill_zero p n m) = m_locked m" "m_nodump (fill_zero p n m) = m_nodump m"
  "m_bytes (fill_zero p n m) a = (if a \<in> region p n then 0 else m_bytes m a)"
  by (simp_all add: fill_zero_def)

lemma wipe_vector_exact:
  assumes "v_data v \<noteq> 0"
  shows "m_bytes (snd (wipe_vector sz v m)) a =
    (if a \<in> region (v_data v) (v_size v * sz) then 0 else m_bytes m a)"
  using assms by (auto simp: wipe_vector_def wipe_def)

lemma delete_effect [simp]:
  assumes "lb_size b \<noteq> 0 \<Longrightarrow> lb_data b \<noteq> 0"
  shows "m_bytes (LockedBuffer_delete sys b m) a = (if a \<in> region (lb_data b) (lb_size b) then 0 else m_bytes m a)"
    and "m_locked (LockedBuffer_delete sys b m) = m_locked m - pages sys (lb_data b) (lb_size b)"
    and "m_nodump (LockedBuffer_delete sys b m) = m_nodump m"
  using assms by (auto simp: LockedBuffer_delete_def wipe_def unlock_memory_def munlock_def)

text \<open>What a constructor that returns has done.\<close>

definition locks :: "kernel \<Rightarrow> nat \<Rightarrow> nat \<Rightarrow> nat set" where
  "locks sys p n = (if mlock_ok sys p n then pages sys p n else pages sys p n \<inter> mlock_part sys p n)"

lemma new_effect:
  assumes "LockedBuffer_new sys blk n m = Some (b, m')"
  shows "lb_size b = n" "n \<noteq> 0 \<Longrightarrow> blk = Some (lb_data b)"
    and "m_bytes m' = (\<lambda>a. if a \<in> region (lb_data b) n then 0 else m_bytes m a)"
    and "m_locked m' = m_locked m \<union> locks sys (lb_data b) n"
    and "m_nodump m' = m_nodump m \<union> (if lb_data b mod page_size sys = 0 then pages sys (lb_data b) n else {})"
  using assms
  by (auto simp: LockedBuffer_new_def moved_from_def lock_memory_def mlock_def no_coredump_def madvise_dontdump_def locks_def
      fill_zero_def Let_def split: if_splits option.splits)

lemma new_outcome:
  "LockedBuffer_new sys blk n m = None \<longleftrightarrow> n \<noteq> 0 \<and> blk = None"
  by (auto simp: LockedBuffer_new_def Let_def split: option.splits prod.splits)

lemma moved_from_region [simp]:
  "region (lb_data moved_from) (lb_size moved_from) = {}" "pages sys (lb_data moved_from) (lb_size moved_from) = {}"
  by (simp_all add: moved_from_def)

text \<open>What the live buffers cover, as buffers come, go and move.\<close>

lemma union_new: "f i = None \<Longrightarrow> (\<Union>b \<in> ran (f(i \<mapsto> c)). F b) = F c \<union> (\<Union>b \<in> ran f. F b)"
  by simp

lemma union_end:
  assumes "f i = Some c"
  shows "(\<Union>b \<in> ran f. F b) = F c \<union> (\<Union>b \<in> ran (f(i := None)). F b)"
proof -
  have "ran f = insert c (ran (f(i := None)))" using assms
    by (auto simp: ran_def) (metis option.inject)
  then show ?thesis by simp
qed

lemma union_move:
  assumes "f i = None" "f j = Some c" "F d = {}"
  shows "(\<Union>b \<in> ran (f(i \<mapsto> c, j \<mapsto> d)). F b) = (\<Union>b \<in> ran f. F b)"
proof -
  have "i \<noteq> j" using assms by auto
  then have "f(i \<mapsto> c, j \<mapsto> d) = (f(j := None))(i \<mapsto> c, j \<mapsto> d)" "(f(j := None)) i = None" "((f(j := None))(i \<mapsto> c)) j = None"
    using assms(1) by auto
  then have "ran (f(i \<mapsto> c, j \<mapsto> d)) = insert d (insert c (ran (f(j := None))))"
    by (metis ran_map_upd)
  with assms(3) union_end [of f j c F] assms(2) show ?thesis by simp
qed

section \<open>Secrets do not outlive their buffer\<close>

definition owned :: "heap \<Rightarrow> bool" where
  "owned h \<longleftrightarrow> (\<forall>b \<in> ran (hp_live h). lb_size b \<noteq> 0 \<longrightarrow> lb_data b \<noteq> 0)"

text \<open>An observer who sees everything but the live buffers.\<close>

definition indistinguishable :: "heap \<Rightarrow> heap \<Rightarrow> bool" where
  "indistinguishable h h' \<longleftrightarrow> hp_live h = hp_live h' \<and> m_locked (hp_mem h) = m_locked (hp_mem h') \<and>
     m_nodump (hp_mem h) = m_nodump (hp_mem h') \<and>
     (\<forall>a. a \<notin> live_region h \<longrightarrow> m_bytes (hp_mem h) a = m_bytes (hp_mem h') a)"

text \<open>The operation with the stored value hidden.\<close>

fun public :: "buffer_op \<Rightarrow> buffer_op" where
  "public (Store i k v) = Store i k 0"
| "public p = p"

lemma op_legal_public: "public p = public q \<Longrightarrow> op_legal p h = op_legal q h"
  by (cases p; cases q) auto

lemma owned_step:
  assumes "owned h" "op_legal p h"
  shows "owned (buffer_step sys p h)"
proof (cases p)
  case (Construct i n blk)
  show ?thesis
  proof (cases "LockedBuffer_new sys blk n (hp_mem h)")
    case (Some r)
    obtain b m where r: "r = (b, m)" by fastforce
    have "lb_size b \<noteq> 0 \<longrightarrow> lb_data b \<noteq> 0"
      using new_effect(1,2) [OF Some [unfolded r]] assms(2) Construct by auto
    with Some r Construct assms show ?thesis by (auto simp: owned_def ran_def)
  qed (use Construct assms in simp)
qed (use assms in \<open>auto simp: owned_def ran_def moved_from_def LockedBuffer_move_def LockedBuffer_move_assign_def
       split: option.splits if_splits\<close>)

lemma indistinguishable_step:
  assumes "indistinguishable h h'" "owned h" "owned h'" "op_legal p h" "no_assign p" "public p = public q"
  shows "indistinguishable (buffer_step sys p h) (buffer_step sys q h')"
proof -
  have eq: "hp_live h' = hp_live h" "m_locked (hp_mem h') = m_locked (hp_mem h)" "m_nodump (hp_mem h') = m_nodump (hp_mem h)"
    and out: "a \<notin> live_region h \<Longrightarrow> m_bytes (hp_mem h') a = m_bytes (hp_mem h) a" for a
    using assms(1) by (auto simp: indistinguishable_def)
  show ?thesis
  proof (cases p)
    case (Construct i n blk)
    then have q: "q = Construct i n blk" using assms(6) by (cases q) auto
    show ?thesis
    proof (cases "n \<noteq> 0 \<and> blk = None")
      case False
      obtain b m where b: "LockedBuffer_new sys blk n (hp_mem h) = Some (b, m)"
        using new_outcome [of sys blk n "hp_mem h"] False by fastforce
      obtain b' m' where b': "LockedBuffer_new sys blk n (hp_mem h') = Some (b', m')"
        using new_outcome [of sys blk n "hp_mem h'"] False by fastforce
      have "b' = b" using b b' by (auto simp: LockedBuffer_new_def Let_def split: if_splits option.splits prod.splits)
      with new_effect [OF b] new_effect [OF b'] b b' Construct q eq out assms(4) show ?thesis
        by (auto simp: indistinguishable_def live_region_def)
    qed (use Construct q assms(1) in \<open>simp add: LockedBuffer_new_def\<close>)
  next
    case (Destroy i)
    then have q: "q = Destroy i" using assms(6) by (cases q) auto
    obtain b where b: "hp_live h i = Some b" using assms(4) Destroy by auto
    have nz: "lb_size b \<noteq> 0 \<Longrightarrow> lb_data b \<noteq> 0" using assms(2) b by (auto simp: owned_def ran_def)
    have "live_region h = region (lb_data b) (lb_size b) \<union> live_region (h\<lparr>hp_live := (hp_live h)(i := None)\<rparr>)"
      unfolding live_region_def using union_end [of "hp_live h" i b] b by simp
    with b eq out nz Destroy q show ?thesis by (auto simp: indistinguishable_def live_region_def)
  next
    case (MoveConstruct i j)
    then have q: "q = MoveConstruct i j" using assms(6) by (cases q) auto
    obtain b where b: "hp_live h j = Some b" "hp_live h i = None" using assms(4) MoveConstruct by auto
    with MoveConstruct q eq out union_move [of "hp_live h" i j b "\<lambda>b. region (lb_data b) (lb_size b)" moved_from] show ?thesis
      by (auto simp: indistinguishable_def live_region_def LockedBuffer_move_def)
  next
    case (Store i k v)
    then obtain v' where q: "q = Store i k v'" using assms(6) by (cases q) auto
    obtain b where b: "hp_live h i = Some b" "k < lb_size b" using assms(4) Store by (auto split: option.splits)
    then have "lb_data b + k \<in> live_region h" by (auto simp: live_region_def region_def ran_def)
    with Store q b eq out show ?thesis by (auto simp: indistinguishable_def live_region_def)
  qed (use assms in simp)
qed


definition sample_kernel :: kernel where
  "sample_kernel = \<lparr>page_size = 4096, mlock_ok = (\<lambda>p n. True), mlock_part = (\<lambda>p n. {})\<rparr>"

definition sample_run :: "byte \<Rightarrow> buffer_op list" where
  "sample_run v = [Construct 0 2 (Some 8208), Store 0 1 v, MoveConstruct 1 0, Destroy 0, Destroy 1]"

lemmas buffer_defs = LockedBuffer_new_def LockedBuffer_delete_def LockedBuffer_move_def LockedBuffer_move_assign_def
  lock_memory_def unlock_memory_def no_coredump_def mlock_def munlock_def madvise_dontdump_def wipe_def fill_zero_def
  moved_from_def empty_heap_def sample_kernel_def region_def pages_def live_region_def live_pages_def


section \<open>Locks\<close>

text \<open>As above, and a new block shares no page with a live buffer and can be locked.\<close>

fun page_legal :: "kernel \<Rightarrow> buffer_op \<Rightarrow> heap \<Rightarrow> bool" where
  "page_legal sys (Construct i n (Some p)) h = (mlock_ok sys p n \<and> pages sys p n \<inter> live_pages sys h = {})"
| "page_legal sys (MoveAssign i j) h = False"
| "page_legal sys _ h = True"

definition apart :: "kernel \<Rightarrow> heap \<Rightarrow> bool" where
  "apart sys h \<longleftrightarrow> owned h \<and> m_locked (hp_mem h) = live_pages sys h \<and>
     (\<forall>i j b c. hp_live h i = Some b \<longrightarrow> hp_live h j = Some c \<longrightarrow> i \<noteq> j \<longrightarrow>
        pages sys (lb_data b) (lb_size b) \<inter> pages sys (lb_data c) (lb_size c) = {})"

lemma apart_step:
  assumes "apart sys h" "op_legal p h" "page_legal sys p h"
  shows "apart sys (buffer_step sys p h)"
proof -
  have lock: "m_locked (hp_mem h) = live_pages sys h" and own: "owned h"
    and dis: "\<And>i j b c. hp_live h i = Some b \<Longrightarrow> hp_live h j = Some c \<Longrightarrow> i \<noteq> j \<Longrightarrow>
        pages sys (lb_data b) (lb_size b) \<inter> pages sys (lb_data c) (lb_size c) = {}"
    using assms(1) by (auto simp: apart_def)
  note own' = owned_step [OF own assms(2), of sys]
  show ?thesis
  proof (cases p)
    case (Construct i n blk)
    show ?thesis
    proof (cases "LockedBuffer_new sys blk n (hp_mem h)")
      case (Some r)
      obtain b m where r: "r = (b, m)" by fastforce
      note new = new_effect [OF Some [unfolded r]]
      have free: "pages sys (lb_data b) n \<inter> live_pages sys h = {}" and ok: "locks sys (lb_data b) n = pages sys (lb_data b) n"
        using assms(3) new(2) Construct by (cases "n = 0"; auto simp: locks_def)+
      then have far: "pages sys (lb_data b) n \<inter> pages sys (lb_data c) (lb_size c) = {}" 
          "pages sys (lb_data c) (lb_size c) \<inter> pages sys (lb_data b) n = {}" if "hp_live h j = Some c" for j c
        using that by (auto simp: live_pages_def ran_def)
      have "hp_live h i = None" using assms(2) Construct by simp
      with own' Some r new(1,4) lock ok far dis Construct show ?thesis
        by (auto simp: apart_def live_pages_def)
    qed (use Construct assms(1) in simp)
  next
    case (Destroy i)
    obtain b where b: "hp_live h i = Some b" using assms(2) Destroy by auto
    have nz: "lb_size b \<noteq> 0 \<Longrightarrow> lb_data b \<noteq> 0" using own b by (auto simp: owned_def ran_def)
    have "live_pages sys h = pages sys (lb_data b) (lb_size b) \<union> live_pages sys (h\<lparr>hp_live := (hp_live h)(i := None)\<rparr>)"
      unfolding live_pages_def using union_end [of "hp_live h" i b] b by simp
    moreover have "pages sys (lb_data b) (lb_size b) \<inter> live_pages sys (h\<lparr>hp_live := (hp_live h)(i := None)\<rparr>) = {}"
      using dis [OF b] by (fastforce simp: live_pages_def ran_def split: if_splits)
    ultimately have "m_locked (hp_mem h) - pages sys (lb_data b) (lb_size b) = live_pages sys (h\<lparr>hp_live := (hp_live h)(i := None)\<rparr>)"
      using lock by blast
    with own' b dis nz Destroy show ?thesis by (simp add: apart_def live_pages_def)
  next
    case (MoveConstruct i j)
    obtain b where b: "hp_live h j = Some b" "hp_live h i = None" using assms(2) MoveConstruct by auto
    have "live_pages sys (h\<lparr>hp_live := (hp_live h)(i \<mapsto> b, j \<mapsto> moved_from)\<rparr>) = live_pages sys h"
      using union_move [of "hp_live h" i j b "\<lambda>b. pages sys (lb_data b) (lb_size b)" moved_from] b by (simp add: live_pages_def)
    with own' b dis lock MoveConstruct show ?thesis
      by (auto simp: apart_def LockedBuffer_move_def live_pages_def)
  next
    case (Store i k v)
    with own' dis lock show ?thesis by (auto simp: apart_def live_pages_def split: option.splits)
  qed (use assms in simp)
qed

interpretation buffer_pages: guarded_machine "buffer_step sys" "\<lambda>p h. op_legal p h \<and> page_legal sys p h" "apart sys" for sys
  by unfold_locales (auto intro: apart_step)

text \<open>
  The locked pages are exactly the pages of the live buffers, after every run of
  constructions, stores, moves into new buffers and destructions in which locking succeeds
  and no two live buffers share a page: a buffer stays locked until its owner is destroyed,
  moving it keeps the lock, and no lock is left behind.
\<close>

theorem locked_pages_exact:
  assumes "guarded_run (\<lambda>p h. op_legal p h \<and> page_legal sys p h) (buffer_step sys) ps empty_heap"
  shows "m_locked (hp_mem (fold (buffer_step sys) ps empty_heap)) = live_pages sys (fold (buffer_step sys) ps empty_heap)"
proof -
  have "apart sys empty_heap" by (simp add: apart_def owned_def empty_heap_def live_pages_def)
  from buffer_pages.guarded_keeps [OF this assms] show ?thesis by (simp add: apart_def)
qed

theorem locked_pages_exact_witness:
  "m_locked (hp_mem (fold (buffer_step sample_kernel) [Construct 0 2 (Some 8208), Construct 1 4 (Some 4096), Destroy 1] empty_heap)) = {2}"
proof -
  have "guarded_run (\<lambda>p h. op_legal p h \<and> page_legal sample_kernel p h) (buffer_step sample_kernel)
      [Construct 0 2 (Some 8208), Construct 1 4 (Some 4096), Destroy 1] empty_heap"
    by (simp add: buffer_defs) auto
  note locked_pages_exact [OF this]
  moreover have "live_pages sample_kernel
      (fold (buffer_step sample_kernel) [Construct 0 2 (Some 8208), Construct 1 4 (Some 4096), Destroy 1] empty_heap) = {2}"
  proof -
    have "{8208..<8210} = {8208, 8209 :: nat}" by auto
    then show ?thesis by (simp add: buffer_defs)
  qed
  ultimately show ?thesis by simp
qed

section \<open>What the guard does not give\<close>

text \<open>
  Locks do not nest: destroying a buffer unlocks the pages it shares with a buffer that is still
  live. Blocks of the allocator are not aligned to pages, so small buffers share them.
\<close>

lemma destroy_unlocks_neighbour:
  assumes "m_locked (hp_mem h) \<supseteq> pages sys (lb_data b) (lb_size b) \<union> pages sys (lb_data c) (lb_size c)"
    and "hp_live h i = Some b" "hp_live h j = Some c" "i \<noteq> j" "owned h"
    and "x \<in> pages sys (lb_data b) (lb_size b) \<inter> pages sys (lb_data c) (lb_size c)"
  shows "hp_live (buffer_step sys (Destroy i) h) j = Some c \<and> x \<notin> m_locked (hp_mem (buffer_step sys (Destroy i) h))"
proof -
  have "lb_size b \<noteq> 0 \<Longrightarrow> lb_data b \<noteq> 0" using assms(2,5) by (auto simp: owned_def ran_def)
  with assms show ?thesis by simp
qed

text \<open>
  Move assignment frees the block of its target as it is: what the target held stays in memory
  and its pages stay locked, also when every buffer is destroyed.
\<close>

lemma move_assign_leaves_secret:
  assumes "region p n \<inter> region q n = {}" "pages sys p n \<inter> pages sys q n = {}" "p \<noteq> 0" "q \<noteq> 0" "0 < n" "mlock_ok sys p n"
    and "h = fold (buffer_step sys) [Construct 0 n (Some p), Store 0 0 v, Construct 1 n (Some q), MoveAssign 0 1, Destroy 1, Destroy 0] empty_heap"
  shows "hp_live h = Map.empty \<and> m_bytes (hp_mem h) p = v \<and> pages sys p n \<subseteq> m_locked (hp_mem h)"
proof -
  have "p \<in> region p n" using assms(5) by (simp add: region_def)
  then have "p \<notin> region q n" using assms(1) by blast
  with assms(2-6) show ?thesis unfolding assms(7)
    by (auto simp: LockedBuffer_new_def LockedBuffer_delete_def LockedBuffer_move_assign_def lock_memory_def unlock_memory_def
        no_coredump_def mlock_def munlock_def madvise_dontdump_def wipe_def fill_zero_def moved_from_def empty_heap_def Let_def)
qed

text \<open>The request to leave the buffer out of core dumps is effective only at the start of a page.\<close>

lemma dump_protection_needs_alignment:
  assumes "LockedBuffer_new sys blk n m = Some (b, m')" "n \<noteq> 0" "pages sys (lb_data b) n \<inter> m_nodump m = {}"
  shows "pages sys (lb_data b) n \<subseteq> m_nodump m' \<longleftrightarrow> page_size sys dvd lb_data b"
proof -
  have "pages sys (lb_data b) n \<noteq> {}" using assms(2) by (auto simp: pages_def region_def)
  with new_effect(5) [OF assms(1)] assms(3) show ?thesis by (auto simp: mod_eq_0_iff_dvd)
qed

text \<open>A vector is wiped up to its size: bytes between size and capacity stay as they were.\<close>

lemma wipe_vector_leaves_slack:
  assumes "v_data v \<noteq> 0" "v_size v * sz \<le> k"
  shows "m_bytes (snd (wipe_vector sz v m)) (v_data v + k) = m_bytes m (v_data v + k)"
  using assms by (simp add: wipe_vector_exact region_def)

end
