(* ===== verification/Webcam_Relay.thy ===== *)
theory Webcam_Relay
  imports Texts
begin

text \<open>
  The webcam relay (\<^verbatim>\<open>tools/webcam-relay.cpp\<close>), the development tool that serves a host camera as
  a multipart JPEG stream: its arguments, start-up, accept loop and the service of one client.
  The system calls' results and the frames that OpenCV reads and encodes are parameters.
\<close>

section \<open>Serving a client\<close>

definition crlf :: string where
  "crlf = [CHR 0x0D, CHR 0x0A]"

text \<open>
  The socket: what was written so far and how often \<^verbatim>\<open>send\<close> was called. A call returns a
  negative number or the number of bytes it took; the code only tests the sign.
\<close>

record client_socket =
  sent :: bytes
  send_calls :: nat

type_synonym send_results = "nat \<Rightarrow> bytes \<Rightarrow> int"

definition send_data :: "send_results \<Rightarrow> bytes \<Rightarrow> client_socket \<Rightarrow> bool \<times> client_socket" where
  "send_data res d c =
     (let r = res (send_calls c) d; c = c\<lparr>send_calls := send_calls c + 1\<rparr>
      in if r < 0 then (False, c) else (True, c\<lparr>sent := sent c @ take (nat r) d\<rparr>))"

definition not_found_response :: bytes where
  "not_found_response =
     bytes_of_string (''HTTP/1.1 404 Not Found'' @ crlf @ ''Content-Length: 0'' @ crlf @ crlf)"

definition mjpeg_header :: bytes where
  "mjpeg_header = bytes_of_string (''HTTP/1.1 200 OK'' @ crlf @
     ''Content-Type: multipart/x-mixed-replace; boundary=frame'' @ crlf @
     ''Cache-Control: no-cache'' @ crlf @ ''Connection: close'' @ crlf @ crlf)"

definition part_prefix :: string where
  "part_prefix = ''--frame'' @ crlf @ ''Content-Type: image/jpeg'' @ crlf @ ''Content-Length: ''"

text \<open>\<^verbatim>\<open>snprintf\<close> into 128 bytes keeps at most 127 characters; it returns the length it would have needed.\<close>

definition part_header :: "nat \<Rightarrow> bytes" where
  "part_header n = bytes_of_string (take 127 (part_prefix @ to_string n @ crlf @ crlf))"

text \<open>One iteration per element: the flag at the test, and the encoded frame if one was read.\<close>

fun stream_client :: "send_results \<Rightarrow> (bool \<times> bytes option) list \<Rightarrow> client_socket \<Rightarrow> client_socket" where
  "stream_client res [] c = c"
| "stream_client res ((running, frame) # rest) c =
     (if \<not> running then c
      else case frame of
        None \<Rightarrow> c
      | Some jpg \<Rightarrow>
          let (ok, c) = send_data res (part_header (length jpg)) c in
          if \<not> ok then c
          else let (ok, c) = send_data res jpg c in
               if \<not> ok then c
               else let (ok, c) = send_data res (bytes_of_string crlf) c in
                    if \<not> ok then c else stream_client res rest c)"

text \<open>The request is what one \<^verbatim>\<open>recv\<close> returned, at most 1023 bytes, read as a C string.\<close>

definition serve_client ::
  "send_results \<Rightarrow> bytes option \<Rightarrow> (bool \<times> bytes option) list \<Rightarrow> client_socket" where
  "serve_client res received frames =
     (let c = \<lparr>sent = [], send_calls = 0\<rparr> in
      case received of
        None \<Rightarrow> c
      | Some b \<Rightarrow>
          let buf = takeWhile (\<lambda>ch. ch \<noteq> CHR 0x00) (string_of_bytes (take 1023 b)) in
          if find_str ''GET /video'' buf = None then snd (send_data res not_found_response c)
          else let (ok, c) = send_data res mjpeg_header c in
               if \<not> ok then c else stream_client res frames c)"

section \<open>Arguments, start-up and the accept loop\<close>

fun relay_args :: "int \<Rightarrow> int \<Rightarrow> string list \<Rightarrow> int + (int \<times> int)" where
  "relay_args port device [] = Inr (port, device)"
| "relay_args port device (a # rest) =
     (if a = ''--port'' \<and> rest \<noteq> [] then relay_args (atoi (hd rest)) device (tl rest)
      else if a = ''--device'' \<and> rest \<noteq> [] then relay_args port (atoi (hd rest)) (tl rest)
      else if a = ''--help'' \<or> a = ''-h'' then Inl 0
      else Inl 1)"

text \<open>
  One iteration per element: the flag at the loop test, the accepted client if any, and the
  flag when a failed accept is examined. A client is served by a thread of its own.
\<close>

fun accept_loop :: "(bool \<times> 'c option \<times> bool) list \<Rightarrow> 'c list" where
  "accept_loop [] = []"
| "accept_loop ((running, client, running') # rest) =
     (if \<not> running then []
      else case client of
        None \<Rightarrow> if \<not> running' then [] else accept_loop rest
      | Some c \<Rightarrow> c # accept_loop rest)"

record relay_env =
  camera_opens :: "int \<Rightarrow> bool"
  socket_ok :: bool
  bind_ok :: "u16 \<Rightarrow> bool"
  listen_ok :: bool

definition relay_main ::
  "relay_env \<Rightarrow> string list \<Rightarrow> (bool \<times> 'c option \<times> bool) list \<Rightarrow> int \<times> 'c list" where
  "relay_main e args accepts =
     (case relay_args 8090 0 args of
        Inl code \<Rightarrow> (code, [])
      | Inr (port, device) \<Rightarrow>
          if \<not> camera_opens e device then (1, [])
          else if \<not> socket_ok e then (1, [])
          else if \<not> bind_ok e (of_int port) then (1, [])
          else if \<not> listen_ok e then (1, [])
          else (0, accept_loop accepts))"

section \<open>The stream and its reader\<close>

definition stream_part :: "bytes \<Rightarrow> bytes" where
  "stream_part jpg = part_header (length jpg) @ jpg @ bytes_of_string crlf"

text \<open>
  A reader of the stream, as the capture device's video library reads it: the header of a part
  up to its length, that many bytes, and the line end.
\<close>

definition read_part :: "bytes \<Rightarrow> (bytes \<times> bytes) option" where
  "read_part b =
     (if take (length part_prefix) b \<noteq> bytes_of_string part_prefix then None
      else let b = drop (length part_prefix) b;
               ds = takeWhile (\<lambda>x. is_digit (char_of_byte x)) b;
               n = decimal_value (string_of_bytes ds);
               b = drop (length ds) b
           in if ds = [] \<or> take 4 b \<noteq> bytes_of_string (crlf @ crlf) then None
              else let b = drop 4 b in
                   if length b < n + 2 \<or> take 2 (drop n b) \<noteq> bytes_of_string crlf then None
                   else Some (take n b, drop (n + 2) b))"

fun read_stream :: "nat \<Rightarrow> bytes \<Rightarrow> bytes list option" where
  "read_stream 0 b = (if b = [] then Some [] else None)"
| "read_stream (Suc n) b =
     (if b = [] then Some []
      else case read_part b of
             None \<Rightarrow> None
           | Some (jpg, rest) \<Rightarrow> map_option (Cons jpg) (read_stream n rest))"

lemma to_string_length: "n < 10 ^ Suc k \<Longrightarrow> length (to_string n) \<le> Suc k"
proof (induction k arbitrary: n)
  case (Suc k)
  show ?case
  proof (cases "n < 10")
    case False
    have "n div 10 < 10 ^ Suc k" using Suc.prems by (simp add: less_mult_imp_div_less mult.commute)
    from Suc.IH [OF this] False show ?thesis by (subst to_string.simps) simp
  qed (subst to_string.simps, simp)
qed (subst to_string.simps, simp)

text \<open>The header of a part always fits into its buffer.\<close>

lemma part_header_fits:
  assumes "n < 2 ^ 64"
  shows "length (part_prefix @ to_string n @ crlf @ crlf) < 128"
    and "part_header n = bytes_of_string (part_prefix @ to_string n @ crlf @ crlf)"
proof -
  have "n < 10 ^ Suc 19" using assms by simp
  from to_string_length [OF this] have "length (to_string n) \<le> 20" by simp
  then show "length (part_prefix @ to_string n @ crlf @ crlf) < 128"
    by (simp add: part_prefix_def crlf_def)
  then show "part_header n = bytes_of_string (part_prefix @ to_string n @ crlf @ crlf)"
    unfolding part_header_def by (subst take_all) (simp_all del: length_append)
qed

lemma takeWhile_digit_bytes:
  "takeWhile (\<lambda>x. is_digit (char_of_byte x)) (bytes_of_string (to_string n) @ bytes_of_string crlf @ b) =
     bytes_of_string (to_string n)"
proof -
  have "\<forall>x \<in> set (bytes_of_string (to_string n)). is_digit (char_of_byte x)"
    using to_string_digits [of n] by (auto simp: bytes_of_string_def)
  moreover have "\<not> is_digit (char_of_byte (byte_of_char (CHR 0x0D)))"
    by (simp add: is_digit_def)
  ultimately show ?thesis by (simp add: crlf_def bytes_of_string_def takeWhile_tail)
qed

lemma read_part_header:
  assumes "n < 2 ^ 64"
  shows "read_part (part_header n @ b) =
    (if length b < n + 2 \<or> take 2 (drop n b) \<noteq> bytes_of_string crlf then None else Some (take n b, drop (n + 2) b))"
proof -
  have l: "length (bytes_of_string t) = length t" for t by (simp add: bytes_of_string_def)
  have b: "part_header n @ b = bytes_of_string part_prefix @ bytes_of_string (to_string n) @
      bytes_of_string crlf @ bytes_of_string crlf @ b"
    using part_header_fits(2) [OF assms] by (simp add: bytes_of_string_def)
  have c: "length crlf = 2" "bytes_of_string (crlf @ crlf) = bytes_of_string crlf @ bytes_of_string crlf"
    by (simp_all add: crlf_def bytes_of_string_def)
  show ?thesis
    unfolding read_part_def b
    by (simp add: l c takeWhile_digit_bytes Let_def) (simp add: bytes_of_string_def)
qed

lemma read_stream_part:
  "length jpg < 2 ^ 64 \<Longrightarrow> read_part (stream_part jpg @ rest) = Some (jpg, rest)"
  by (simp add: stream_part_def read_part_header) (simp add: crlf_def bytes_of_string_def)

lemma read_stream_parts:
  "\<forall>j \<in> set js. length j < 2 ^ 64 \<Longrightarrow> length js \<le> n \<Longrightarrow> read_stream n (concat (map stream_part js)) = Some js"
proof (induction js arbitrary: n)
  case Nil
  then show ?case by (cases n) simp_all
next
  case (Cons j js)
  have "stream_part j \<noteq> []" by (simp add: stream_part_def crlf_def bytes_of_string_def)
  with Cons read_stream_part [of j "concat (map stream_part js)"] show ?case by (cases n) auto
qed

section \<open>What a client receives\<close>

text \<open>Every call either fails or takes all of its data.\<close>

definition whole_sends :: "send_results \<Rightarrow> bool" where
  "whole_sends res = (\<forall>n d. res n d < 0 \<or> res n d = int (length d))"

lemma send_data_whole:
  assumes "whole_sends res" "send_data res d c = (ok, c')"
  shows "sent c' = sent c @ (if ok then d else [])"
proof -
  have "nat (res (send_calls c) d) = length d" if "\<not> res (send_calls c) d < 0"
    using assms(1) that by (metis nat_int whole_sends_def)
  with assms(2) show ?thesis by (auto simp: send_data_def Let_def split: if_splits)
qed

lemma send_data_ok: "\<forall>n d. 0 \<le> res n d \<Longrightarrow> fst (send_data res d c)"
  by (simp add: send_data_def Let_def not_less)

text \<open>The frames the loop reads: up to the first iteration that ends it.\<close>

definition read_frames :: "(bool \<times> bytes option) list \<Rightarrow> bytes list" where
  "read_frames frames = map (the \<circ> snd) (takeWhile (\<lambda>(running, frame). running \<and> frame \<noteq> None) frames)"

lemma stream_client_out:
  assumes "whole_sends res"
  shows "\<exists>out more. sent (stream_client res frames c) = sent c @ out \<and>
    concat (map stream_part (read_frames frames)) = out @ more \<and> ((\<forall>n d. 0 \<le> res n d) \<longrightarrow> more = [])"
  using assms
proof (induction res frames c rule: stream_client.induct)
  case (2 res running frame rest c)
  show ?case
  proof (cases "running \<and> frame \<noteq> None")
    case True
    then obtain jpg where f: "frame = Some jpg" "running" by auto
    obtain k1 c1 where s1: "send_data res (part_header (length jpg)) c = (k1, c1)" by fastforce
    obtain k2 c2 where s2: "send_data res jpg c1 = (k2, c2)" by fastforce
    obtain k3 c3 where s3: "send_data res (bytes_of_string crlf) c2 = (k3, c3)" by fastforce
    note w = send_data_whole [OF 2(2) s1] send_data_whole [OF 2(2) s2] send_data_whole [OF 2(2) s3]
    have ok: "k1 \<and> k2 \<and> k3" if "\<forall>n d. 0 \<le> res n d"
      using send_data_ok [OF that] s1 s2 s3 by (metis fst_conv)
    have rf: "concat (map stream_part (read_frames ((running, frame) # rest))) =
        stream_part jpg @ concat (map stream_part (read_frames rest))"
      using f by (simp add: read_frames_def)
    have IH: "\<exists>out more. sent (stream_client res rest c3) = sent c3 @ out \<and>
        concat (map stream_part (read_frames rest)) = out @ more \<and> ((\<forall>n d. 0 \<le> res n d) \<longrightarrow> more = [])"
      if "k1" "k2" "k3"
      using that 2(1) [OF _ f(1) s1 [symmetric] refl _ s2 [symmetric] refl _ s3 [symmetric] refl _ 2(2)] f by blast
    have eq: "stream_client res ((running, frame) # rest) c =
        (if \<not> k1 then c1 else if \<not> k2 then c2 else if \<not> k3 then c3 else stream_client res rest c3)"
      using f by (simp add: s1 s2 s3)
    show ?thesis
    proof (cases "k1 \<and> k2 \<and> k3")
      case True
      with IH obtain out more where "sent (stream_client res rest c3) = sent c3 @ out"
        "concat (map stream_part (read_frames rest)) = out @ more" "(\<forall>n d. 0 \<le> res n d) \<longrightarrow> more = []" by blast
      with True w show ?thesis unfolding eq rf
        by (intro exI [of _ "stream_part jpg @ out"] exI [of _ more]) (simp add: stream_part_def)
    next
      case False
      with ok w show ?thesis unfolding eq rf by (auto simp: stream_part_def)
    qed
  next
    case False
    then have "stream_client res ((running, frame) # rest) c = c" "read_frames ((running, frame) # rest) = []"
      by (auto simp: read_frames_def split: option.splits)
    then show ?thesis by simp
  qed
qed (simp add: read_frames_def)

text \<open>
  What a client of the relay receives, as long as a send takes all of its data or fails: after
  the response header a prefix of the parts of the frames read, in order; and when no send
  fails, exactly them, from which a reader recovers the frames.
\<close>

theorem relay_stream_readable:
  assumes "whole_sends res" and "find_str ''GET /video'' (takeWhile (\<lambda>ch. ch \<noteq> CHR 0x00) (string_of_bytes (take 1023 req))) \<noteq> None"
    and "\<forall>j \<in> set (read_frames frames). length j < 2 ^ 64"
    and "sent (serve_client res (Some req) frames) = w"
  shows "(\<exists>more. mjpeg_header @ concat (map stream_part (read_frames frames)) = w @ more) \<and>
    ((\<forall>n d. 0 \<le> res n d) \<longrightarrow> w = mjpeg_header @ drop (length mjpeg_header) w \<and>
       read_stream (length (read_frames frames)) (drop (length mjpeg_header) w) = Some (read_frames frames))"
proof -
  let ?c = "\<lparr>sent = [], send_calls = 0\<rparr>"
  obtain ok c1 where h: "send_data res mjpeg_header ?c = (ok, c1)" by fastforce
  have c1: "sent c1 = (if ok then mjpeg_header else [])" using send_data_whole [OF assms(1) h] by simp
  have all_ok: "ok" if "\<forall>n d. 0 \<le> res n d" using send_data_ok [OF that, of mjpeg_header ?c] h by simp
  have w: "w = sent (if ok then stream_client res frames c1 else c1)"
    using assms(2,4) h by (auto simp: serve_client_def Let_def)
  obtain out more where "sent (stream_client res frames c1) = sent c1 @ out"
    "concat (map stream_part (read_frames frames)) = out @ more" "(\<forall>n d. 0 \<le> res n d) \<longrightarrow> more = []"
    using stream_client_out [OF assms(1), of frames c1] by blast
  with w c1 all_ok read_stream_parts [OF assms(3) order_refl] show ?thesis by (cases ok) auto
qed

text \<open>
  A short send is taken for a complete one, and everything after it is misread: here a send
  takes one of the two bytes of a frame.
\<close>

theorem relay_short_send_breaks_stream:
  "let res = (\<lambda>n d. if n = 2 then 1 else int (length d));
       w = sent (serve_client res (Some (bytes_of_string ''GET /video HTTP/1.1'')) [(True, Some [1, 2])])
   in read_stream 1 (drop (length mjpeg_header) w) = None"
proof -
  have "read_part (part_header 2 @ 1 # bytes_of_string crlf) = None"
    by (subst read_part_header) (simp_all add: crlf_def)
  then show ?thesis
    by (simp add: serve_client_def Let_def find_str.simps send_data_def numeral_2_eq_2 crlf_def bytes_of_string_def
        string_of_bytes_def)
qed

end
