(* ===== verification/Client_Window.thy ===== *)
theory Client_Window
  imports EyeD_Prelude
begin

text \<open>
  The Windows runner of the client (\<^verbatim>\<open>client2/windows/runner\<close>: \<^verbatim>\<open>win32_window.cpp\<close>,
  \<^verbatim>\<open>flutter_window.cpp\<close>, \<^verbatim>\<open>main.cpp\<close>): one window that hosts the Flutter view, its messages, and its
  destruction, which the system re-enters. One record holds the process: the globals of
  \<^verbatim>\<open>win32_window.cpp\<close>, what the system knows (the window class, the windows, the quit message) and the
  window object. What the system and the Flutter library answer is a parameter.
\<close>

section \<open>Process state\<close>

record RECT =
  r_left :: int
  r_top :: int
  r_right :: int
  r_bottom :: int

text \<open>
  A window of the system: whether it carries the pointer to its object, its place and outer
  size, whether it is visible, the dark-mode attribute, and whether its frame scales with the monitor.
\<close>

record os_window =
  ow_this :: bool
  ow_pos :: "int \<times> int"
  ow_size :: "int \<times> int"
  ow_visible :: bool
  ow_dark :: "bool option"
  ow_nc_scaling :: bool

datatype create_outcome = NotCreated | Aborted | Created

record win32_env =
  register_ok :: bool
  create_result :: create_outcome
  monitor_dpi :: nat
  dpi_scaling_available :: bool
  apps_use_light_theme :: "nat option"
  client_area :: "int \<times> int \<Rightarrow> RECT"
  controller_ok :: bool
  view_window :: nat

text \<open>
  A handle is a number; the null handle is \<open>None\<close>. A controller is its surface's size and whether it has an
  engine and a view.
\<close>

record client =
  g_active_window_count :: int
  class_registered :: bool
  os_class :: bool
  os_windows :: "nat \<rightharpoonup> os_window"
  next_hwnd :: nat
  quit_posted :: nat
  com_users :: int
  is_flutter :: bool
  window_handle :: "nat option"
  child_content :: "nat option"
  child_rect :: "RECT option"
  os_focus :: "nat option"
  quit_on_close :: bool
  flutter_controller :: "(int \<times> int \<times> bool) option"
  fonts_reloaded :: nat

datatype message =
    WM_CLOSE
  | WM_DESTROY
  | WM_NCDESTROY
  | WM_DPICHANGED RECT
  | WM_SIZE
  | WM_ACTIVATE
  | WM_DWMCOLORIZATIONCOLORCHANGED
  | WM_FONTCHANGE
  | WM_OTHER nat

section \<open>The window class\<close>

definition GetWindowClass :: "win32_env \<Rightarrow> client \<Rightarrow> client" where
  "GetWindowClass e s =
     (if class_registered s then s
      else s\<lparr>os_class := os_class s \<or> register_ok e, class_registered := True\<rparr>)"

text \<open>
  The system refuses to unregister a class while it has windows; handles are given out in order, so these are below
  the next one.
\<close>

definition no_windows :: "client \<Rightarrow> bool" where
  "no_windows s = (\<forall>h < next_hwnd s. os_windows s h = None)"

definition UnregisterWindowClass :: "client \<Rightarrow> client" where
  "UnregisterWindowClass s =
     s\<lparr>os_class := (if no_windows s then False else os_class s), class_registered := False\<rparr>"

section \<open>Destruction\<close>

text \<open>
  \<open>is_flutter\<close> is the dynamic type of the object: the virtual functions are those of
  \<^verbatim>\<open>FlutterWindow\<close> until its destructor has run, then those of \<^verbatim>\<open>Win32Window\<close>.
\<close>

definition OnDestroy :: "client \<Rightarrow> client" where
  "OnDestroy s = (if is_flutter s then s\<lparr>flutter_controller := None\<rparr> else s)"

definition release_class :: "client \<Rightarrow> client" where
  "release_class s = (if g_active_window_count s = 0 then UnregisterWindowClass s else s)"

text \<open>\<^verbatim>\<open>case WM_DESTROY\<close> of the base handler; the handle is null when it calls \<^verbatim>\<open>Destroy\<close>.\<close>

definition handle_WM_DESTROY :: "client \<Rightarrow> client" where
  "handle_WM_DESTROY s =
     (let s = s\<lparr>window_handle := None\<rparr>;
          s = release_class (OnDestroy s)
      in if quit_on_close s then s\<lparr>quit_posted := quit_posted s + 1\<rparr> else s)"

text \<open>
  \<^verbatim>\<open>HandleTopLevelWindowProc\<close> of the controller, if there is one: \<open>tlp m\<close> says whether it
  answers the message itself.
\<close>

definition flutter_answers :: "(message \<Rightarrow> bool) \<Rightarrow> message \<Rightarrow> client \<Rightarrow> bool" where
  "flutter_answers tlp m s = (is_flutter s \<and> flutter_controller s \<noteq> None \<and> tlp m)"

text \<open>
  \<^verbatim>\<open>DestroyWindow\<close>: nothing for a handle that is not a window; otherwise the window gets
  \<^verbatim>\<open>WM_DESTROY\<close> while it still exists, and then it is gone. The other messages on the way
  (\<^verbatim>\<open>WM_NCDESTROY\<close>) reach the default procedure.
\<close>

definition os_DestroyWindow :: "(message \<Rightarrow> bool) \<Rightarrow> nat \<Rightarrow> client \<Rightarrow> client" where
  "os_DestroyWindow tlp h s =
     (case os_windows s h of
        None \<Rightarrow> s
      | Some w \<Rightarrow>
          (let s = (if \<not> ow_this w \<or> flutter_answers tlp WM_DESTROY s then s else handle_WM_DESTROY s)
           in s\<lparr>os_windows := (os_windows s)(h := None)\<rparr>))"

definition Win32Window_Destroy :: "(message \<Rightarrow> bool) \<Rightarrow> client \<Rightarrow> client" where
  "Win32Window_Destroy tlp s =
     (let s = OnDestroy s;
          s = (case window_handle s of
                 None \<Rightarrow> s
               | Some h \<Rightarrow> (os_DestroyWindow tlp h s)\<lparr>window_handle := None\<rparr>)
      in release_class s)"

text \<open>The nested call made by \<^verbatim>\<open>WM_DESTROY\<close> is this function at a null handle.\<close>

lemma Destroy_null: "window_handle s = None \<Longrightarrow> Win32Window_Destroy tlp s = release_class (OnDestroy s)"
  by (simp add: Win32Window_Destroy_def OnDestroy_def)

section \<open>Messages\<close>

definition GetClientArea :: "win32_env \<Rightarrow> client \<Rightarrow> RECT option" where
  "GetClientArea e s =
     (case window_handle s of
        None \<Rightarrow> None
      | Some h \<Rightarrow> map_option (\<lambda>w. client_area e (ow_size w)) (os_windows s h))"

definition UpdateTheme :: "win32_env \<Rightarrow> nat \<Rightarrow> client \<Rightarrow> client" where
  "UpdateTheme e h s =
     (case (apps_use_light_theme e, os_windows s h) of
        (Some light_mode, Some w) \<Rightarrow> s\<lparr>os_windows := (os_windows s)(h \<mapsto> w\<lparr>ow_dark := Some (light_mode = 0)\<rparr>)\<rparr>
      | _ \<Rightarrow> s)"

definition handle_WM_SIZE :: "win32_env \<Rightarrow> client \<Rightarrow> client" where
  "handle_WM_SIZE e s = (if child_content s = None then s else s\<lparr>child_rect := GetClientArea e s\<rparr>)"

text \<open>A change of the outer size makes the system send \<^verbatim>\<open>WM_SIZE\<close>.\<close>

definition os_resize :: "(message \<Rightarrow> bool) \<Rightarrow> win32_env \<Rightarrow> nat \<Rightarrow> int \<times> int \<Rightarrow> int \<times> int \<Rightarrow> client \<Rightarrow> client" where
  "os_resize tlp e h pos sz s =
     (case os_windows s h of
        None \<Rightarrow> s
      | Some w \<Rightarrow>
          (let s' = s\<lparr>os_windows := (os_windows s)(h \<mapsto> w\<lparr>ow_pos := pos, ow_size := sz\<rparr>)\<rparr>
           in if sz = ow_size w \<or> \<not> ow_this w \<or> flutter_answers tlp WM_SIZE s then s' else handle_WM_SIZE e s'))"

definition DefWindowProc :: "(message \<Rightarrow> bool) \<Rightarrow> nat option \<Rightarrow> message \<Rightarrow> client \<Rightarrow> client" where
  "DefWindowProc tlp h m s =
     (case (h, m) of (Some h, WM_CLOSE) \<Rightarrow> os_DestroyWindow tlp h s | _ \<Rightarrow> s)"

definition Win32Window_MessageHandler :: "(message \<Rightarrow> bool) \<Rightarrow> win32_env \<Rightarrow> nat \<Rightarrow> message \<Rightarrow> client \<Rightarrow> client" where
  "Win32Window_MessageHandler tlp e hwnd m s =
     (case m of
        WM_DESTROY \<Rightarrow> handle_WM_DESTROY s
      | WM_DPICHANGED r \<Rightarrow>
          os_resize tlp e hwnd (r_left r, r_top r) (r_right r - r_left r, r_bottom r - r_top r) s
      | WM_SIZE \<Rightarrow> handle_WM_SIZE e s
      | WM_ACTIVATE \<Rightarrow> (if child_content s = None then s else s\<lparr>os_focus := child_content s\<rparr>)
      | WM_DWMCOLORIZATIONCOLORCHANGED \<Rightarrow> UpdateTheme e hwnd s
      | _ \<Rightarrow> DefWindowProc tlp (window_handle s) m s)"

text \<open>\<open>None\<close> is a null pointer that is dereferenced.\<close>

definition FlutterWindow_MessageHandler ::
  "(message \<Rightarrow> bool) \<Rightarrow> win32_env \<Rightarrow> nat \<Rightarrow> message \<Rightarrow> client \<Rightarrow> client option" where
  "FlutterWindow_MessageHandler tlp e hwnd m s =
     (if flutter_controller s \<noteq> None \<and> tlp m then Some s
      else if m = WM_FONTCHANGE
      then (case flutter_controller s of
              Some (_, _, True) \<Rightarrow>
                Some (Win32Window_MessageHandler tlp e hwnd m (s\<lparr>fonts_reloaded := fonts_reloaded s + 1\<rparr>))
            | _ \<Rightarrow> None)
      else Some (Win32Window_MessageHandler tlp e hwnd m s))"

definition WndProc :: "(message \<Rightarrow> bool) \<Rightarrow> win32_env \<Rightarrow> nat \<Rightarrow> message \<Rightarrow> client \<Rightarrow> client option" where
  "WndProc tlp e h m s =
     (case os_windows s h of
        None \<Rightarrow> Some s
      | Some w \<Rightarrow>
          if \<not> ow_this w then Some (DefWindowProc tlp (Some h) m s)
          else if is_flutter s then FlutterWindow_MessageHandler tlp e h m s
          else Some (Win32Window_MessageHandler tlp e h m s))"

section \<open>Creation\<close>

text \<open>\<^verbatim>\<open>static_cast<int>(source * scale_factor)\<close>: rounds towards zero.\<close>

definition Scale :: "int \<Rightarrow> double \<Rightarrow> int" where
  "Scale source scale_factor =
     (let x = of_int source * scale_factor in if 0 \<le> x then \<lfloor>x\<rfloor> else \<lceil>x\<rceil>)"

text \<open>
  \<^verbatim>\<open>CreateWindow\<close> needs the class. \<^verbatim>\<open>WM_NCCREATE\<close> stores the object's pointer with the window and the
  handle in the object; a creation that is aborted after it leaves the handle behind.
\<close>

definition os_CreateWindow :: "win32_env \<Rightarrow> int \<times> int \<Rightarrow> int \<times> int \<Rightarrow> client \<Rightarrow> nat option \<times> client" where
  "os_CreateWindow e pos sz s =
     (let h = next_hwnd s; s' = s\<lparr>next_hwnd := h + 1, window_handle := Some h\<rparr> in
      if \<not> os_class s then (None, s)
      else case create_result e of
             NotCreated \<Rightarrow> (None, s)
           | Aborted \<Rightarrow> (None, s')
           | Created \<Rightarrow>
               (Some h, s'\<lparr>os_windows := (os_windows s)(h \<mapsto>
                  \<lparr>ow_this = True, ow_pos = pos, ow_size = sz, ow_visible = False, ow_dark = None,
                   ow_nc_scaling = dpi_scaling_available e\<rparr>)\<rparr>))"

definition SetChildContent :: "win32_env \<Rightarrow> nat \<Rightarrow> client \<Rightarrow> client" where
  "SetChildContent e content s =
     (let s = s\<lparr>child_content := Some content\<rparr>
      in s\<lparr>child_rect := GetClientArea e s, os_focus := Some content\<rparr>)"

text \<open>
  \<^verbatim>\<open>FlutterWindow::OnCreate\<close>; the callback it registers is the event \<open>FirstFrame\<close> below. It is called with a
  window, so the first case does not arise.
\<close>

definition OnCreate :: "win32_env \<Rightarrow> client \<Rightarrow> bool \<times> client" where
  "OnCreate e s =
     (case GetClientArea e s of
        None \<Rightarrow> (False, s)
      | Some frame \<Rightarrow>
          (let s = s\<lparr>flutter_controller := Some (r_right frame - r_left frame, r_bottom frame - r_top frame, controller_ok e)\<rparr>
           in if \<not> controller_ok e then (False, s) else (True, SetChildContent e (view_window e) s)))"

definition Win32Window_Create :: "(message \<Rightarrow> bool) \<Rightarrow> win32_env \<Rightarrow> int \<times> int \<Rightarrow> int \<times> int \<Rightarrow> client \<Rightarrow> bool \<times> client" where
  "Win32Window_Create tlp e origin sz s =
     (let s = GetWindowClass e (Win32Window_Destroy tlp s);
          scale_factor = of_nat (monitor_dpi e) / 96
      in case os_CreateWindow e (Scale (fst origin) scale_factor, Scale (snd origin) scale_factor)
                (Scale (fst sz) scale_factor, Scale (snd sz) scale_factor) s of
           (None, s) \<Rightarrow> (False, s)
         | (Some h, s) \<Rightarrow> OnCreate e (UpdateTheme e h s))"

definition Win32Window_Show :: "client \<Rightarrow> client" where
  "Win32Window_Show s =
     (case window_handle s of
        None \<Rightarrow> s
      | Some h \<Rightarrow>
          (case os_windows s h of
             None \<Rightarrow> s
           | Some w \<Rightarrow> s\<lparr>os_windows := (os_windows s)(h \<mapsto> w\<lparr>ow_visible := True\<rparr>)\<rparr>))"

section \<open>The life of the process\<close>

definition client_start :: client where
  "client_start =
     \<lparr>g_active_window_count = 0, class_registered = False, os_class = False, os_windows = Map.empty, next_hwnd = 1,
      quit_posted = 0, com_users = 0, is_flutter = False, window_handle = None, child_content = None, child_rect = None,
      os_focus = None, quit_on_close = False, flutter_controller = None, fonts_reloaded = 0\<rparr>"

text \<open>Construction of the object, base class first.\<close>

definition FlutterWindow_new :: "client \<Rightarrow> client" where
  "FlutterWindow_new s =
     s\<lparr>g_active_window_count := g_active_window_count s + 1, is_flutter := True, window_handle := None,
       child_content := None, quit_on_close := False, flutter_controller := None\<rparr>"

text \<open>Destruction: the members of the derived class, then the destructor of the base class.\<close>

definition FlutterWindow_delete :: "(message \<Rightarrow> bool) \<Rightarrow> client \<Rightarrow> client" where
  "FlutterWindow_delete tlp s =
     (let s = s\<lparr>flutter_controller := None, is_flutter := False\<rparr>;
          s = s\<lparr>g_active_window_count := g_active_window_count s - 1\<rparr>
      in Win32Window_Destroy tlp s)"

text \<open>
  What reaches the process while it waits: a message for a window, the user resizing the
  window, or the first frame of the view, whose callback shows the window while there is a controller.
\<close>

datatype input = Message nat message | UserResize nat "int \<times> int" "int \<times> int" | FirstFrame

fun client_input :: "(message \<Rightarrow> bool) \<Rightarrow> win32_env \<Rightarrow> input \<Rightarrow> client \<Rightarrow> client option" where
  "client_input tlp e (Message h m) s = WndProc tlp e h m s"
| "client_input tlp e (UserResize h pos sz) s = Some (os_resize tlp e h pos sz s)"
| "client_input tlp e FirstFrame s = Some (if flutter_controller s = None then s else Win32Window_Show s)"

text \<open>
  The message loop. The quit message is returned when no other message is left; \<open>False\<close> is a process
  that waits for input.
\<close>

fun message_loop :: "(message \<Rightarrow> bool) \<Rightarrow> win32_env \<Rightarrow> input list \<Rightarrow> client \<Rightarrow> (bool \<times> client) option" where
  "message_loop tlp e [] s = Some (quit_posted s > 0, s)"
| "message_loop tlp e (i # is) s =
     (case client_input tlp e i s of None \<Rightarrow> None | Some s \<Rightarrow> message_loop tlp e is s)"

text \<open>
  \<^verbatim>\<open>wWinMain\<close>: \<open>None\<close> where it crashes, otherwise the code it returned, if it did, and the state.
\<close>

definition wWinMain :: "(message \<Rightarrow> bool) \<Rightarrow> win32_env \<Rightarrow> input list \<Rightarrow> (int option \<times> client) option" where
  "wWinMain tlp e inputs =
     (let s = client_start\<lparr>com_users := 1\<rparr>;
          (ok, s) = Win32Window_Create tlp e (10, 10) (1280, 720) (FlutterWindow_new s)
      in if \<not> ok then Some (Some 1, FlutterWindow_delete tlp s)
         else case message_loop tlp e inputs (s\<lparr>quit_on_close := True\<rparr>) of
                None \<Rightarrow> None
              | Some (False, s) \<Rightarrow> Some (None, s)
              | Some (True, s) \<Rightarrow> Some (Some 0, FlutterWindow_delete tlp (s\<lparr>com_users := com_users s - 1\<rparr>)))"

section \<open>Open and closed\<close>

text \<open>The system sends the destruction messages itself; they are not posted.\<close>

fun posted :: "input \<Rightarrow> bool" where
  "posted (Message h m) = (m \<noteq> WM_DESTROY \<and> m \<noteq> WM_NCDESTROY)"
| "posted _ = True"

text \<open>The Flutter library and its plugins leave the messages to the window that its life and layout depend on.\<close>

definition transparent :: "(message \<Rightarrow> bool) \<Rightarrow> bool" where
  "transparent tlp \<longleftrightarrow> \<not> tlp WM_CLOSE \<and> \<not> tlp WM_DESTROY \<and> \<not> tlp WM_SIZE"

definition startup_ok :: "win32_env \<Rightarrow> bool" where
  "startup_ok e \<longleftrightarrow> register_ok e \<and> create_result e = Created \<and> controller_ok e"

definition registered :: "client \<Rightarrow> bool" where
  "registered s \<longleftrightarrow> g_active_window_count s = 1 \<and> class_registered s \<and> os_class s \<and> is_flutter s \<and> com_users s = 1 \<and>
     next_hwnd s = 2"

text \<open>The window is open: it exists, carries its object, hosts the view, and the view fills the client area.\<close>

definition running :: "win32_env \<Rightarrow> client \<Rightarrow> bool" where
  "running e s \<longleftrightarrow> registered s \<and> quit_on_close s \<and> quit_posted s = 0 \<and> window_handle s = Some 1 \<and>
     (\<forall>h. h \<noteq> 1 \<longrightarrow> os_windows s h = None) \<and>
     (\<exists>w. os_windows s 1 = Some w \<and> ow_this w \<and> child_rect s = Some (client_area e (ow_size w))) \<and>
     child_content s = Some (view_window e) \<and> (\<exists>x y. flutter_controller s = Some (x, y, True))"

definition closed :: "client \<Rightarrow> bool" where
  "closed s \<longleftrightarrow> registered s \<and> quit_posted s = 1 \<and> window_handle s = None \<and> os_windows s = Map.empty \<and>
     flutter_controller s = None"

definition released :: "client \<Rightarrow> bool" where
  "released s \<longleftrightarrow> g_active_window_count s = 0 \<and> \<not> class_registered s \<and> \<not> os_class s \<and> os_windows s = Map.empty \<and>
     window_handle s = None \<and> flutter_controller s = None"

lemmas window_defs = FlutterWindow_delete_def Win32Window_Destroy_def os_DestroyWindow_def handle_WM_DESTROY_def
  release_class_def UnregisterWindowClass_def no_windows_def OnDestroy_def flutter_answers_def

lemma os_resize_running:
  assumes "running e s" "transparent tlp"
  shows "running e (os_resize tlp e h pos sz s)"
  using assms
  by (auto simp: running_def registered_def os_resize_def handle_WM_SIZE_def GetClientArea_def flutter_answers_def transparent_def
      Let_def split: option.splits if_splits)

lemma UpdateTheme_running: "running e s \<Longrightarrow> running e (UpdateTheme e h s)"
  by (auto simp: running_def registered_def UpdateTheme_def split: option.splits)

lemma close_running:
  assumes "running e s" "transparent tlp"
  shows "closed (os_DestroyWindow tlp 1 s)"
  using assms by (auto simp: running_def registered_def closed_def transparent_def window_defs Let_def fun_eq_iff)

lemma base_handler_running:
  assumes "running e s" "transparent tlp" "m \<noteq> WM_DESTROY"
  shows "if m = WM_CLOSE then closed (Win32Window_MessageHandler tlp e 1 m s)
    else running e (Win32Window_MessageHandler tlp e 1 m s)"
proof -
  have h: "window_handle s = Some 1" using assms(1) by (simp add: running_def)
  have size: "running e (handle_WM_SIZE e s)" "running e (s\<lparr>os_focus := f\<rparr>)" for f
    using assms(1) by (auto simp: running_def registered_def handle_WM_SIZE_def GetClientArea_def)
  show ?thesis
    using assms h size os_resize_running [OF assms(1,2)] UpdateTheme_running [OF assms(1)] close_running [OF assms(1,2)]
    by (cases m) (auto simp: Win32Window_MessageHandler_def DefWindowProc_def)
qed

lemma WndProc_running:
  assumes "running e s" "transparent tlp" "m \<noteq> WM_DESTROY"
  shows "\<exists>s'. WndProc tlp e h m s = Some s' \<and> (if h = 1 \<and> m = WM_CLOSE then closed s' else running e s')"
proof (cases "h = 1")
  case True
  obtain w where w: "os_windows s 1 = Some w" "ow_this w" "is_flutter s"
    using assms(1) by (auto simp: running_def registered_def)
  obtain x y where c: "flutter_controller s = Some (x, y, True)" using assms(1) by (auto simp: running_def)
  have r: "running e (s\<lparr>fonts_reloaded := n\<rparr>)" for n using assms(1) by (simp add: running_def registered_def)
  show ?thesis
    using True w c assms base_handler_running [OF assms] base_handler_running [OF r assms(2,3)]
    by (auto simp: WndProc_def FlutterWindow_MessageHandler_def transparent_def)
next
  case False
  then have "os_windows s h = None" using assms(1) by (auto simp: running_def)
  with False assms(1) show ?thesis by (simp add: WndProc_def)
qed

lemma input_running:
  assumes "running e s" "transparent tlp" "posted i"
  shows "\<exists>s'. client_input tlp e i s = Some s' \<and> (if i = Message 1 WM_CLOSE then closed s' else running e s')"
proof (cases i)
  case (Message h m)
  with assms WndProc_running [OF assms(1,2), of m h] show ?thesis by simp
next
  case (UserResize h pos sz)
  with os_resize_running [OF assms(1,2)] show ?thesis by simp
next
  case FirstFrame
  have "running e (Win32Window_Show s)" using assms(1) by (auto simp: running_def registered_def Win32Window_Show_def)
  with FirstFrame assms(1) show ?thesis by simp
qed

lemma input_closed: "closed s \<Longrightarrow> client_input tlp e i s = Some s"
  by (cases i) (auto simp: closed_def WndProc_def os_resize_def)

lemma loop_closed: "closed s \<Longrightarrow> message_loop tlp e is s = Some (True, s)"
  by (induction "is") (auto simp: input_closed closed_def)

lemma loop_running:
  assumes "transparent tlp"
  shows "running e s \<Longrightarrow> list_all posted is \<Longrightarrow>
    \<exists>s'. message_loop tlp e is s = Some (Message 1 WM_CLOSE \<in> set is, s') \<and>
      (if Message 1 WM_CLOSE \<in> set is then closed s' else running e s')"
proof (induction "is" arbitrary: s)
  case Nil
  then show ?case by (auto simp: running_def)
next
  case (Cons i "is")
  from input_running [OF Cons.prems(1) assms, of i] Cons.prems(2) obtain s' where
    s': "client_input tlp e i s = Some s'" "if i = Message 1 WM_CLOSE then closed s' else running e s'" by auto
  show ?case
  proof (cases "i = Message 1 WM_CLOSE")
    case True
    with s' loop_closed show ?thesis by auto
  next
    case False
    with s' Cons.IH [of s'] Cons.prems(2) show ?thesis by auto
  qed
qed

section \<open>Starting and ending\<close>

text \<open>What the parts of the destruction change.\<close>

lemma release_class_fields [simp]:
  "os_windows (release_class s) = os_windows s" "g_active_window_count (release_class s) = g_active_window_count s"
  "com_users (release_class s) = com_users s" "flutter_controller (release_class s) = flutter_controller s"
  "window_handle (release_class s) = window_handle s" "quit_posted (release_class s) = quit_posted s"
  "quit_on_close (release_class s) = quit_on_close s" "is_flutter (release_class s) = is_flutter s"
  by (simp_all add: release_class_def UnregisterWindowClass_def)

lemma handle_destroy_fields [simp]:
  "os_windows (handle_WM_DESTROY s) = os_windows s" "g_active_window_count (handle_WM_DESTROY s) = g_active_window_count s"
  "com_users (handle_WM_DESTROY s) = com_users s" "window_handle (handle_WM_DESTROY s) = None"
  "quit_posted (handle_WM_DESTROY s) = (if quit_on_close s then quit_posted s + 1 else quit_posted s)"
  "flutter_controller (handle_WM_DESTROY s) = (if is_flutter s then None else flutter_controller s)"
  by (simp_all add: handle_WM_DESTROY_def OnDestroy_def Let_def)

lemma destroy_window_fields [simp]:
  "os_windows (os_DestroyWindow tlp h s) = (os_windows s)(h := None)"
  "g_active_window_count (os_DestroyWindow tlp h s) = g_active_window_count s" "com_users (os_DestroyWindow tlp h s) = com_users s"
  "\<not> is_flutter s \<Longrightarrow> flutter_controller (os_DestroyWindow tlp h s) = flutter_controller s"
  "\<not> quit_on_close s \<Longrightarrow> quit_posted (os_DestroyWindow tlp h s) = quit_posted s"
  by (auto simp: os_DestroyWindow_def Let_def fun_eq_iff split: option.splits)

lemma release_class_empty:
  "g_active_window_count s = 0 \<Longrightarrow> os_windows s = Map.empty \<Longrightarrow>
    \<not> class_registered (release_class s) \<and> \<not> os_class (release_class s)"
  by (simp add: release_class_def UnregisterWindowClass_def no_windows_def)

lemma delete_releases:
  assumes "g_active_window_count s = 1" "\<forall>h. os_windows s h \<noteq> None \<longrightarrow> window_handle s = Some h"
  shows "released (FlutterWindow_delete tlp s)" "com_users (FlutterWindow_delete tlp s) = com_users s"
    and "\<not> quit_on_close s \<or> window_handle s = None \<Longrightarrow> quit_posted (FlutterWindow_delete tlp s) = quit_posted s"
proof -
  let ?s = "s\<lparr>flutter_controller := None, is_flutter := False, g_active_window_count := 0\<rparr>"
  define r where "r = (case window_handle s of None \<Rightarrow> ?s | Some h \<Rightarrow> (os_DestroyWindow tlp h ?s)\<lparr>window_handle := None\<rparr>)"
  have del: "FlutterWindow_delete tlp s = release_class r"
    using assms(1) by (simp add: FlutterWindow_delete_def Win32Window_Destroy_def OnDestroy_def r_def Let_def split: option.split)
  have "os_windows r = Map.empty"
    using assms(2) by (auto simp: r_def fun_eq_iff split: option.splits) 
  moreover have "g_active_window_count r = 0" "window_handle r = None" "flutter_controller r = None" "com_users r = com_users s"
    by (auto simp: r_def split: option.splits)
  moreover have "\<not> quit_on_close s \<or> window_handle s = None \<Longrightarrow> quit_posted r = quit_posted s"
    by (auto simp: r_def split: option.splits)
  ultimately show "released (FlutterWindow_delete tlp s)" "com_users (FlutterWindow_delete tlp s) = com_users s"
    "\<not> quit_on_close s \<or> window_handle s = None \<Longrightarrow> quit_posted (FlutterWindow_delete tlp s) = quit_posted s"
    using release_class_empty [of r] by (auto simp: del released_def)
qed

lemma create_result_cases:
  assumes "Win32Window_Create tlp e (10, 10) (1280, 720) (FlutterWindow_new (client_start\<lparr>com_users := 1\<rparr>)) = (ok, s)"
  shows "ok = startup_ok e"
    and "ok \<Longrightarrow> running e (s\<lparr>quit_on_close := True\<rparr>)"
    and "g_active_window_count s = 1" "\<forall>h. os_windows s h \<noteq> None \<longrightarrow> window_handle s = Some h" "\<not> quit_on_close s"
      "quit_posted s = 0"
  using assms
  by (auto simp: Win32Window_Create_def FlutterWindow_new_def client_start_def GetWindowClass_def os_CreateWindow_def
      OnCreate_def GetClientArea_def UpdateTheme_def SetChildContent_def Win32Window_Destroy_def release_class_def OnDestroy_def
      Let_def startup_ok_def running_def registered_def split: create_outcome.splits option.splits if_splits)

lemma delete_closed:
  assumes "closed s"
  shows "released (FlutterWindow_delete tlp (s\<lparr>com_users := com_users s - 1\<rparr>))"
    and "quit_posted (FlutterWindow_delete tlp (s\<lparr>com_users := com_users s - 1\<rparr>)) = 1"
    and "com_users (FlutterWindow_delete tlp (s\<lparr>com_users := com_users s - 1\<rparr>)) = 0"
  using assms delete_releases [of "s\<lparr>com_users := com_users s - 1\<rparr>" tlp] by (auto simp: closed_def registered_def)


definition sample_win32 :: win32_env where
  "sample_win32 =
     \<lparr>register_ok = True, create_result = Created, monitor_dpi = 144, dpi_scaling_available = True,
      apps_use_light_theme = Some 0, client_area = (\<lambda>(x, y). \<lparr>r_left = 0, r_top = 0, r_right = x - 16, r_bottom = y - 39\<rparr>),
      controller_ok = True, view_window = 7\<rparr>"

definition sample_inputs :: "input list" where
  "sample_inputs = [FirstFrame, Message 1 WM_ACTIVATE, UserResize 1 (0, 0) (800, 600), Message 1 WM_FONTCHANGE]"


end
