(* ===== verification/Client_Start.thy ===== *)
theory Client_Start
  imports Client_Window
begin

text \<open>
  The start of the client on both systems: the console and the command line on Windows
  (\<^verbatim>\<open>client2/windows/runner/utils.cpp\<close>) and the GTK application on Linux
  (\<^verbatim>\<open>client2/linux/runner/my_application.cc\<close>).
\<close>

section \<open>The console on Windows\<close>

text \<open>
  The calls that redirect the output; \<open>Dup n\<close> makes descriptor \<open>n\<close> a copy of that of
  \<^verbatim>\<open>stdout\<close>. \<^verbatim>\<open>freopen_s\<close> returns 0 when it succeeds, otherwise an error code.
\<close>

datatype console_call = Dup nat | SyncStdio | ResyncFlutter

definition CreateAndAttachConsole :: "bool \<Rightarrow> int \<Rightarrow> int \<Rightarrow> console_call list" where
  "CreateAndAttachConsole alloc_ok reopen_out reopen_err =
     (if \<not> alloc_ok then []
      else (if reopen_out \<noteq> 0 then [Dup 1] else []) @ (if reopen_err \<noteq> 0 then [Dup 2] else []) @ [SyncStdio, ResyncFlutter])"

text \<open>The first lines of \<^verbatim>\<open>wWinMain\<close>.\<close>

record console_env =
  con_attached :: bool
  con_debugger :: bool
  con_alloc :: bool
  con_reopen_out :: int
  con_reopen_err :: int

definition attach_console :: "console_env \<Rightarrow> console_call list" where
  "attach_console c =
     (if \<not> con_attached c \<and> con_debugger c
      then CreateAndAttachConsole (con_alloc c) (con_reopen_out c) (con_reopen_err c) else [])"

section \<open>The command line on Windows\<close>

text \<open>
  \<open>conv\<close> is the conversion of \<^verbatim>\<open>WideCharToMultiByte\<close> from UTF-16 to UTF-8, \<open>None\<close> on invalid
  input (\<^verbatim>\<open>WC_ERR_INVALID_CHARS\<close>). The call with a length of -1 counts the terminating
  null character, too; both calls return 0 on failure. \<open>max_sz\<close> is \<^verbatim>\<open>max_size\<close> of a string and \<open>alloc\<close> says which
  sizes can be allocated. The size of the string that is allocated is returned with the result.
\<close>

definition measure_utf8 :: "(16 word list \<Rightarrow> bytes option) \<Rightarrow> 16 word list \<Rightarrow> u32" where
  "measure_utf8 conv w = (case conv w of None \<Rightarrow> 0 | Some b \<Rightarrow> of_nat (length b + 1))"

definition convert_utf8 :: "(16 word list \<Rightarrow> bytes option) \<Rightarrow> 16 word list \<Rightarrow> u32 \<Rightarrow> nat \<times> bytes" where
  "convert_utf8 conv w room =
     (case conv w of
        None \<Rightarrow> (0, replicate (unat room) 0)
      | Some b \<Rightarrow> if w = [] \<or> unat room < length b then (0, replicate (unat room) 0)
                  else (length b, b @ replicate (unat room - length b) 0))"

definition Utf8FromUtf16 ::
  "(16 word list \<Rightarrow> bytes option) \<Rightarrow> nat \<Rightarrow> (nat \<Rightarrow> bool) \<Rightarrow> 16 word list option \<Rightarrow> nat \<times> (exn + bytes)" where
  "Utf8FromUtf16 conv max_sz alloc utf16_string =
     (case utf16_string of
        None \<Rightarrow> (0, Inr [])
      | Some w \<Rightarrow>
          (let target_length = measure_utf8 conv w - 1 in
           if target_length = 0 \<or> max_sz < unat target_length then (0, Inr [])
           else if \<not> alloc (unat target_length) then (unat target_length, Inl (StdException ''bad_alloc''))
           else
             let (converted_length, utf8_string) = convert_utf8 conv w target_length
             in (unat target_length, Inr (if converted_length = 0 then [] else utf8_string))))"

text \<open>\<open>argv\<close> is what \<^verbatim>\<open>CommandLineToArgvW\<close> returned, the program's name first.\<close>

definition GetCommandLineArguments ::
  "(16 word list \<Rightarrow> bytes option) \<Rightarrow> nat \<Rightarrow> (nat \<Rightarrow> bool) \<Rightarrow> 16 word list list option \<Rightarrow> exn + bytes list" where
  "GetCommandLineArguments conv max_sz alloc argv =
     (case argv of None \<Rightarrow> Inr [] | Some a \<Rightarrow> emap (\<lambda>w. snd (Utf8FromUtf16 conv max_sz alloc (Some w))) (drop 1 a))"

text \<open>
  The whole of \<^verbatim>\<open>wWinMain\<close>: the console, the arguments for the application, then the window. The left side is
  an exception, which ends the program.
\<close>

definition client_main ::
  "(16 word list \<Rightarrow> bytes option) \<Rightarrow> nat \<Rightarrow> (nat \<Rightarrow> bool) \<Rightarrow> 16 word list list option \<Rightarrow> console_env \<Rightarrow>
   (message \<Rightarrow> bool) \<Rightarrow> win32_env \<Rightarrow> input list \<Rightarrow>
   console_call list \<times> (exn + bytes list \<times> int option \<times> client) option" where
  "client_main conv max_sz alloc argv console tlp e inputs =
     (attach_console console,
      case GetCommandLineArguments conv max_sz alloc argv of
        Inl x \<Rightarrow> Some (Inl x)
      | Inr command_line_arguments \<Rightarrow>
          map_option (\<lambda>(code, s). Inr (command_line_arguments, code, s)) (wWinMain tlp e inputs))"

section \<open>The GTK application\<close>

record gtk_window =
  gw_header_bar :: bool
  gw_title :: string
  gw_default_size :: "int \<times> int"
  gw_arguments :: "string list"
  gw_shown :: bool
  gw_plugins :: bool

record my_application =
  dart_entrypoint_arguments :: "string list option"
  app_windows :: "gtk_window list"

text \<open>The display: not X11, or X11 with the name of its window manager, if it has one.\<close>

datatype screen = OtherScreen | X11Screen "string option"

definition use_header_bar :: "bool \<Rightarrow> screen \<Rightarrow> bool" where
  "use_header_bar built_for_x11 scr =
     (case scr of X11Screen wm \<Rightarrow> \<not> built_for_x11 \<or> wm = Some ''GNOME Shell'' | OtherScreen \<Rightarrow> True)"

definition my_application_activate :: "bool \<Rightarrow> screen \<Rightarrow> my_application \<Rightarrow> my_application" where
  "my_application_activate built_for_x11 scr app =
     app\<lparr>app_windows := app_windows app @
       [\<lparr>gw_header_bar = use_header_bar built_for_x11 scr, gw_title = ''client2'', gw_default_size = (1280, 720),
         gw_arguments = (case dart_entrypoint_arguments app of None \<Rightarrow> [] | Some a \<Rightarrow> a), gw_shown = False, gw_plugins = True\<rparr>]\<rparr>"

text \<open>
  \<open>arguments\<close> ends with a null pointer, which is skipped when there is not even a program name: \<open>None\<close>
  is the read behind it.
\<close>

definition my_application_local_command_line ::
  "bool \<Rightarrow> screen \<Rightarrow> bool \<Rightarrow> string list \<Rightarrow> my_application \<Rightarrow> (int \<times> my_application) option" where
  "my_application_local_command_line built_for_x11 scr registers arguments app =
     (case arguments of
        [] \<Rightarrow> None
      | _ # args \<Rightarrow>
          (let app = app\<lparr>dart_entrypoint_arguments := Some args\<rparr> in
           Some (if \<not> registers then (1, app) else (0, my_application_activate built_for_x11 scr app))))"

definition first_frame_cb :: "nat \<Rightarrow> my_application \<Rightarrow> my_application" where
  "first_frame_cb i app =
     (if i < length (app_windows app)
      then app\<lparr>app_windows := (app_windows app)[i := (app_windows app ! i)\<lparr>gw_shown := True\<rparr>]\<rparr> else app)"

definition my_application_dispose :: "my_application \<Rightarrow> my_application" where
  "my_application_dispose app = app\<lparr>dart_entrypoint_arguments := None\<rparr>"

definition my_application_new :: my_application where
  "my_application_new = \<lparr>dart_entrypoint_arguments = None, app_windows = []\<rparr>"

text \<open>
  \<^verbatim>\<open>main\<close>: the application runs until its windows are closed, and is disposed of with the last
  reference. \<open>app_windows\<close> keeps the windows it had, \<open>frames\<close> counts the first frames of its views.
\<close>

definition gtk_main :: "bool \<Rightarrow> screen \<Rightarrow> bool \<Rightarrow> nat \<Rightarrow> string list \<Rightarrow> (int \<times> my_application) option" where
  "gtk_main built_for_x11 scr registers frames argv =
     map_option (\<lambda>(status, app). (status, my_application_dispose (fold first_frame_cb [0..<frames] app)))
       (my_application_local_command_line built_for_x11 scr registers argv my_application_new)"

section \<open>The arguments reach the application\<close>

lemma utf8_length:
  assumes "conv w = Some b" "length b < 2 ^ 32 - 1"
  shows "b = [] \<Longrightarrow> Utf8FromUtf16 conv max_sz alloc (Some w) = (0, Inr [])"
    and "length b \<le> max_sz \<Longrightarrow> w \<noteq> [] \<Longrightarrow> b \<noteq> [] \<Longrightarrow> Utf8FromUtf16 conv max_sz alloc (Some w) =
      (length b, if alloc (length b) then Inr b else Inl (StdException ''bad_alloc''))"
proof -
  have "measure_utf8 conv w - 1 = of_nat (length b)" using assms(1) by (simp add: measure_utf8_def)
  moreover have "unat (of_nat (length b) :: u32) = length b" using assms(2) by (simp add: unat_of_nat)
  ultimately show "b = [] \<Longrightarrow> Utf8FromUtf16 conv max_sz alloc (Some w) = (0, Inr [])"
    "length b \<le> max_sz \<Longrightarrow> w \<noteq> [] \<Longrightarrow> b \<noteq> [] \<Longrightarrow> Utf8FromUtf16 conv max_sz alloc (Some w) =
      (length b, if alloc (length b) then Inr b else Inl (StdException ''bad_alloc''))"
    using assms(1) by (auto simp: Utf8FromUtf16_def convert_utf8_def Let_def word_unat_eq_iff)
qed

lemma utf8_invalid:
  assumes "conv w = None" "2 ^ 32 - 1 \<le> max_sz"
  shows "Utf8FromUtf16 conv max_sz alloc (Some w) =
    (2 ^ 32 - 1, if alloc (2 ^ 32 - 1) then Inr [] else Inl (StdException ''bad_alloc''))"
proof -
  have "measure_utf8 conv w - 1 = - 1" using assms(1) by (simp add: measure_utf8_def)
  moreover have "unat (- 1 :: u32) = 2 ^ 32 - 1" by (simp add: unsigned_minus_1_eq_mask mask_eq_exp_minus_1)
  ultimately show ?thesis using assms by (simp add: Utf8FromUtf16_def convert_utf8_def)
qed

text \<open>
  What \<^verbatim>\<open>Utf8FromUtf16\<close> allocates for an argument: its encoded length, and for an argument that
  is not valid UTF-16 the wrapped difference of 0 and 1.
\<close>

definition argument_request :: "(16 word list \<Rightarrow> bytes option) \<Rightarrow> 16 word list \<Rightarrow> nat" where
  "argument_request conv w = (case conv w of None \<Rightarrow> 2 ^ 32 - 1 | Some b \<Rightarrow> length b)"

definition argument_text :: "(16 word list \<Rightarrow> bytes option) \<Rightarrow> 16 word list \<Rightarrow> bytes" where
  "argument_text conv w = (case conv w of None \<Rightarrow> [] | Some b \<Rightarrow> b)"

lemma convert_argument:
  assumes "2 ^ 32 - 1 \<le> max_sz" "\<And>b. conv w = Some b \<Longrightarrow> length b < 2 ^ 32 - 1 \<and> (w = [] \<longleftrightarrow> b = [])"
  shows "snd (Utf8FromUtf16 conv max_sz alloc (Some w)) =
      (if argument_request conv w = 0 \<or> alloc (argument_request conv w) then Inr (argument_text conv w)
       else Inl (StdException ''bad_alloc''))"
proof (cases "conv w")
  case None
  with utf8_invalid [of conv w max_sz alloc] assms(1) show ?thesis by (simp add: argument_request_def argument_text_def)
next
  case (Some b)
  with assms(2) have "length b < 2 ^ 32 - 1" "w = [] \<longleftrightarrow> b = []" by blast+
  with Some assms(1) utf8_length [of conv w b max_sz alloc] show ?thesis
    by (cases "w = []") (auto simp: argument_request_def argument_text_def)
qed

text \<open>
  C40. The command line on Windows: every argument after the program's name reaches the
  application, in order, as exactly its UTF-8 text, before the window is set up; an argument that is not valid UTF-16 becomes the empty
  text. On the way the conversion of such an argument, whose failure is taken for a length of
  \<open>2^32 - 1\<close>, allocates that many bytes, and the program ends with an exception if they (or the
  bytes of any other argument) are not to be had.
\<close>

theorem command_line_arguments:
  assumes "2 ^ 32 - 1 \<le> max_sz"
    and "\<forall>w \<in> set args. \<forall>b. conv w = Some b \<longrightarrow> length b < 2 ^ 32 - 1 \<and> (w = [] \<longleftrightarrow> b = [])"
  shows "snd (client_main conv max_sz alloc (Some (prog # args)) console tlp e inputs) =
    (if list_all (\<lambda>w. argument_request conv w = 0 \<or> alloc (argument_request conv w)) args
     then map_option (\<lambda>(code, s). Inr (map (argument_text conv) args, code, s)) (wWinMain tlp e inputs)
     else Some (Inl (StdException ''bad_alloc'')))"
proof -
  have "GetCommandLineArguments conv max_sz alloc (Some (prog # args)) =
    (if list_all (\<lambda>w. argument_request conv w = 0 \<or> alloc (argument_request conv w)) args
     then Inr (map (argument_text conv) args) else Inl (StdException ''bad_alloc''))"
    using assms by (simp add: GetCommandLineArguments_def emap_fails convert_argument)
  then show ?thesis by (simp add: client_main_def)
qed

definition sample_console :: console_env where
  "sample_console = \<lparr>con_attached = True, con_debugger = False, con_alloc = True, con_reopen_out = 0, con_reopen_err = 0\<rparr>"

text \<open>A conversion for text in the range of ASCII; a unit of a surrogate pair on its own is invalid.\<close>

definition ascii_conv :: "16 word list \<Rightarrow> bytes option" where
  "ascii_conv w = (if list_all (\<lambda>c. c < 128) w then Some (map ucast w) else None)"

theorem command_line_arguments_witness:
  "map_option (map_sum id fst) (snd (client_main ascii_conv (2 ^ 63 - 1) (\<lambda>n. n < 2 ^ 31) (Some [[99], [45, 118], []]) sample_console
     (\<lambda>m. False) (sample_win32\<lparr>register_ok := False\<rparr>) [])) = Some (Inr [[45, 118], []]) \<and>
   snd (client_main ascii_conv (2 ^ 63 - 1) (\<lambda>n. n < 2 ^ 31) (Some [[99], [0xD800]]) sample_console (\<lambda>m. False) sample_win32 []) =
     Some (Inl (StdException ''bad_alloc''))"
proof -
  have main: "\<exists>code s. wWinMain (\<lambda>m. False) (sample_win32\<lparr>register_ok := False\<rparr>) [] = Some (code, s)"
    by (auto simp: wWinMain_def Let_def split: prod.splits bool.splits)
  show ?thesis
    using command_line_arguments [of "2 ^ 63 - 1" "[[45, 118], []]" ascii_conv "\<lambda>n. n < 2 ^ 31" "[99]" sample_console "\<lambda>m. False"
        "sample_win32\<lparr>register_ok := False\<rparr>" "[]"]
      command_line_arguments [of "2 ^ 63 - 1" "[[0xD800]]" ascii_conv "\<lambda>n. n < 2 ^ 31" "[99]" sample_console "\<lambda>m. False" sample_win32 "[]"]
      main by (auto simp: ascii_conv_def argument_request_def argument_text_def)
qed

section \<open>The GTK application\<close>

text \<open>
  On Linux the application has one window with the arguments after the program's name, shown with its first frame, exactly when it
  can be registered; its title bar is the header bar except on X11 under another window manager than GNOME's.
\<close>

lemma gtk_main_window:
  "gtk_main x11 scr registers frames (prog # args) =
     Some (if \<not> registers then (1, \<lparr>dart_entrypoint_arguments = None, app_windows = []\<rparr>)
           else (0, \<lparr>dart_entrypoint_arguments = None,
             app_windows = [\<lparr>gw_header_bar = (\<forall>wm. x11 \<and> scr = X11Screen wm \<longrightarrow> wm = Some ''GNOME Shell''), gw_title = ''client2'',
               gw_default_size = (1280, 720), gw_arguments = args, gw_shown = (0 < frames), gw_plugins = True\<rparr>]\<rparr>))"
proof -
  have f: "fold first_frame_cb [0..<frames] (app\<lparr>app_windows := []\<rparr>) = app\<lparr>app_windows := []\<rparr>"
    "fold first_frame_cb [0..<frames] (app\<lparr>app_windows := [w]\<rparr>) = app\<lparr>app_windows := [w\<lparr>gw_shown := gw_shown w \<or> 0 < frames\<rparr>]\<rparr>"
    for app :: my_application and w
    by (induction frames) (auto simp: first_frame_cb_def)
  have "fold first_frame_cb [0..<frames] \<lparr>dart_entrypoint_arguments = a, app_windows = []\<rparr> = \<lparr>dart_entrypoint_arguments = a, app_windows = []\<rparr>"
    "fold first_frame_cb [0..<frames] \<lparr>dart_entrypoint_arguments = a, app_windows = [w]\<rparr> =
      \<lparr>dart_entrypoint_arguments = a, app_windows = [w\<lparr>gw_shown := gw_shown w \<or> 0 < frames\<rparr>]\<rparr>" for a w
    using f [where app = "\<lparr>dart_entrypoint_arguments = a, app_windows = []\<rparr>"] by simp_all
  moreover have "use_header_bar x11 scr = (\<forall>wm. x11 \<and> scr = X11Screen wm \<longrightarrow> wm = Some ''GNOME Shell'')"
    by (auto simp: use_header_bar_def split: screen.splits)
  ultimately show ?thesis
    by (simp add: gtk_main_def my_application_local_command_line_def my_application_activate_def my_application_new_def
        my_application_dispose_def)
qed

end
