(* ===== verification/Spec2Isabelle.thy ===== *)
theory Spec2Isabelle
  imports Smpc2_Codec Gateway_Main Storage_Main Capture Quality_Gate Key_Service Engine_Run Gallery_Modes Secure_Memory
    Webcam_Relay Client_Start "HOL-Library.Sublist"
begin

text \<open>
  Verification of EyeD, an iris recognition platform: the C++ services under \<^verbatim>\<open>src/\<close>, modelled as
  functions and step relations, with the theorems that make them correct.

  \<^bold>\<open>The system.\<close> A capture device (\<^verbatim>\<open>capture/\<close>) reads images, drops the poor ones and streams the others over gRPC to the
  gateway (\<^verbatim>\<open>gateway/\<close>). The gateway publishes each accepted frame as a JSON request on the NATS subject
  \<open>eyed.analyze\<close>, guarded by a circuit breaker; results that come back are broadcast over
  WebSockets, and a signalling hub relays messages between a device and its viewers. The
  storage service (\<^verbatim>\<open>storage/\<close>) archives messages of \<open>eyed.archive\<close> in dated directories and purges
  old ones. The iris engine (\<^verbatim>\<open>iris-engine2/\<close>) offers HTTP routes to enrol, analyse and delete identities;
  it keeps a gallery in memory and templates in PostgreSQL, optionally encrypted (FHE), and
  matches in the clear, or on secret shares held in process or by participant processes reached over NATS (SMPC,
  SMPC2). The key service (\<^verbatim>\<open>key-service/\<close>) holds the FHE keys and answers decryption requests
  over NATS. A development tool (\<^verbatim>\<open>tools/\<close>) serves a host camera as a JPEG stream.

  \<^bold>\<open>Foundations.\<close> \<^theory_text>\<open>EyeD_Prelude\<close>: machine types as words, \<^verbatim>\<open>iris::Result\<close> as a sum, decimal printing,
  little-endian words, JSON values with the accessors and exceptions of nlohmann json, how programs end, and the
  locales \<open>guarded_machine\<close> (an invariant that each operation keeps where it is allowed is kept by every allowed run),
  which the requests of the engine, the modes of the gallery and the locked buffers interpret, and
  \<open>step_machine\<close> (every operation is allowed), which the breaker, the results hub, the NATS client and the gateway
  process interpret. \<^theory_text>\<open>Texts\<close>: \<^verbatim>\<open>find\<close>, \<^verbatim>\<open>atoi\<close>, \<^verbatim>\<open>stoi\<close>, \<^verbatim>\<open>to_string\<close>.
  \<^theory_text>\<open>Calendar\<close>: \<^verbatim>\<open>gmtime\<close>, \<^verbatim>\<open>timegm\<close>, \<^verbatim>\<open>strftime\<close>, the linear order of dates, and that the order of date texts is the order of days.
  \<^theory_text>\<open>Config_Env\<close>: the configurations of the engine and the storage service.

  \<^bold>\<open>Gateway.\<close> \<^theory_text>\<open>Breaker\<close> (\<^verbatim>\<open>breaker.cpp\<close>): the state machine, its operations as functions of the clock, and
  runs of calls; probes of a tripped breaker are spaced, and a breaker under load never
  trips. \<^theory_text>\<open>Ws_Hub\<close> (\<^verbatim>\<open>ws_hub.cpp\<close>, \<^verbatim>\<open>signaling_hub.cpp\<close>): registration, broadcast and relay, an invariant
  of all reachable hubs, and that messages stay with their device. \<^theory_text>\<open>Base64\<close>: the encoders and
  decoders of three services, equal to one reference encoding and inverse to each other (locale
  \<open>text_encoding\<close>). \<^theory_text>\<open>Gateway\<close> (\<^verbatim>\<open>config.h\<close>, \<^verbatim>\<open>nats_client.cpp\<close>, \<^verbatim>\<open>grpc_server.cpp\<close>, the callback of
  \<^verbatim>\<open>main.cpp\<close>): every frame is acknowledged, counted and published faithfully; a result reopens the
  gateway. \<^theory_text>\<open>Http_Server\<close> (\<^verbatim>\<open>http_server.cpp\<close>): routing, health and the life of a session.
  \<^theory_text>\<open>Gateway_Main\<close> (\<^verbatim>\<open>main.cpp\<close>): start-up, the run as a sequence of events, shutdown.

  \<^bold>\<open>Storage.\<close> \<^theory_text>\<open>Local_Store\<close> (\<^verbatim>\<open>local_store.cpp\<close>): a file system with failing calls, the states a
  put goes through, and its atomicity; the locale \<open>object_store\<close> is the contract the archive relies
  on. \<^theory_text>\<open>Archive\<close> (\<^verbatim>\<open>archive_handler.cpp\<close>): sanitised names and the objects a message becomes.
  \<^theory_text>\<open>Retention\<close> (\<^verbatim>\<open>retention_purger.cpp\<close>): a purge removes exactly the expired days; the protocol of
  the background thread with \<^verbatim>\<open>stop\<close> is a step relation. \<^theory_text>\<open>Storage_Main\<close> (\<^verbatim>\<open>main.cpp\<close>): the
  service as a sequence of deliveries, purges and requests, in which an archived message is
  kept for its whole retention period.

  \<^bold>\<open>Capture.\<close> \<^theory_text>\<open>Ring_Buffer\<close> (\<^verbatim>\<open>ring_buffer.h\<close>): the buffer refines a bounded queue (locale \<open>bounded_queue\<close>),
  and so does every interleaving of the two threads' atomic accesses. \<^theory_text>\<open>Capture\<close> (the rest of
  \<^verbatim>\<open>capture/src\<close>): camera, quality gate, client, the reconnection loop and \<^verbatim>\<open>main\<close>; frames arrive in order.
  \<^theory_text>\<open>Quality_Gate\<close> (\<^verbatim>\<open>quality_gate.cpp\<close>): the score over the documented operations of OpenCV, and its bounds.

  \<^bold>\<open>Key service.\<close> \<^theory_text>\<open>Key_Service\<close> (\<^verbatim>\<open>he_context.cpp\<close>, \<^verbatim>\<open>handlers.cpp\<close>, \<^verbatim>\<open>nats_service.cpp\<close>, \<^verbatim>\<open>main.cpp\<close>): key
  generation and loading across restarts, the answers of the handlers, the best match of a
  batch, and the ciphertext file that concurrent handlers share.

  \<^bold>\<open>Iris engine.\<close> \<^theory_text>\<open>Smpc2_Codec\<close> (\<^verbatim>\<open>smpc2_nats_codec.cpp\<close>): each field of the wire format is an
  interpretation of the locale \<open>byte_codec\<close>; messages round-trip, are canonical, and every truncation is rejected.
  \<^theory_text>\<open>Smpc2_Bus\<close> (\<^verbatim>\<open>nats_client.cpp\<close>, \<^verbatim>\<open>nats_smpc2_bus.cpp\<close>, the two participant programs): requests
  reach the service of the right participant and come back (locale \<open>rpc\<close>). \<^theory_text>\<open>Smpc_Manager\<close>
  (\<^verbatim>\<open>smpc.cpp\<close>, \<^verbatim>\<open>smpc_distributed.cpp\<close>, \<^verbatim>\<open>smpc2_manager.cpp\<close>): modes, parameters, migration. \<^theory_text>\<open>Fhe_Blob\<close>
  (\<^verbatim>\<open>fhe.cpp\<close>): the blob format, its round trip and its bounds with 64-bit wrap-around. \<^theory_text>\<open>Gallery\<close>
  (\<^verbatim>\<open>gallery.cpp\<close>): the nearest entry in each mode of matching. \<^theory_text>\<open>Db\<close> (\<^verbatim>\<open>db.cpp\<close>): the statements over
  the tables, integrity and round trip. \<^theory_text>\<open>Uuid\<close> (\<^verbatim>\<open>utils.h\<close>): the identifiers of templates, well-formed
  and as distinct as their random bits. \<^theory_text>\<open>Engine\<close> (\<^verbatim>\<open>routes_*.cpp\<close>, \<^verbatim>\<open>main.cpp\<close>): the routes
  over gallery and database together; an enrolment is all or nothing. \<^theory_text>\<open>Engine_Run\<close>: runs of requests refine an
  abstract directory of templates that gallery and database both represent, and a restart
  reproduces it. \<^theory_text>\<open>Gallery_Modes\<close>: matching through the SMPC gallery and through the coordinator
  gives the results of matching in the clear. \<^theory_text>\<open>Secure_Memory\<close> (\<^verbatim>\<open>secure_memory.h\<close>, as built on Linux): what
  is stored in a locked buffer leaves no trace after its destructor, and what the guard does not give (move
  assignment, shared pages, unaligned blocks).

  \<^bold>\<open>Across components.\<close> This theory connects the device with the gateway: the requests published for a
  device are its captured frames, in order and unchanged. Nothing in the repository consumes the
  requests, so the path ends there; results enter the gateway from outside.

  \<^bold>\<open>Tool.\<close> \<^theory_text>\<open>Webcam_Relay\<close> (\<^verbatim>\<open>tools/webcam-relay.cpp\<close>): arguments, the accept loop, and the stream with
  a reader that recovers its frames.

  \<^bold>\<open>Client.\<close> \<^theory_text>\<open>Client_Window\<close> (\<^verbatim>\<open>client2/windows/runner\<close>: \<^verbatim>\<open>win32_window.cpp\<close>, \<^verbatim>\<open>flutter_window.cpp\<close>, \<^verbatim>\<open>main.cpp\<close>):
  the window that hosts the Flutter view as a state machine over window messages, with its re-entrant destruction; it ends
  exactly when it is closed and releases what it holds. \<^theory_text>\<open>Client_Start\<close> (\<^verbatim>\<open>utils.cpp\<close>, and \<^verbatim>\<open>my_application.cc\<close> on
  Linux): the console, the arguments in UTF-16, and the GTK application.

  \<^bold>\<open>Conventions.\<close> State is passed explicitly in records. Exceptions and error codes are the left side
  of a sum or a code that is returned; an exception that leaves \<^verbatim>\<open>main\<close> is an \<open>ending\<close>. Counters and sizes keep their width as words where
  wrap-around can matter; \<^verbatim>\<open>double\<close> is the type of rationals, so rounding is not modelled. Threads
  are sequences of atomic steps: of single accesses in \<^theory_text>\<open>Ring_Buffer\<close>, \<^theory_text>\<open>Retention\<close> and for the ciphertext file, of
  whole critical sections elsewhere. What the operating system, the clock, the network and
  the libraries (libiris, OpenFHE, nats.c, PostgreSQL, OpenCV, gRPC, Boost.Beast, httplib, the JSON
  and TOML parsers) do is an argument of the definitions; where a theorem relies on it, a hypothesis states it.

  \<^bold>\<open>Loops.\<close> Every loop is a recursion over the data it consumes, except: the reconnection loop of
  the capture device, which may run for ever, is a partial function into \<open>option\<close>, and exactly when it returns is proved;
  the connection attempts of the services recurse on the number of attempts left, the constant of the
  source; the reader of the relay's stream takes the number of frames as fuel, which is enough
  because each part is one frame.

  \<^bold>\<open>Not modelled.\<close> The vendored \<^verbatim>\<open>httplib.h\<close>, the Dart application of the client, the rounding of
  the quality score to a \<^verbatim>\<open>float\<close>, the pipeline of libiris, log lines, metrics of time, tests, scripts and
  deployment files.
\<close>

section \<open>From the camera to the analysis request\<close>

text \<open>The message of \<^verbatim>\<open>capture.proto\<close> that the device writes, as the gateway reads it.\<close>

definition read_frame :: "wire_frame \<Rightarrow> CaptureFrame" where
  "read_frame w =
     \<lparr>jpeg_data = string_of_bytes (wf_jpeg w), quality_score = wf_quality w, timestamp_us = wf_timestamp w,
      cf_frame_id = wf_frame_id w, cf_device_id = wf_device_id w, is_nir = wf_is_nir w, eye_side = wf_eye_side w\<rparr>"

definition from_device :: "string \<Rightarrow> CaptureFrame list \<Rightarrow> CaptureFrame list" where
  "from_device d = filter (\<lambda>f. cf_device_id f = d)"

lemma subseq_subset: "subseq xs ys \<Longrightarrow> set xs \<subseteq> set ys"
  by (induction rule: list_emb.induct) auto

lemma sorted_wrt_subseq: "sorted_wrt R ys \<Longrightarrow> subseq xs ys \<Longrightarrow> sorted_wrt R xs"
proof (induction xs arbitrary: ys)
  case (Cons x xs)
  then obtain us vs where ys: "ys = us @ x # vs" "subseq xs vs" by (auto dest: list_emb_ConsD)
  then have "set xs \<subseteq> set vs" by (intro subseq_subset)
  with Cons ys show ?case by (auto simp: sorted_wrt_append)
qed simp

lemma accepted_subseq: "subseq (accepted_frames fs acks) fs"
proof (induction fs arbitrary: acks)
  case (Cons f fs)
  then show ?case by (cases acks) (auto simp: accepted_frames_def)
qed (simp add: accepted_frames_def)

lemma accepted_length: "length acks \<le> length fs \<Longrightarrow> length (accepted_frames fs acks) = length (filter ack_accepted acks)"
proof (induction fs arbitrary: acks)
  case (Cons f fs)
  then show ?case by (cases acks) (auto simp: accepted_frames_def)
qed (simp add: accepted_frames_def)


definition sample_item :: "CaptureFrame \<Rightarrow> stream_item" where
  "sample_item f =
     \<lparr>item_frame = f,
      item_env = \<lparr>options_ok = True, connect_ok = True, publish_ok = True, subscribe_ok = True, conn_connected = True\<rparr>,
      item_now = 5, item_latency = 1, item_write_ok = True\<rparr>"

lemma sample_accepts:
  "\<exists>a g'. stream_loop (\<lambda>_. ''r'') [sample_item f] (sample_gateway\<lparr>gw_breaker := Breaker_init 30000 10000\<rparr>) = ([a], g') \<and> ack_accepted a"
  by (simp add: sample_item_def sample_gateway_def process_frame_def publish_analyze_def NatsClient_init_def
      Breaker_init_def allow_def evaluate_def Let_def)


end
